theory Spec2Isabelle
  imports Main "HOL-Library.AList" "HOL-Library.Char_ord" "HOL-Library.List_Lexorder"
    "HOL-Library.Product_Lexorder"
begin

section \<open>Values, rows and Python dictionaries\<close>

text \<open>
  The scripts move JSON scalars between a local document and the D1 store. A scalar is
  \<^verbatim>\<open>None\<close>, a number or a string; numbers are modelled as integers. HOL
  equality on \<open>pyval\<close> is Python's \<^verbatim>\<open>==\<close> on these values: \<^verbatim>\<open>None\<close> equals only
  itself and the empty string is an ordinary string.
\<close>

datatype pyval = PNone | PInt int | PStr string

text \<open>
  A database row and a JSON object of scalars are Python dicts: ordered mappings from
  field name to value, kept as association lists whose first binding of a key counts.
\<close>

type_synonym row = "(string \<times> pyval) list"

text \<open>\<^verbatim>\<open>d.get(k)\<close>: the value, or \<^verbatim>\<open>None\<close> when the key is missing.\<close>

definition dict_get :: "row \<Rightarrow> string \<Rightarrow> pyval" where
  "dict_get d k = (case map_of d k of None \<Rightarrow> PNone | Some v \<Rightarrow> v)"

text \<open>\<^verbatim>\<open>d.get(k, default)\<close>.\<close>

definition dict_get_default :: "row \<Rightarrow> string \<Rightarrow> pyval \<Rightarrow> pyval" where
  "dict_get_default d k dflt = (case map_of d k of None \<Rightarrow> dflt | Some v \<Rightarrow> v)"

text \<open>\<^verbatim>\<open>k in d\<close>.\<close>

definition has_key :: "row \<Rightarrow> string \<Rightarrow> bool" where
  "has_key d k = (map_of d k \<noteq> None)"

text \<open>Python truthiness of a scalar: \<^verbatim>\<open>None\<close>, \<^verbatim>\<open>0\<close> and \<^verbatim>\<open>''\<close> are false.\<close>

fun truthy :: "pyval \<Rightarrow> bool" where
  "truthy PNone = False"
| "truthy (PInt n) = (n \<noteq> 0)"
| "truthy (PStr s) = (s \<noteq> [])"

text \<open>
  The exceptions the scripts raise: \<^verbatim>\<open>ValueError(message)\<close> from the explicit
  \<^verbatim>\<open>raise\<close> statements, \<^verbatim>\<open>KeyError(key)\<close> from \<^verbatim>\<open>d[k]\<close> on a missing key, and the
  exception of \<^verbatim>\<open>CloudflareD1Client.execute\<close> when the database refuses a statement
  (\<^verbatim>\<open>raise_for_status\<close>, or \<^verbatim>\<open>Exception("D1 query failed: ...")\<close> when the reply has no
  \<^verbatim>\<open>success\<close>).
\<close>

datatype error = ValueError string | KeyError string | D1Error

text \<open>\<^verbatim>\<open>d[k]\<close>.\<close>

definition subscript :: "row \<Rightarrow> string \<Rightarrow> error + pyval" where
  "subscript d k = (case map_of d k of None \<Rightarrow> Inl (KeyError k) | Some v \<Rightarrow> Inr v)"

text \<open>\<^verbatim>\<open>d[k] = v\<close> for each binding of \<open>data\<close> in turn (an existing key keeps its place).\<close>

fun set_cols :: "row \<Rightarrow> row \<Rightarrow> row" where
  "set_cols d [] = d"
| "set_cols d ((k, v) # kvs) = set_cols (AList.update k v d) kvs"

section \<open>The D1 store behind \<^verbatim>\<open>d1_client.py\<close>\<close>

text \<open>
  \<^verbatim>\<open>CloudflareD1Client\<close> sends SQL text with positional parameters to a remote SQLite
  database. The store is modelled as four tables of rows; each statement the scripts
  send is modelled by what SQLite does on it. The model store answers every query and
  accepts every \<^verbatim>\<open>UPDATE\<close>; an \<^verbatim>\<open>INSERT\<close> it may refuse (a constraint of the schema, a
  failure of the backend), and then \<^verbatim>\<open>execute\<close> raises.
\<close>

datatype table = Stations | Platforms | Instruments | InstrumentRois

fun table_name :: "table \<Rightarrow> string" where
  "table_name Stations = ''stations''"
| "table_name Platforms = ''platforms''"
| "table_name Instruments = ''instruments''"
| "table_name InstrumentRois = ''instrument_rois''"

type_synonym database = "table \<Rightarrow> row list"

text \<open>SQL \<^verbatim>\<open>col = ?\<close>: never true on \<^verbatim>\<open>NULL\<close>.\<close>

definition sql_eq :: "pyval \<Rightarrow> pyval \<Rightarrow> bool" where
  "sql_eq a b = (a \<noteq> PNone \<and> b \<noteq> PNone \<and> a = b)"

text \<open>\<^verbatim>\<open>SELECT * FROM t WHERE col = ?\<close>, in table order.\<close>

definition select_eq :: "row list \<Rightarrow> string \<Rightarrow> pyval \<Rightarrow> row list" where
  "select_eq rows col v = filter (\<lambda>r. sql_eq (dict_get r col) v) rows"

text \<open>\<^verbatim>\<open>SELECT c1, c2 FROM ...\<close>: every listed column is present in the result row.\<close>

definition project :: "string list \<Rightarrow> row \<Rightarrow> row" where
  "project cols r = map (\<lambda>c. (c, dict_get r c)) cols"

text \<open>
  \<^verbatim>\<open>ORDER BY col\<close>: SQLite sorts \<^verbatim>\<open>NULL\<close> first, then numbers, then text bytewise;
  rows with equal keys keep their table order.
\<close>

fun sql_key :: "pyval \<Rightarrow> nat \<times> int \<times> string" where
  "sql_key PNone = (0, 0, [])"
| "sql_key (PInt n) = (1, n, [])"
| "sql_key (PStr s) = (2, 0, s)"

definition order_by :: "string \<Rightarrow> row list \<Rightarrow> row list" where
  "order_by col rows = sort_key (\<lambda>r. sql_key (dict_get r col)) rows"

text \<open>\<^verbatim>\<open>query_one\<close>: \<^verbatim>\<open>results[0] if results else None\<close>.\<close>

fun query_one :: "row list \<Rightarrow> row option" where
  "query_one [] = None"
| "query_one (r # rs) = Some r"

text \<open>
  The mutating statements of the client. \<^verbatim>\<open>update\<close> and \<^verbatim>\<open>delete\<close> take a
  \<^verbatim>\<open>WHERE\<close> fragment; every caller passes \<^verbatim>\<open>"id = ?"\<close>, kept here as the column and
  its parameter.
\<close>

datatype stmt =
    Insert table row
  | Update table row string pyval
  | Delete table string pyval

fun is_update :: "stmt \<Rightarrow> bool" where
  "is_update (Update t d c v) = True"
| "is_update (Insert t d) = False"
| "is_update (Delete t c v) = False"

text \<open>
  The SQL text \<^verbatim>\<open>update\<close> builds:
  \<^verbatim>\<open>UPDATE {table} SET {k1 = ?, k2 = ?, ...} WHERE {where}\<close>.
\<close>

fun join :: "string \<Rightarrow> string list \<Rightarrow> string" where
  "join sep [] = []"
| "join sep [x] = x"
| "join sep (x # y # ys) = x @ sep @ join sep (y # ys)"

definition update_sql :: "string \<Rightarrow> row \<Rightarrow> string \<Rightarrow> string" where
  "update_sql tbl data whr =
     ''UPDATE '' @ tbl @ '' SET '' @ join '', '' (map (\<lambda>(k, v). k @ '' = ?'') data)
       @ '' WHERE '' @ whr"

definition update_params :: "row \<Rightarrow> pyval list \<Rightarrow> pyval list" where
  "update_params data where_params = map snd data @ where_params"

text \<open>
  The caller's world: the store, which inserts the database accepts (given the table,
  its rows and the new row's data), the mutating statements executed so far (oldest
  first) and the lines printed so far.
\<close>

datatype row_error = PlatformNotFound nat pyval | RowException nat error

datatype msg =
    DryRunStation row
  | DryRunPlatform pyval row
  | DryRunInstrument pyval
  | SyncSummary string nat nat nat
  | DryRunInsert pyval
  | Inserted pyval pyval
  | ImportSummary nat nat nat
  | ImportError row_error

record world =
  store :: database
  accepts :: "table \<Rightarrow> row list \<Rightarrow> row \<Rightarrow> bool"
  executed :: "stmt list"
  printed :: "msg list"

definition print :: "msg \<Rightarrow> world \<Rightarrow> world" where
  "print m w = w\<lparr>printed := printed w @ [m]\<rparr>"

text \<open>\<^verbatim>\<open>UPDATE t SET ... WHERE col = ?\<close> on the rows of a table.\<close>

definition update_rows :: "row list \<Rightarrow> row \<Rightarrow> string \<Rightarrow> pyval \<Rightarrow> row list" where
  "update_rows rows data col v =
     map (\<lambda>r. if sql_eq (dict_get r col) v then set_cols r data else r) rows"

definition d1_update :: "table \<Rightarrow> row \<Rightarrow> string \<Rightarrow> pyval \<Rightarrow> world \<Rightarrow> world" where
  "d1_update t data col v w =
     w\<lparr>store := (store w)(t := update_rows (store w t) data col v),
       executed := executed w @ [Update t data col v]\<rparr>"

text \<open>
  \<^verbatim>\<open>INSERT INTO t (...) VALUES (...)\<close>: when the database accepts it, the new row gets
  the next row id, which \<^verbatim>\<open>insert\<close> returns (\<^verbatim>\<open>last_row_id\<close>); when it does not,
  \<^verbatim>\<open>execute\<close> raises and nothing is stored.
\<close>

fun max_id :: "row list \<Rightarrow> int" where
  "max_id [] = 0"
| "max_id (r # rs) = (case dict_get r ''id'' of PInt n \<Rightarrow> max n (max_id rs) | _ \<Rightarrow> max_id rs)"

definition d1_insert :: "table \<Rightarrow> row \<Rightarrow> world \<Rightarrow> (error + pyval) \<times> world" where
  "d1_insert t data w =
     (if accepts w t (store w t) data
      then (let new_id = PInt (max_id (store w t) + 1)
            in (Inr new_id,
                w\<lparr>store := (store w)(t := store w t @ [(''id'', new_id) # data]),
                  executed := executed w @ [Insert t data]\<rparr>))
      else (Inl D1Error, w))"

section \<open>Documents\<close>

text \<open>
  The nested station document of \<^verbatim>\<open>sync_data.py\<close>: a station's own fields with the
  list \<^verbatim>\<open>platforms\<close>, each platform's fields with the list \<^verbatim>\<open>instruments\<close>, each
  instrument's fields with the list \<^verbatim>\<open>rois\<close>, and the metadata object with its key
  (\<^verbatim>\<open>_sync_meta\<close> or \<^verbatim>\<open>_export_meta\<close>). In a local file a missing child list reads as
  the empty list, as \<^verbatim>\<open>.get('platforms', [])\<close> does.
\<close>

record instrument_doc =
  inst_fields :: row
  rois :: "row list"

record platform_doc =
  plat_fields :: row
  instruments :: "instrument_doc list"

record station_doc =
  st_fields :: row
  platforms :: "platform_doc list"
  meta :: "string \<times> row"

section \<open>\<^verbatim>\<open>sync_data.py\<close> and \<^verbatim>\<open>export_station.py\<close>: assembling a station\<close>

text \<open>
  Both assemblers read the station by acronym, its platforms, each platform's
  instruments and each instrument's ROIs, and attach every child list under its parent.
  They differ in the \<^verbatim>\<open>ORDER BY\<close> column of the platform and instrument queries
  (\<open>ord\<close> below) and in the metadata they add. \<open>now\<close> is what
  \<^verbatim>\<open>datetime.utcnow().isoformat()\<close> returns during the call. Writing the file and the
  lines printed are not modelled.
\<close>

definition station_not_found :: "string \<Rightarrow> error" where
  "station_not_found acr = ValueError (''Station '' @ acr @ '' not found'')"

fun pull_instruments :: "database \<Rightarrow> row list \<Rightarrow> error + instrument_doc list" where
  "pull_instruments db [] = Inr []"
| "pull_instruments db (i # is) =
     (case subscript i ''id'' of
        Inl e \<Rightarrow> Inl e
      | Inr iid \<Rightarrow>
          (case pull_instruments db is of
             Inl e \<Rightarrow> Inl e
           | Inr rest \<Rightarrow>
               Inr (\<lparr>inst_fields = i,
                     rois = order_by ''roi_name''
                              (select_eq (db InstrumentRois) ''instrument_id'' iid)\<rparr> # rest)))"

fun pull_platforms :: "string \<Rightarrow> database \<Rightarrow> row list \<Rightarrow> error + platform_doc list" where
  "pull_platforms ord db [] = Inr []"
| "pull_platforms ord db (p # ps) =
     (case subscript p ''id'' of
        Inl e \<Rightarrow> Inl e
      | Inr pid \<Rightarrow>
          (case pull_instruments db
                  (order_by ord (select_eq (db Instruments) ''platform_id'' pid)) of
             Inl e \<Rightarrow> Inl e
           | Inr insts \<Rightarrow>
               (case pull_platforms ord db ps of
                  Inl e \<Rightarrow> Inl e
                | Inr rest \<Rightarrow> Inr (\<lparr>plat_fields = p, instruments = insts\<rparr> # rest))))"

text \<open>
  \<^verbatim>\<open>pull_station\<close> orders platforms and instruments by \<^verbatim>\<open>normalized_name\<close> and adds
  \<^verbatim>\<open>_sync_meta = {'pulled_at': now, 'source': 'cloudflare_d1'}\<close>.
\<close>

definition pull_station :: "string \<Rightarrow> pyval \<Rightarrow> database \<Rightarrow> error + station_doc" where
  "pull_station acr now db =
     (case query_one (select_eq (db Stations) ''acronym'' (PStr acr)) of
        None \<Rightarrow> Inl (station_not_found acr)
      | Some station \<Rightarrow>
          (case subscript station ''id'' of
             Inl e \<Rightarrow> Inl e
           | Inr sid \<Rightarrow>
               (case pull_platforms ''normalized_name'' db
                       (order_by ''normalized_name''
                          (select_eq (db Platforms) ''station_id'' sid)) of
                  Inl e \<Rightarrow> Inl e
                | Inr plats \<Rightarrow>
                    Inr \<lparr>st_fields = station, platforms = plats,
                         meta = (''_sync_meta'',
                                 [(''pulled_at'', now),
                                  (''source'', PStr ''cloudflare_d1'')])\<rparr>)))"

text \<open>
  \<^verbatim>\<open>export_station_data\<close> orders platforms and instruments by \<^verbatim>\<open>display_name\<close> and
  adds \<^verbatim>\<open>_export_meta\<close> with the time and the three counts. It reads
  \<^verbatim>\<open>station['display_name']\<close> for its first printed line.
\<close>

definition export_station_data :: "string \<Rightarrow> pyval \<Rightarrow> database \<Rightarrow> error + station_doc" where
  "export_station_data acr now db =
     (case query_one (select_eq (db Stations) ''acronym'' (PStr acr)) of
        None \<Rightarrow> Inl (station_not_found acr)
      | Some station \<Rightarrow>
          (case subscript station ''display_name'' of
             Inl e \<Rightarrow> Inl e
           | Inr shown \<Rightarrow>
               (case subscript station ''id'' of
                  Inl e \<Rightarrow> Inl e
                | Inr sid \<Rightarrow>
                    (case pull_platforms ''display_name'' db
                            (order_by ''display_name''
                               (select_eq (db Platforms) ''station_id'' sid)) of
                       Inl e \<Rightarrow> Inl e
                     | Inr plats \<Rightarrow>
                         Inr \<lparr>st_fields = station, platforms = plats,
                              meta = (''_export_meta'',
                                [(''exported_at'', now),
                                 (''platform_count'', PInt (int (length plats))),
                                 (''instrument_count'',
                                    PInt (int (sum_list (map (\<lambda>p. length (instruments p)) plats)))),
                                 (''roi_count'',
                                    PInt (int (sum_list (map (\<lambda>p.
                                      sum_list (map (\<lambda>i. length (rois i)) (instruments p)))
                                        plats))))])\<rparr>))))"

section \<open>\<^verbatim>\<open>sync_data.py\<close>: push\<close>

text \<open>The counters \<^verbatim>\<open>push_station\<close> returns.\<close>

record changes =
  updated :: nat
  inserted :: nat
  deleted :: nat

text \<open>The fields \<^verbatim>\<open>push_station\<close> compares at each level.\<close>

definition station_fields :: "string list" where
  "station_fields = [''display_name'', ''description'', ''latitude'', ''longitude'']"

definition platform_fields :: "string list" where
  "platform_fields = [''display_name'', ''description'', ''latitude'', ''longitude'', ''status'']"

definition instrument_fields :: "string list" where
  "instrument_fields = [''display_name'', ''description'', ''status'', ''serial_number'']"

text \<open>
  The loop
  \<^verbatim>\<open>if field in local and local[field] != existing.get(field): updates[field] = local[field]\<close>.
\<close>

fun field_updates :: "string list \<Rightarrow> row \<Rightarrow> row \<Rightarrow> row" where
  "field_updates [] local existing = []"
| "field_updates (f # fs) local existing =
     (case map_of local f of
        None \<Rightarrow> field_updates fs local existing
      | Some v \<Rightarrow>
          (if v \<noteq> dict_get existing f then (f, v) # field_updates fs local existing
           else field_updates fs local existing))"

text \<open>
  The block that follows each comparison: nothing when no field differs; otherwise
  \<^verbatim>\<open>updated_at\<close> is added and either the dry-run line is printed or one
  \<^verbatim>\<open>db.update(table, updates, "id = ?", [existing['id']])\<close> is sent and the counter
  \<^verbatim>\<open>updated\<close> goes up. An exception leaves the world as it was when it was raised.
\<close>

definition apply_updates ::
  "table \<Rightarrow> (row \<Rightarrow> msg) \<Rightarrow> bool \<Rightarrow> pyval \<Rightarrow> row \<Rightarrow> row \<Rightarrow> changes \<Rightarrow> world
     \<Rightarrow> (error + changes) \<times> world" where
  "apply_updates t dry_msg dry_run now updates existing ch w =
     (if updates = [] then (Inr ch, w)
      else
        (let updates' = updates @ [(''updated_at'', now)]
         in if dry_run then (Inr ch, print (dry_msg updates') w)
            else
              (case subscript existing ''id'' of
                 Inl e \<Rightarrow> (Inl e, w)
               | Inr idv \<Rightarrow>
                   (Inr (ch\<lparr>updated := updated ch + 1\<rparr>),
                    d1_update t updates' ''id'' idv w))))"

text \<open>
  The inner loop over \<^verbatim>\<open>local_platform.get('instruments', [])\<close>. The lookup is
  \<^verbatim>\<open>SELECT * FROM instruments WHERE normalized_name = ?\<close>; a row it returns has a
  \<^verbatim>\<open>normalized_name\<close>, so \<^verbatim>\<open>if existing_inst\<close> only tests for \<^verbatim>\<open>None\<close>.
\<close>

fun push_instruments ::
  "bool \<Rightarrow> pyval \<Rightarrow> instrument_doc list \<Rightarrow> changes \<Rightarrow> world \<Rightarrow> (error + changes) \<times> world" where
  "push_instruments dry_run now [] ch w = (Inr ch, w)"
| "push_instruments dry_run now (li # lis) ch w =
     (case subscript (inst_fields li) ''normalized_name'' of
        Inl e \<Rightarrow> (Inl e, w)
      | Inr name \<Rightarrow>
          (case query_one (select_eq (store w Instruments) ''normalized_name'' name) of
             None \<Rightarrow> push_instruments dry_run now lis ch w
           | Some existing_inst \<Rightarrow>
               (case apply_updates Instruments (\<lambda>u. DryRunInstrument name) dry_run now
                       (field_updates instrument_fields (inst_fields li) existing_inst)
                       existing_inst ch w of
                  (Inl e, w') \<Rightarrow> (Inl e, w')
                | (Inr ch', w') \<Rightarrow> push_instruments dry_run now lis ch' w')))"

text \<open>The outer loop over \<^verbatim>\<open>local_data.get('platforms', [])\<close>.\<close>

fun push_platforms ::
  "bool \<Rightarrow> pyval \<Rightarrow> platform_doc list \<Rightarrow> changes \<Rightarrow> world \<Rightarrow> (error + changes) \<times> world" where
  "push_platforms dry_run now [] ch w = (Inr ch, w)"
| "push_platforms dry_run now (lp # lps) ch w =
     (case subscript (plat_fields lp) ''normalized_name'' of
        Inl e \<Rightarrow> (Inl e, w)
      | Inr name \<Rightarrow>
          (case query_one (select_eq (store w Platforms) ''normalized_name'' name) of
             None \<Rightarrow> push_platforms dry_run now lps ch w
           | Some existing \<Rightarrow>
               (case apply_updates Platforms (DryRunPlatform name) dry_run now
                       (field_updates platform_fields (plat_fields lp) existing)
                       existing ch w of
                  (Inl e, w') \<Rightarrow> (Inl e, w')
                | (Inr ch', w') \<Rightarrow>
                    (case push_instruments dry_run now (instruments lp) ch' w' of
                       (Inl e, w'') \<Rightarrow> (Inl e, w'')
                     | (Inr ch'', w'') \<Rightarrow> push_platforms dry_run now lps ch'' w''))))"

text \<open>
  \<^verbatim>\<open>push_station(station_acronym, input_file, dry_run)\<close>, with the parsed file as
  \<open>local_data\<close>. It returns the counters, or the exception raised.
\<close>

definition push_station ::
  "string \<Rightarrow> station_doc \<Rightarrow> bool \<Rightarrow> pyval \<Rightarrow> world \<Rightarrow> (error + changes) \<times> world" where
  "push_station acr local_data dry_run now w =
     (case query_one (select_eq (store w Stations) ''acronym'' (PStr acr)) of
        None \<Rightarrow> (Inl (station_not_found acr), w)
      | Some station \<Rightarrow>
          (case apply_updates Stations DryRunStation dry_run now
                  (field_updates station_fields (st_fields local_data) station)
                  station \<lparr>updated = 0, inserted = 0, deleted = 0\<rparr> w of
             (Inl e, w') \<Rightarrow> (Inl e, w')
           | (Inr ch, w') \<Rightarrow>
               (case push_platforms dry_run now (platforms local_data) ch w' of
                  (Inl e, w'') \<Rightarrow> (Inl e, w'')
                | (Inr ch', w'') \<Rightarrow>
                    (Inr ch',
                     print (SyncSummary acr (updated ch') (inserted ch') (deleted ch')) w''))))"

section \<open>\<^verbatim>\<open>sync_data.py\<close>: diff\<close>

text \<open>
  One reported difference: the field, the local value and the database value, both
  read with \<^verbatim>\<open>.get\<close>. A platform difference also carries the platform's name.
\<close>

record field_diff =
  fd_field :: string
  fd_local :: pyval
  fd_database :: pyval

record differences =
  station_diffs :: "field_diff list"
  platform_diffs :: "(pyval \<times> field_diff) list"
  instrument_diffs :: "field_diff list"

fun field_diffs :: "string list \<Rightarrow> row \<Rightarrow> row \<Rightarrow> field_diff list" where
  "field_diffs [] local dbrow = []"
| "field_diffs (f # fs) local dbrow =
     (if dict_get local f \<noteq> dict_get dbrow f
      then \<lparr>fd_field = f, fd_local = dict_get local f, fd_database = dict_get dbrow f\<rparr>
             # field_diffs fs local dbrow
      else field_diffs fs local dbrow)"

text \<open>
  \<^verbatim>\<open>{p['normalized_name']: p for p in local_data.get('platforms', [])}\<close>: a later
  platform of the same name replaces an earlier one.
\<close>

fun index_by_name :: "(pyval \<times> row) list \<Rightarrow> row list \<Rightarrow> error + (pyval \<times> row) list" where
  "index_by_name acc [] = Inr acc"
| "index_by_name acc (p # ps) =
     (case subscript p ''normalized_name'' of
        Inl e \<Rightarrow> Inl e
      | Inr n \<Rightarrow> index_by_name (AList.update n p acc) ps)"

definition diff_station_fields :: "string list" where
  "diff_station_fields = [''display_name'', ''description'', ''latitude'', ''longitude'']"

definition diff_platform_fields :: "string list" where
  "diff_platform_fields = [''display_name'', ''status'', ''latitude'', ''longitude'']"

text \<open>
  The loop over the station's platforms in the database. A local platform found in the
  index has a \<^verbatim>\<open>normalized_name\<close>, so \<^verbatim>\<open>if local_plat\<close> only tests for \<^verbatim>\<open>None\<close>.
\<close>

fun diff_platforms ::
  "(pyval \<times> row) list \<Rightarrow> row list \<Rightarrow> error + (pyval \<times> field_diff) list" where
  "diff_platforms local_platforms [] = Inr []"
| "diff_platforms local_platforms (db_plat # rest) =
     (case subscript db_plat ''normalized_name'' of
        Inl e \<Rightarrow> Inl e
      | Inr name \<Rightarrow>
          (case diff_platforms local_platforms rest of
             Inl e \<Rightarrow> Inl e
           | Inr ds \<Rightarrow>
               (case map_of local_platforms name of
                  None \<Rightarrow> Inr ds
                | Some local_plat \<Rightarrow>
                    Inr (map (Pair name) (field_diffs diff_platform_fields local_plat db_plat)
                           @ ds))))"

text \<open>\<^verbatim>\<open>diff_station\<close>; the lines it prints are not modelled.\<close>

definition diff_station :: "string \<Rightarrow> station_doc \<Rightarrow> database \<Rightarrow> error + differences" where
  "diff_station acr local_data db =
     (case query_one (select_eq (db Stations) ''acronym'' (PStr acr)) of
        None \<Rightarrow> Inl (station_not_found acr)
      | Some station \<Rightarrow>
          (case index_by_name [] (map plat_fields (platforms local_data)) of
             Inl e \<Rightarrow> Inl e
           | Inr local_platforms \<Rightarrow>
               (case subscript station ''id'' of
                  Inl e \<Rightarrow> Inl e
                | Inr sid \<Rightarrow>
                    (case diff_platforms local_platforms
                            (select_eq (db Platforms) ''station_id'' sid) of
                       Inl e \<Rightarrow> Inl e
                     | Inr pds \<Rightarrow>
                         Inr \<lparr>station_diffs =
                                field_diffs diff_station_fields (st_fields local_data) station,
                              platform_diffs = pds,
                              instrument_diffs = []\<rparr>))))"

section \<open>\<^verbatim>\<open>bulk_import.py\<close>\<close>

text \<open>\<^verbatim>\<open>a or b\<close> on scalars.\<close>

definition py_or :: "pyval \<Rightarrow> pyval \<Rightarrow> pyval" where
  "py_or a b = (if truthy a then a else b)"

text \<open>
  \<^verbatim>\<open>{p['normalized_name']: p['id'] for p in platforms}\<close> over the rows of
  \<^verbatim>\<open>SELECT id, normalized_name FROM platforms WHERE station_id = ?\<close>, which have both
  columns.
\<close>

fun platform_map_of :: "(pyval \<times> pyval) list \<Rightarrow> row list \<Rightarrow> (pyval \<times> pyval) list" where
  "platform_map_of acc [] = acc"
| "platform_map_of acc (p # ps) =
     platform_map_of (AList.update (dict_get p ''normalized_name'') (dict_get p ''id'') acc) ps"

definition optional_fields :: "string list" where
  "optional_fields = [''description'', ''serial_number'', ''manufacturer'', ''model'',
     ''latitude'', ''longitude'', ''installation_date'']"

text \<open>\<^verbatim>\<open>if field in row and row[field]: instrument_data[field] = row[field]\<close>.\<close>

fun add_optional :: "string list \<Rightarrow> row \<Rightarrow> row \<Rightarrow> row" where
  "add_optional [] r data = data"
| "add_optional (f # fs) r data =
     add_optional fs r
       (if has_key r f \<and> truthy (dict_get r f) then AList.update f (dict_get r f) data
        else data)"

text \<open>The dict an instrument row is turned into; its two subscripts can raise.\<close>

definition instrument_data :: "pyval \<Rightarrow> pyval \<Rightarrow> row \<Rightarrow> error + row" where
  "instrument_data platform_id now r =
     (case subscript r ''normalized_name'' of
        Inl e \<Rightarrow> Inl e
      | Inr name \<Rightarrow>
          (case subscript r ''instrument_type'' of
             Inl e \<Rightarrow> Inl e
           | Inr ty \<Rightarrow>
               Inr (add_optional optional_fields r
                      [(''platform_id'', platform_id),
                       (''normalized_name'', name),
                       (''display_name'', dict_get_default r ''display_name'' name),
                       (''instrument_type'', ty),
                       (''status'', dict_get_default r ''status'' (PStr ''Active'')),
                       (''created_at'', now),
                       (''updated_at'', now)])))"

text \<open>
  The loop \<^verbatim>\<open>for i, row in enumerate(rows, 1)\<close> with its \<^verbatim>\<open>try\<close>: the state is the
  list \<^verbatim>\<open>imported\<close>, the list \<^verbatim>\<open>errors\<close> and the world. An error entry keeps the
  row number and what the message is built from. The \<^verbatim>\<open>except Exception\<close> catches the
  \<^verbatim>\<open>KeyError\<close> of a missing column and the exception of a refused \<^verbatim>\<open>db.insert\<close> alike.
\<close>

fun import_instrument_rows ::
  "(pyval \<times> pyval) list \<Rightarrow> bool \<Rightarrow> pyval \<Rightarrow> nat \<Rightarrow> row list
     \<Rightarrow> row list \<times> row_error list \<times> world \<Rightarrow> row list \<times> row_error list \<times> world" where
  "import_instrument_rows platform_map dry_run now i [] acc = acc"
| "import_instrument_rows platform_map dry_run now i (r # rs) (imported, errors, w) =
     (let platform_name = py_or (dict_get r ''platform_normalized_name'') (dict_get r ''platform'');
          platform_id = (case map_of platform_map platform_name of None \<Rightarrow> PNone | Some v \<Rightarrow> v)
      in if \<not> truthy platform_id
         then import_instrument_rows platform_map dry_run now (Suc i) rs
                (imported, errors @ [PlatformNotFound i platform_name], w)
         else
           (case instrument_data platform_id now r of
              Inl e \<Rightarrow>
                import_instrument_rows platform_map dry_run now (Suc i) rs
                  (imported, errors @ [RowException i e], w)
            | Inr data \<Rightarrow>
                (if dry_run
                 then import_instrument_rows platform_map dry_run now (Suc i) rs
                        (imported @ [data], errors,
                         print (DryRunInsert (dict_get data ''normalized_name'')) w)
                 else
                   (case d1_insert Instruments data w of
                      (Inl e, w') \<Rightarrow>
                        import_instrument_rows platform_map dry_run now (Suc i) rs
                          (imported, errors @ [RowException i e], w')
                    | (Inr instrument_id, w') \<Rightarrow>
                        import_instrument_rows platform_map dry_run now (Suc i) rs
                          (imported @ [AList.update ''id'' instrument_id data], errors,
                           print (Inserted (dict_get data ''normalized_name'') instrument_id)
                             w')))))"

text \<open>
  \<^verbatim>\<open>import_instruments(file_path, station_acronym, dry_run)\<close>, with the parsed file as
  \<open>rows\<close>. It returns the list \<^verbatim>\<open>imported\<close>; the summary and the errors are printed.
\<close>

definition import_instruments ::
  "row list \<Rightarrow> string \<Rightarrow> bool \<Rightarrow> pyval \<Rightarrow> world \<Rightarrow> (error + row list) \<times> world" where
  "import_instruments rows acr dry_run now w =
     (case query_one (map (project [''id''])
                        (select_eq (store w Stations) ''acronym'' (PStr acr))) of
        None \<Rightarrow> (Inl (station_not_found acr), w)
      | Some station \<Rightarrow>
          (let platforms = map (project [''id'', ''normalized_name''])
                             (select_eq (store w Platforms) ''station_id''
                                (dict_get station ''id''));
               platform_map = platform_map_of [] platforms
           in case import_instrument_rows platform_map dry_run now 1 rows ([], [], w) of
                (imported, errors, w') \<Rightarrow>
                  (Inr imported,
                   w'\<lparr>printed := printed w'
                        @ [ImportSummary (length rows) (length imported) (length errors)]
                        @ map ImportError errors\<rparr>)))"

text \<open>
  \<^verbatim>\<open>import_platforms\<close> has no \<^verbatim>\<open>try\<close>: an exception in a row ends the call, with
  the rows before it already inserted. Python's \<^verbatim>\<open>float\<close> is the parameter
  \<open>float_of\<close>.
\<close>

definition platform_data ::
  "(pyval \<Rightarrow> error + pyval) \<Rightarrow> pyval \<Rightarrow> pyval \<Rightarrow> row \<Rightarrow> error + row" where
  "platform_data float_of station_id now r =
     (case subscript r ''normalized_name'' of
        Inl e \<Rightarrow> Inl e
      | Inr name \<Rightarrow>
          (let d0 = [(''station_id'', station_id),
                     (''normalized_name'', name),
                     (''display_name'', dict_get_default r ''display_name'' name),
                     (''platform_type'', dict_get_default r ''platform_type'' (PStr ''fixed'')),
                     (''ecosystem_code'', dict_get_default r ''ecosystem_code'' (PStr ''FOR'')),
                     (''status'', dict_get_default r ''status'' (PStr ''Active'')),
                     (''created_at'', now),
                     (''updated_at'', now)]
           in case (if has_key r ''latitude''
                    then (case float_of (dict_get r ''latitude'') of
                            Inl e \<Rightarrow> Inl e
                          | Inr x \<Rightarrow> Inr (AList.update ''latitude'' x d0))
                    else Inr d0) of
                Inl e \<Rightarrow> Inl e
              | Inr d1 \<Rightarrow>
                  (case (if has_key r ''longitude''
                         then (case float_of (dict_get r ''longitude'') of
                                 Inl e \<Rightarrow> Inl e
                               | Inr x \<Rightarrow> Inr (AList.update ''longitude'' x d1))
                         else Inr d1) of
                     Inl e \<Rightarrow> Inl e
                   | Inr d2 \<Rightarrow>
                       Inr (if has_key r ''description''
                            then AList.update ''description'' (dict_get r ''description'') d2
                            else d2))))"

fun import_platform_rows ::
  "(pyval \<Rightarrow> error + pyval) \<Rightarrow> pyval \<Rightarrow> bool \<Rightarrow> pyval \<Rightarrow> row list \<Rightarrow> row list \<Rightarrow> world
     \<Rightarrow> (error + row list) \<times> world" where
  "import_platform_rows float_of station_id dry_run now [] imported w = (Inr imported, w)"
| "import_platform_rows float_of station_id dry_run now (r # rs) imported w =
     (case platform_data float_of station_id now r of
        Inl e \<Rightarrow> (Inl e, w)
      | Inr data \<Rightarrow>
          (if dry_run
           then import_platform_rows float_of station_id dry_run now rs (imported @ [data])
                  (print (DryRunInsert (dict_get data ''normalized_name'')) w)
           else
             (case d1_insert Platforms data w of
                (Inl e, w') \<Rightarrow> (Inl e, w')
              | (Inr platform_id, w') \<Rightarrow>
                  import_platform_rows float_of station_id dry_run now rs
                    (imported @ [AList.update ''id'' platform_id data])
                    (print (Inserted (dict_get data ''normalized_name'') platform_id) w'))))"

definition import_platforms ::
  "(pyval \<Rightarrow> error + pyval) \<Rightarrow> row list \<Rightarrow> string \<Rightarrow> bool \<Rightarrow> pyval \<Rightarrow> world
     \<Rightarrow> (error + row list) \<times> world" where
  "import_platforms float_of rows acr dry_run now w =
     (case query_one (map (project [''id''])
                        (select_eq (store w Stations) ''acronym'' (PStr acr))) of
        None \<Rightarrow> (Inl (station_not_found acr), w)
      | Some station \<Rightarrow>
          import_platform_rows float_of (dict_get station ''id'') dry_run now rows [] w)"

section \<open>\<^verbatim>\<open>export_db_to_yaml.py\<close>: the instrument entry and its sub-objects\<close>

text \<open>
  For each joined row \<^verbatim>\<open>main\<close> builds the instrument's dict: eight scalar fields, and
  the sub-objects \<^verbatim>\<open>camera\<close> and \<^verbatim>\<open>sensor\<close>, each a dict or \<^verbatim>\<open>None\<close>. Every value
  is read with \<^verbatim>\<open>row[...]\<close>, so the first key missing from the row, in evaluation
  order, raises \<^verbatim>\<open>KeyError\<close>; the fields of a sub-object are read only when its
  condition holds.
\<close>

record instrument_entry =
  entry_fields :: row
  camera :: "row option"
  sensor :: "row option"

definition entry_keys :: "row \<Rightarrow> string list" where
  "entry_keys r =
     [''instr_display'', ''instrument_type'', ''instrument_number'', ''status'',
      ''legacy_acronym'', ''instrument_height_m'', ''deployment_date'', ''camera_brand'']
     @ (if truthy (dict_get r ''camera_brand'')
        then [''camera_model'', ''camera_serial_number''] else [])
     @ [''sensor_brand'']
     @ (if truthy (dict_get r ''sensor_brand'') then [''sensor_model''] else [])
     @ [''installation_notes'']"

definition build_entry :: "row \<Rightarrow> error + instrument_entry" where
  "build_entry r =
     (case find (\<lambda>k. \<not> has_key r k) (entry_keys r) of
        Some k \<Rightarrow> Inl (KeyError k)
      | None \<Rightarrow>
          Inr \<lparr>entry_fields =
                 [(''display_name'', dict_get r ''instr_display''),
                  (''instrument_type'', dict_get r ''instrument_type''),
                  (''instrument_number'', dict_get r ''instrument_number''),
                  (''status'', dict_get r ''status''),
                  (''legacy_acronym'', dict_get r ''legacy_acronym''),
                  (''instrument_height_m'', dict_get r ''instrument_height_m''),
                  (''deployment_date'', dict_get r ''deployment_date''),
                  (''installation_notes'', dict_get r ''installation_notes'')],
               camera =
                 (if truthy (dict_get r ''camera_brand'')
                  then Some [(''brand'', dict_get r ''camera_brand''),
                             (''model'', dict_get r ''camera_model''),
                             (''serial_number'', dict_get r ''camera_serial_number'')]
                  else None),
               sensor =
                 (if truthy (dict_get r ''sensor_brand'')
                  then Some [(''brand'', dict_get r ''sensor_brand''),
                             (''model'', dict_get r ''sensor_model'')]
                  else None)\<rparr>)"

text \<open>
  The YAML lines printed for the two sub-objects: the key line when the sub-object is
  there, then one line for each of its fields that is truthy.
\<close>

datatype yline = YKey string | YField string pyval

fun truthy_lines :: "string list \<Rightarrow> row \<Rightarrow> yline list" where
  "truthy_lines [] d = []"
| "truthy_lines (k # ks) d =
     (if truthy (dict_get d k) then YField k (dict_get d k) # truthy_lines ks d
      else truthy_lines ks d)"

definition emit_camera :: "instrument_entry \<Rightarrow> yline list" where
  "emit_camera idata =
     (case camera idata of
        None \<Rightarrow> []
      | Some c \<Rightarrow> YKey ''camera'' # truthy_lines [''brand'', ''model'', ''serial_number''] c)"

definition emit_sensor :: "instrument_entry \<Rightarrow> yline list" where
  "emit_sensor idata =
     (case sensor idata of
        None \<Rightarrow> []
      | Some c \<Rightarrow> YKey ''sensor'' # truthy_lines [''brand'', ''model''] c)"

section \<open>An example store\<close>

text \<open>
  Two stations. Svartberget (SVB) has two platforms, one of them with a phenocam that has
  two regions of interest; Abisko (ANS) has one platform with one phenocam. The example
  database refuses a new row whose \<^verbatim>\<open>normalized_name\<close> is already in the table.
\<close>

definition example_db :: database where
  "example_db t =
     (case t of
        Stations \<Rightarrow>
          [[(''id'', PInt 1), (''acronym'', PStr ''SVB''), (''display_name'', PStr ''Svartberget''),
            (''description'', PNone)],
           [(''id'', PInt 2), (''acronym'', PStr ''ANS''), (''display_name'', PStr ''Abisko''),
            (''description'', PNone)]]
      | Platforms \<Rightarrow>
          [[(''id'', PInt 1), (''station_id'', PInt 1), (''normalized_name'', PStr ''SVB_PL02''),
            (''display_name'', PStr ''Mire''), (''status'', PStr ''Active'')],
           [(''id'', PInt 2), (''station_id'', PInt 1), (''normalized_name'', PStr ''SVB_PL01''),
            (''display_name'', PStr ''Tower''), (''status'', PStr ''Active'')],
           [(''id'', PInt 3), (''station_id'', PInt 2), (''normalized_name'', PStr ''ANS_PL01''),
            (''display_name'', PStr ''Heath''), (''status'', PStr ''Active'')]]
      | Instruments \<Rightarrow>
          [[(''id'', PInt 1), (''platform_id'', PInt 2),
            (''normalized_name'', PStr ''SVB_PL01_PHE01''),
            (''display_name'', PStr ''Cam 1''), (''status'', PStr ''Active'')],
           [(''id'', PInt 2), (''platform_id'', PInt 3),
            (''normalized_name'', PStr ''ANS_PL01_PHE01''),
            (''display_name'', PStr ''Cam A''), (''status'', PStr ''Active'')]]
      | InstrumentRois \<Rightarrow>
          [[(''id'', PInt 1), (''instrument_id'', PInt 1), (''roi_name'', PStr ''ROI_01'')],
           [(''id'', PInt 2), (''instrument_id'', PInt 1), (''roi_name'', PStr ''ROI_00'')]])"

definition unique_name :: "table \<Rightarrow> row list \<Rightarrow> row \<Rightarrow> bool" where
  "unique_name t rows data =
     list_all (\<lambda>r. \<not> sql_eq (dict_get r ''normalized_name'') (dict_get data ''normalized_name''))
       rows"

definition example_world :: world where
  "example_world =
     \<lparr>store = example_db, accepts = unique_name, executed = [], printed = []\<rparr>"

definition empty_doc :: station_doc where
  "empty_doc = \<lparr>st_fields = [], platforms = [], meta = ([], [])\<rparr>"

text \<open>
  A joined row as \<^verbatim>\<open>export_db_to_yaml.py\<close> reads it: the camera has a model but no
  brand, the sensor a brand but no model. \<open>yaml_entry\<close> is the dict built from it.
\<close>

definition yaml_row :: row where
  "yaml_row =
     [(''instr_display'', PStr ''Cam 1''), (''instrument_type'', PStr ''phenocam''),
      (''instrument_number'', PStr ''PHE01''), (''status'', PStr ''Active''),
      (''legacy_acronym'', PNone), (''instrument_height_m'', PNone),
      (''deployment_date'', PNone), (''camera_brand'', PNone),
      (''camera_model'', PStr ''NetCam SC''), (''camera_serial_number'', PNone),
      (''sensor_brand'', PStr ''Skye''), (''sensor_model'', PNone),
      (''installation_notes'', PNone)]"

definition yaml_entry :: instrument_entry where
  "yaml_entry =
     \<lparr>entry_fields =
        [(''display_name'', PStr ''Cam 1''), (''instrument_type'', PStr ''phenocam''),
         (''instrument_number'', PStr ''PHE01''), (''status'', PStr ''Active''),
         (''legacy_acronym'', PNone), (''instrument_height_m'', PNone),
         (''deployment_date'', PNone), (''installation_notes'', PNone)],
      camera = None,
      sensor = Some [(''brand'', PStr ''Skye''), (''model'', PNone)]\<rparr>"

text \<open>
  A field is unset in a dict when the key is missing or its value is \<^verbatim>\<open>None\<close>: the two
  cases \<^verbatim>\<open>.get\<close> does not tell apart.
\<close>

definition unset :: "pyval option \<Rightarrow> bool" where
  "unset x = (x = None \<or> x = Some PNone)"

text \<open>
  A local document for SVB that sets \<^verbatim>\<open>description\<close> to the empty string, and the
  differences \<^verbatim>\<open>diff_station\<close> reports for it against the example store, where the
  description is \<^verbatim>\<open>NULL\<close>.
\<close>

definition blank_description_doc :: station_doc where
  "blank_description_doc =
     \<lparr>st_fields = [(''display_name'', PStr ''Svartberget''), (''description'', PStr [])],
      platforms = [], meta = ([], [])\<rparr>"

definition blank_description_diff :: differences where
  "blank_description_diff =
     \<lparr>station_diffs =
        [\<lparr>fd_field = ''description'', fd_local = PStr [], fd_database = PNone\<rparr>],
      platform_diffs = [], instrument_diffs = []\<rparr>"

text \<open>
  Replacing the time in a document's metadata object, and a list of rows being in
  \<^verbatim>\<open>ORDER BY col\<close> order.
\<close>

definition restamp :: "string \<Rightarrow> pyval \<Rightarrow> station_doc \<Rightarrow> station_doc" where
  "restamp k t d = d\<lparr>meta := (fst (meta d), AList.update k t (snd (meta d)))\<rparr>"

definition ordered_by :: "string \<Rightarrow> row list \<Rightarrow> bool" where
  "ordered_by col rows = sorted (map (\<lambda>r. sql_key (dict_get r col)) rows)"

text \<open>The document \<^verbatim>\<open>pull_station\<close> assembles for SVB from the example store at time \<open>t1\<close>.\<close>

definition svb_pulled :: station_doc where
  "svb_pulled =
     \<lparr>st_fields =
        [(''id'', PInt 1), (''acronym'', PStr ''SVB''), (''display_name'', PStr ''Svartberget''),
         (''description'', PNone)],
      platforms =
        [\<lparr>plat_fields =
            [(''id'', PInt 2), (''station_id'', PInt 1), (''normalized_name'', PStr ''SVB_PL01''),
             (''display_name'', PStr ''Tower''), (''status'', PStr ''Active'')],
           instruments =
             [\<lparr>inst_fields =
                 [(''id'', PInt 1), (''platform_id'', PInt 2),
                  (''normalized_name'', PStr ''SVB_PL01_PHE01''),
                  (''display_name'', PStr ''Cam 1''), (''status'', PStr ''Active'')],
                rois =
                  [[(''id'', PInt 2), (''instrument_id'', PInt 1), (''roi_name'', PStr ''ROI_00'')],
                   [(''id'', PInt 1), (''instrument_id'', PInt 1), (''roi_name'', PStr ''ROI_01'')]]\<rparr>]\<rparr>,
         \<lparr>plat_fields =
            [(''id'', PInt 1), (''station_id'', PInt 1), (''normalized_name'', PStr ''SVB_PL02''),
             (''display_name'', PStr ''Mire''), (''status'', PStr ''Active'')],
           instruments = []\<rparr>],
      meta = (''_sync_meta'', [(''pulled_at'', PStr ''t1''), (''source'', PStr ''cloudflare_d1'')])\<rparr>"

text \<open>
  For the proofs about \<^verbatim>\<open>push_station\<close>: the names in a table, a name that no row of a
  table matches, and the two loop bodies of push as functions of their own, so that each
  loop is its body followed by the rest of the loop (\<open>then_push\<close> stops at an exception).
\<close>

definition names_of :: "row list \<Rightarrow> pyval list" where
  "names_of rows = map (\<lambda>r. dict_get r ''normalized_name'') rows"

definition unmatched :: "world \<Rightarrow> table \<Rightarrow> pyval \<Rightarrow> bool" where
  "unmatched w t n = (select_eq (store w t) ''normalized_name'' n = [])"

definition then_push ::
  "(error + changes) \<times> world \<Rightarrow> (changes \<Rightarrow> world \<Rightarrow> (error + changes) \<times> world)
     \<Rightarrow> (error + changes) \<times> world" where
  "then_push rw k = (case rw of (Inl e, w) \<Rightarrow> (Inl e, w) | (Inr ch, w) \<Rightarrow> k ch w)"

definition instrument_step ::
  "bool \<Rightarrow> pyval \<Rightarrow> instrument_doc \<Rightarrow> changes \<Rightarrow> world \<Rightarrow> (error + changes) \<times> world" where
  "instrument_step dry_run now li ch w =
     (case subscript (inst_fields li) ''normalized_name'' of
        Inl e \<Rightarrow> (Inl e, w)
      | Inr name \<Rightarrow>
          (case query_one (select_eq (store w Instruments) ''normalized_name'' name) of
             None \<Rightarrow> (Inr ch, w)
           | Some existing_inst \<Rightarrow>
               apply_updates Instruments (\<lambda>u. DryRunInstrument name) dry_run now
                 (field_updates instrument_fields (inst_fields li) existing_inst)
                 existing_inst ch w))"

definition platform_step ::
  "bool \<Rightarrow> pyval \<Rightarrow> platform_doc \<Rightarrow> changes \<Rightarrow> world \<Rightarrow> (error + changes) \<times> world" where
  "platform_step dry_run now lp ch w =
     (case subscript (plat_fields lp) ''normalized_name'' of
        Inl e \<Rightarrow> (Inl e, w)
      | Inr name \<Rightarrow>
          (case query_one (select_eq (store w Platforms) ''normalized_name'' name) of
             None \<Rightarrow> (Inr ch, w)
           | Some existing \<Rightarrow>
               then_push
                 (apply_updates Platforms (DryRunPlatform name) dry_run now
                    (field_updates platform_fields (plat_fields lp) existing) existing ch w)
                 (push_instruments dry_run now (instruments lp))))"

text \<open>
  Two local documents for SVB. The first holds one platform the store does not know, with
  one instrument; the second holds the known platform \<^verbatim>\<open>SVB_PL01\<close> with one instrument the
  store does not know.
\<close>

definition ghost_platform :: platform_doc where
  "ghost_platform =
     \<lparr>plat_fields = [(''normalized_name'', PStr ''SVB_PL99''), (''status'', PStr ''Active'')],
      instruments = [\<lparr>inst_fields = [(''normalized_name'', PStr ''SVB_PL99_PHE01'')],
                      rois = []\<rparr>]\<rparr>"

definition ghost_doc :: station_doc where
  "ghost_doc = \<lparr>st_fields = [], platforms = [ghost_platform], meta = ([], [])\<rparr>"

definition ghost_instrument :: instrument_doc where
  "ghost_instrument =
     \<lparr>inst_fields = [(''normalized_name'', PStr ''SVB_PL01_PHE09''), (''status'', PStr ''Active'')],
      rois = []\<rparr>"

definition ghost_instrument_platform :: platform_doc where
  "ghost_instrument_platform =
     \<lparr>plat_fields = [(''normalized_name'', PStr ''SVB_PL01'')],
      instruments = [ghost_instrument]\<rparr>"

definition ghost_instrument_doc :: station_doc where
  "ghost_instrument_doc =
     \<lparr>st_fields = [], platforms = [ghost_instrument_platform], meta = ([], [])\<rparr>"


definition misplaced_instrument :: instrument_doc where
  "misplaced_instrument =
     \<lparr>inst_fields = [(''normalized_name'', PStr ''SVB_PL01_PHE01''),
                     (''status'', PStr ''Inactive'')],
      rois = []\<rparr>"

text \<open>
  For the statements of a push: the fields \<^verbatim>\<open>push_station\<close> compares in each table and
  the one \<^verbatim>\<open>UPDATE\<close> it sends for a local entity \<open>l\<close> matched to the row \<open>e\<close>.
\<close>

definition fields_of :: "table \<Rightarrow> string list" where
  "fields_of t =
     (case t of Stations \<Rightarrow> station_fields | Platforms \<Rightarrow> platform_fields
      | Instruments \<Rightarrow> instrument_fields | InstrumentRois \<Rightarrow> [])"

definition entity_update :: "table \<Rightarrow> row \<Rightarrow> row \<Rightarrow> pyval \<Rightarrow> stmt" where
  "entity_update t l e now =
     Update t (field_updates (fields_of t) l e @ [(''updated_at'', now)]) ''id''
       (dict_get e ''id'')"

subsection \<open>Bulk import: rows, their parents and what a run adds\<close>

text \<open>
  The platform name a row is looked up by, whether the platform map resolves it, and the rows
  that \<^verbatim>\<open>import_instruments\<close> can build an instrument from: the parent resolves and the
  two subscripted keys are there. \<open>platform_map_for\<close> is the map the function builds from the
  station's platforms. \<open>row_data\<close> is the \<^verbatim>\<open>instrument_data\<close> dict of such a row (none for
  a row that does not get that far) and \<open>batch_data\<close> those of a batch, in order.
  \<open>inserts_accepted\<close> says that the database accepts these inserts one after the other,
  each on the table as the ones before it left it. \<open>unresolved_errors\<close> lists the errors of
  the rows whose platform does not resolve, numbered from \<open>i\<close>. \<open>added ids ds es\<close> relates the
  loop's state before and after the rows \<open>ds\<close> were inserted under the ids \<open>ids\<close> and the
  errors \<open>es\<close> recorded. Last, a small batch for the example store.
\<close>

definition row_platform_name :: "row \<Rightarrow> pyval" where
  "row_platform_name r = py_or (dict_get r ''platform_normalized_name'') (dict_get r ''platform'')"

definition resolves :: "(pyval \<times> pyval) list \<Rightarrow> row \<Rightarrow> bool" where
  "resolves platform_map r =
     truthy (case map_of platform_map (row_platform_name r) of None \<Rightarrow> PNone | Some v \<Rightarrow> v)"

definition row_ok :: "(pyval \<times> pyval) list \<Rightarrow> row \<Rightarrow> bool" where
  "row_ok platform_map r =
     (resolves platform_map r \<and> has_key r ''normalized_name'' \<and> has_key r ''instrument_type'')"

definition platform_map_for :: "world \<Rightarrow> pyval \<Rightarrow> (pyval \<times> pyval) list" where
  "platform_map_for w sid =
     platform_map_of []
       (map (project [''id'', ''normalized_name''])
          (select_eq (store w Platforms) ''station_id'' sid))"

definition row_data :: "(pyval \<times> pyval) list \<Rightarrow> pyval \<Rightarrow> row \<Rightarrow> row list" where
  "row_data platform_map now r =
     (if resolves platform_map r
      then (case instrument_data
                   (case map_of platform_map (row_platform_name r) of
                      None \<Rightarrow> PNone | Some v \<Rightarrow> v) now r of
              Inl e \<Rightarrow> [] | Inr data \<Rightarrow> [data])
      else [])"

definition batch_data :: "(pyval \<times> pyval) list \<Rightarrow> pyval \<Rightarrow> row list \<Rightarrow> row list" where
  "batch_data platform_map now rows = concat (map (row_data platform_map now) rows)"

fun inserts_accepted :: "table \<Rightarrow> row list \<Rightarrow> world \<Rightarrow> bool" where
  "inserts_accepted t [] w = True"
| "inserts_accepted t (d # ds) w =
     (case d1_insert t d w of
        (Inl e, w') \<Rightarrow> False
      | (Inr new_id, w') \<Rightarrow> inserts_accepted t ds w')"

fun unresolved_errors :: "(pyval \<times> pyval) list \<Rightarrow> nat \<Rightarrow> row list \<Rightarrow> row_error list" where
  "unresolved_errors platform_map i [] = []"
| "unresolved_errors platform_map i (r # rs) =
     (if resolves platform_map r then []
      else [PlatformNotFound i (row_platform_name r)])
     @ unresolved_errors platform_map (Suc i) rs"

definition added :: "pyval list \<Rightarrow> row list \<Rightarrow> row_error list
    \<Rightarrow> row list \<times> row_error list \<times> world \<Rightarrow> row list \<times> row_error list \<times> world \<Rightarrow> bool" where
  "added ids ds es x y =
     (case (x, y) of ((imp, errs, w), (imp', errs', w')) \<Rightarrow>
        length ids = length ds
        \<and> imp' = imp @ map2 (AList.update ''id'') ids ds
        \<and> errs' = errs @ es
        \<and> store w' = (store w)(Instruments :=
                         store w Instruments @ map2 (\<lambda>i d. (''id'', i) # d) ids ds)
        \<and> accepts w' = accepts w
        \<and> executed w' = executed w @ map (Insert Instruments) ds
        \<and> printed w' = printed w
              @ map2 (\<lambda>i d. Inserted (dict_get d ''normalized_name'') i) ids ds)"

definition good_row :: row where
  "good_row = [(''platform'', PStr ''SVB_PL01''), (''normalized_name'', PStr ''SVB_PL01_PHE02''),
               (''instrument_type'', PStr ''phenocam'')]"

definition bad_row :: row where
  "bad_row = [(''platform'', PStr ''SVB_PL77''), (''normalized_name'', PStr ''SVB_PL77_PHE01''),
              (''instrument_type'', PStr ''phenocam'')]"

definition good_data :: row where
  "good_data = [(''platform_id'', PInt 2), (''normalized_name'', PStr ''SVB_PL01_PHE02''),
     (''display_name'', PStr ''SVB_PL01_PHE02''), (''instrument_type'', PStr ''phenocam''),
     (''status'', PStr ''Active''), (''created_at'', PStr ''t''), (''updated_at'', PStr ''t'')]"

definition imported_good :: row where
  "imported_good = [(''platform_id'', PInt 2), (''normalized_name'', PStr ''SVB_PL01_PHE02''),
     (''display_name'', PStr ''SVB_PL01_PHE02''), (''instrument_type'', PStr ''phenocam''),
     (''status'', PStr ''Active''), (''created_at'', PStr ''t''), (''updated_at'', PStr ''t''),
     (''id'', PInt 3)]"

subsection \<open>The statements a push sends, read off the store it starts on\<close>

text \<open>
  A table is \<open>keyed\<close> when every row has a non-null \<^verbatim>\<open>id\<close> and no two rows share one, as
  a primary key gives. \<open>inst_names\<close>, \<open>plat_names\<close> and \<open>all_inst_names\<close> are the names a
  candidate document lists. \<open>stable P I w w'\<close> says that from \<open>w\<close> to \<open>w'\<close> the stations,
  the ids and the names are kept, and that a lookup by a platform name outside \<open>P\<close> or an
  instrument name outside \<open>I\<close> finds the same rows.

  \<open>expected_updates\<close> reads the statements of a push off the store the push starts on:
  for the station, then for each candidate platform in order, each followed by its
  instruments in order, nothing when the entity is not found by its name or no compared
  field differs, else the one \<open>entity_update\<close>; the instruments of a platform that is not
  found contribute nothing. \<open>traced us\<close> relates two points of a push between which
  exactly the statements \<open>us\<close> were executed, nothing was printed and the counter
  \<^verbatim>\<open>updated\<close> rose by their number.
\<close>

definition id_cells :: "row list \<Rightarrow> pyval option list" where
  "id_cells rows = map (\<lambda>r. map_of r ''id'') rows"

definition keyed :: "row list \<Rightarrow> bool" where
  "keyed rows =
     (distinct (id_cells rows) \<and> None \<notin> set (id_cells rows) \<and> Some PNone \<notin> set (id_cells rows))"

definition inst_names :: "instrument_doc list \<Rightarrow> pyval list" where
  "inst_names lis = map (\<lambda>li. dict_get (inst_fields li) ''normalized_name'') lis"

definition plat_names :: "platform_doc list \<Rightarrow> pyval list" where
  "plat_names lps = map (\<lambda>lp. dict_get (plat_fields lp) ''normalized_name'') lps"

definition all_inst_names :: "platform_doc list \<Rightarrow> pyval list" where
  "all_inst_names lps = concat (map (\<lambda>lp. inst_names (instruments lp)) lps)"

definition stable :: "pyval set \<Rightarrow> pyval set \<Rightarrow> world \<Rightarrow> world \<Rightarrow> bool" where
  "stable P I w w' =
     (store w' Stations = store w Stations
      \<and> id_cells (store w' Platforms) = id_cells (store w Platforms)
      \<and> id_cells (store w' Instruments) = id_cells (store w Instruments)
      \<and> names_of (store w' Platforms) = names_of (store w Platforms)
      \<and> names_of (store w' Instruments) = names_of (store w Instruments)
      \<and> (\<forall>n. n \<notin> P \<longrightarrow> select_eq (store w' Platforms) ''normalized_name'' n
                           = select_eq (store w Platforms) ''normalized_name'' n)
      \<and> (\<forall>n. n \<notin> I \<longrightarrow> select_eq (store w' Instruments) ''normalized_name'' n
                           = select_eq (store w Instruments) ''normalized_name'' n))"

definition updates_for :: "table \<Rightarrow> row \<Rightarrow> row \<Rightarrow> pyval \<Rightarrow> stmt list" where
  "updates_for t l e now =
     (if field_updates (fields_of t) l e = [] then [] else [entity_update t l e now])"

definition instrument_expected :: "pyval \<Rightarrow> database \<Rightarrow> instrument_doc \<Rightarrow> stmt list" where
  "instrument_expected now db li =
     (case subscript (inst_fields li) ''normalized_name'' of
        Inl e \<Rightarrow> []
      | Inr name \<Rightarrow>
          (case query_one (select_eq (db Instruments) ''normalized_name'' name) of
             None \<Rightarrow> []
           | Some existing_inst \<Rightarrow> updates_for Instruments (inst_fields li) existing_inst now))"

definition platform_expected :: "pyval \<Rightarrow> database \<Rightarrow> platform_doc \<Rightarrow> stmt list" where
  "platform_expected now db lp =
     (case subscript (plat_fields lp) ''normalized_name'' of
        Inl e \<Rightarrow> []
      | Inr name \<Rightarrow>
          (case query_one (select_eq (db Platforms) ''normalized_name'' name) of
             None \<Rightarrow> []
           | Some existing \<Rightarrow>
               updates_for Platforms (plat_fields lp) existing now
               @ concat (map (instrument_expected now db) (instruments lp))))"

definition expected_updates :: "string \<Rightarrow> pyval \<Rightarrow> database \<Rightarrow> station_doc \<Rightarrow> stmt list" where
  "expected_updates acr now db local_data =
     (case query_one (select_eq (db Stations) ''acronym'' (PStr acr)) of
        None \<Rightarrow> []
      | Some station \<Rightarrow>
          updates_for Stations (st_fields local_data) station now
          @ concat (map (platform_expected now db) (platforms local_data)))"

definition traced :: "stmt list \<Rightarrow> changes \<times> world \<Rightarrow> changes \<times> world \<Rightarrow> bool" where
  "traced us x y =
     (executed (snd y) = executed (snd x) @ us \<and> printed (snd y) = printed (snd x)
      \<and> fst y = (fst x)\<lparr>updated := updated (fst x) + length us\<rparr>)"



subsection \<open>Documents for the statements of a push\<close>

text \<open>
  \<open>target\<close> is the row a statement addresses: its table and the parameter of its
  \<^verbatim>\<open>WHERE id = ?\<close>. \<open>bare_platform_doc\<close> lists the platform \<^verbatim>\<open>SVB_PL01\<close> by name only, and
  \<open>bare_platform_diff\<close> is what \<^verbatim>\<open>diff_station\<close> reports for it. \<open>orphan_instrument_doc\<close>
  lists the instrument \<^verbatim>\<open>SVB_PL01_PHE01\<close>, retired, under a platform the store does not
  know. \<open>several_doc\<close> changes the station, both platforms of SVB and the phenocam, and
  \<open>several_updates\<close> are the four statements its push sends at time \<open>t\<close>.
\<close>

fun target :: "stmt \<Rightarrow> table \<times> pyval" where
  "target (Update t d c v) = (t, v)"
| "target (Insert t d) = (t, PNone)"
| "target (Delete t c v) = (t, v)"

definition bare_platform_doc :: station_doc where
  "bare_platform_doc =
     \<lparr>st_fields = [],
      platforms = [\<lparr>plat_fields = [(''normalized_name'', PStr ''SVB_PL01'')],
                    instruments = []\<rparr>],
      meta = ([], [])\<rparr>"

definition bare_platform_diff :: differences where
  "bare_platform_diff =
     \<lparr>station_diffs = [\<lparr>fd_field = ''display_name'', fd_local = PNone,
                          fd_database = PStr ''Svartberget''\<rparr>],
      platform_diffs =
        [(PStr ''SVB_PL01'', \<lparr>fd_field = ''display_name'', fd_local = PNone,
                               fd_database = PStr ''Tower''\<rparr>),
         (PStr ''SVB_PL01'', \<lparr>fd_field = ''status'', fd_local = PNone,
                               fd_database = PStr ''Active''\<rparr>)],
      instrument_diffs = []\<rparr>"

definition orphan_instrument_doc :: station_doc where
  "orphan_instrument_doc =
     \<lparr>st_fields = [],
      platforms = [\<lparr>plat_fields = [(''normalized_name'', PStr ''SVB_PL99'')],
                    instruments = [misplaced_instrument]\<rparr>],
      meta = ([], [])\<rparr>"

definition several_doc :: station_doc where
  "several_doc =
     \<lparr>st_fields = [(''display_name'', PStr ''Svartberget''), (''description'', PStr ''Boreal'')],
      platforms =
        [\<lparr>plat_fields = [(''normalized_name'', PStr ''SVB_PL02''), (''status'', PStr ''Inactive'')],
           instruments = []\<rparr>,
         \<lparr>plat_fields = [(''normalized_name'', PStr ''SVB_PL01''),
                         (''display_name'', PStr ''Mast''), (''status'', PStr ''Inactive'')],
           instruments =
             [\<lparr>inst_fields = [(''normalized_name'', PStr ''SVB_PL01_PHE01''),
                              (''display_name'', PStr ''Cam 1''),
                              (''status'', PStr ''Inactive'')], rois = []\<rparr>]\<rparr>],
      meta = ([], [])\<rparr>"

definition several_updates :: "stmt list" where
  "several_updates =
     [Update Stations [(''description'', PStr ''Boreal''), (''updated_at'', PStr ''t'')]
        ''id'' (PInt 1),
      Update Platforms [(''status'', PStr ''Inactive''), (''updated_at'', PStr ''t'')]
        ''id'' (PInt 1),
      Update Platforms [(''display_name'', PStr ''Mast''), (''status'', PStr ''Inactive''),
                        (''updated_at'', PStr ''t'')] ''id'' (PInt 2),
      Update Instruments [(''status'', PStr ''Inactive''), (''updated_at'', PStr ''t'')]
        ''id'' (PInt 1)]"

subsection \<open>The lines of a dry run, read off the store\<close>

text \<open>
  \<open>expected_lines\<close> is to a dry run what \<open>expected_updates\<close> is to a real push: for the
  station, then each candidate platform and its instruments in order, the
  \<^verbatim>\<open>[DRY RUN] Would update ...\<close> line when the entity is found and a compared field it
  carries differs. The station and platform lines show the \<^verbatim>\<open>SET\<close> dict, the instrument
  line shows the name only. \<open>dry_traced ms\<close> relates two points of a dry run between which
  exactly the lines \<open>ms\<close> were printed and nothing else changed.

  \<open>announces\<close> relates a dry-run line to the statement it stands for. The statement is an
  \<^verbatim>\<open>UPDATE ... WHERE id = ?\<close> on the id of the row that the name in the line finds (for
  the station line, the row of the station being pushed). For a station or platform line
  its \<^verbatim>\<open>SET\<close> dict is the one shown, except that the value of \<^verbatim>\<open>updated_at\<close> is the time
  of the real push instead of the time of the dry run. An instrument line shows no dict,
  so it says nothing about the \<^verbatim>\<open>SET\<close> clause.

  \<open>twice_doc\<close> lists the platform \<^verbatim>\<open>SVB_PL01\<close> twice, retired and then active;
  \<open>several_lines\<close> are the lines a dry run of \<open>several_doc\<close> prints at time \<open>d\<close>.
\<close>

definition lines_for :: "(row \<Rightarrow> msg) \<Rightarrow> string list \<Rightarrow> row \<Rightarrow> row \<Rightarrow> pyval \<Rightarrow> msg list" where
  "lines_for dry_msg fs l e now =
     (if field_updates fs l e = [] then []
      else [dry_msg (field_updates fs l e @ [(''updated_at'', now)])])"

definition instrument_lines :: "pyval \<Rightarrow> database \<Rightarrow> instrument_doc \<Rightarrow> msg list" where
  "instrument_lines now db li =
     (case subscript (inst_fields li) ''normalized_name'' of
        Inl e \<Rightarrow> []
      | Inr name \<Rightarrow>
          (case query_one (select_eq (db Instruments) ''normalized_name'' name) of
             None \<Rightarrow> []
           | Some existing_inst \<Rightarrow>
               lines_for (\<lambda>u. DryRunInstrument name) instrument_fields (inst_fields li)
                 existing_inst now))"

definition platform_lines :: "pyval \<Rightarrow> database \<Rightarrow> platform_doc \<Rightarrow> msg list" where
  "platform_lines now db lp =
     (case subscript (plat_fields lp) ''normalized_name'' of
        Inl e \<Rightarrow> []
      | Inr name \<Rightarrow>
          (case query_one (select_eq (db Platforms) ''normalized_name'' name) of
             None \<Rightarrow> []
           | Some existing \<Rightarrow>
               lines_for (DryRunPlatform name) platform_fields (plat_fields lp) existing now
               @ concat (map (instrument_lines now db) (instruments lp))))"

definition expected_lines :: "string \<Rightarrow> pyval \<Rightarrow> database \<Rightarrow> station_doc \<Rightarrow> msg list" where
  "expected_lines acr now db local_data =
     (case query_one (select_eq (db Stations) ''acronym'' (PStr acr)) of
        None \<Rightarrow> []
      | Some station \<Rightarrow>
          lines_for DryRunStation station_fields (st_fields local_data) station now
          @ concat (map (platform_lines now db) (platforms local_data)))"

definition dry_traced :: "msg list \<Rightarrow> changes \<times> world \<Rightarrow> changes \<times> world \<Rightarrow> bool" where
  "dry_traced ms x y =
     (printed (snd y) = printed (snd x) @ ms \<and> store (snd y) = store (snd x)
      \<and> executed (snd y) = executed (snd x) \<and> fst y = fst x)"

definition same_but_time :: "pyval \<Rightarrow> pyval \<Rightarrow> row \<Rightarrow> row \<Rightarrow> bool" where
  "same_but_time now_d now_r u u' =
     (u \<noteq> [] \<and> u' \<noteq> [] \<and> butlast u' = butlast u
      \<and> last u = (''updated_at'', now_d) \<and> last u' = (''updated_at'', now_r))"

definition found_id :: "row list \<Rightarrow> pyval \<Rightarrow> bool" where
  "found_id rows v = (case query_one rows of None \<Rightarrow> False | Some e \<Rightarrow> v = dict_get e ''id'')"

fun announces :: "pyval \<Rightarrow> pyval \<Rightarrow> string \<Rightarrow> database \<Rightarrow> msg \<Rightarrow> stmt \<Rightarrow> bool" where
  "announces now_d now_r acr db (DryRunStation u) (Update t u' c v) =
     (t = Stations \<and> c = ''id'' \<and> same_but_time now_d now_r u u'
      \<and> found_id (select_eq (db Stations) ''acronym'' (PStr acr)) v)"
| "announces now_d now_r acr db (DryRunPlatform n u) (Update t u' c v) =
     (t = Platforms \<and> c = ''id'' \<and> same_but_time now_d now_r u u'
      \<and> found_id (select_eq (db Platforms) ''normalized_name'' n) v)"
| "announces now_d now_r acr db (DryRunInstrument n) (Update t u' c v) =
     (t = Instruments \<and> c = ''id''
      \<and> found_id (select_eq (db Instruments) ''normalized_name'' n) v)"
| "announces now_d now_r acr db m s = False"

definition twice_doc :: station_doc where
  "twice_doc =
     \<lparr>st_fields = [],
      platforms =
        [\<lparr>plat_fields = [(''normalized_name'', PStr ''SVB_PL01''), (''status'', PStr ''Inactive'')],
           instruments = []\<rparr>,
         \<lparr>plat_fields = [(''normalized_name'', PStr ''SVB_PL01''), (''status'', PStr ''Active'')],
           instruments = []\<rparr>],
      meta = ([], [])\<rparr>"

definition several_lines :: "msg list" where
  "several_lines =
     [DryRunStation [(''description'', PStr ''Boreal''), (''updated_at'', PStr ''d'')],
      DryRunPlatform (PStr ''SVB_PL02'')
        [(''status'', PStr ''Inactive''), (''updated_at'', PStr ''d'')],
      DryRunPlatform (PStr ''SVB_PL01'')
        [(''display_name'', PStr ''Mast''), (''status'', PStr ''Inactive''),
         (''updated_at'', PStr ''d'')],
      DryRunInstrument (PStr ''SVB_PL01_PHE01'')]"

subsection \<open>What a row carries after a push\<close>









section \<open>A missing station is fatal\<close>

lemma no_station_query:
  "(\<forall>r \<in> set rows. dict_get r ''acronym'' \<noteq> PStr acr) \<Longrightarrow>
     select_eq rows ''acronym'' (PStr acr) = []"
  by (simp add: select_eq_def sql_eq_def filter_empty_conv)

text \<open>
  C9. When no station row has the acronym, every operation that starts with the station
  lookup (\<^verbatim>\<open>pull_station\<close>, \<^verbatim>\<open>export_station_data\<close>, \<^verbatim>\<open>diff_station\<close>,
  \<^verbatim>\<open>push_station\<close>, \<^verbatim>\<open>import_instruments\<close>, \<^verbatim>\<open>import_platforms\<close>) raises
  \<^verbatim>\<open>ValueError("Station ... not found")\<close>, and the world is what it was: no statement
  has been executed, the store is unchanged and nothing has been printed.
\<close>

theorem station_lookup_failure_is_fatal:
  assumes "\<forall>r \<in> set (store w Stations). dict_get r ''acronym'' \<noteq> PStr acr"
  shows "pull_station acr now (store w) = Inl (station_not_found acr)
       \<and> export_station_data acr now (store w) = Inl (station_not_found acr)
       \<and> diff_station acr local_data (store w) = Inl (station_not_found acr)
       \<and> push_station acr local_data dry_run now w = (Inl (station_not_found acr), w)
       \<and> import_instruments rows acr dry_run now w = (Inl (station_not_found acr), w)
       \<and> import_platforms float_of rows acr dry_run now w = (Inl (station_not_found acr), w)"
proof -
  have q: "select_eq (store w Stations) ''acronym'' (PStr acr) = []"
    using assms by (rule no_station_query)
  show ?thesis
    by (simp add: q pull_station_def export_station_data_def diff_station_def
        push_station_def import_instruments_def import_platforms_def)
qed

theorem station_lookup_failure_witness:
  "pull_station ''GRI'' (PStr ''t'') (store example_world)
       = Inl (ValueError ''Station GRI not found'')
   \<and> push_station ''GRI'' empty_doc False (PStr ''t'') example_world
       = (Inl (ValueError ''Station GRI not found''), example_world)
   \<and> import_instruments [] ''GRI'' False (PStr ''t'') example_world
       = (Inl (ValueError ''Station GRI not found''), example_world)"
proof -
  have h: "\<forall>r \<in> set (store example_world Stations). dict_get r ''acronym'' \<noteq> PStr ''GRI''"
    by (simp add: example_world_def example_db_def dict_get_def)
  show ?thesis
    using station_lookup_failure_is_fatal
      [OF h, of "PStr ''t''" empty_doc False "[]" Inr]
    by (simp add: station_not_found_def)
qed

section \<open>Optional sub-objects of the YAML export\<close>

lemma truthy_not_none: "truthy v \<Longrightarrow> v \<noteq> PNone"
  by (cases v) auto

lemma build_yaml_entry: "build_entry yaml_row = Inr yaml_entry"
  by (simp add: build_entry_def entry_keys_def yaml_row_def yaml_entry_def dict_get_def
      has_key_def)

text \<open>
  C7, as stated, fails: a row whose \<^verbatim>\<open>camera_model\<close> is set while \<^verbatim>\<open>camera_brand\<close>
  is null gets no \<^verbatim>\<open>camera\<close> sub-object, although one of its constituent fields is
  non-null.
\<close>

theorem camera_omitted_despite_model:
  "build_entry yaml_row = Inr yaml_entry \<and> camera yaml_entry = None
   \<and> dict_get yaml_row ''camera_model'' = PStr ''NetCam SC''"
  by (simp add: build_entry_def entry_keys_def yaml_row_def yaml_entry_def dict_get_def
      has_key_def)

text \<open>
  C7, amended. In the entry \<^verbatim>\<open>export_db_to_yaml.py\<close> builds, the \<^verbatim>\<open>camera\<close> sub-object
  is present exactly when \<^verbatim>\<open>camera_brand\<close> is truthy (neither null nor empty) and the
  \<^verbatim>\<open>sensor\<close> sub-object exactly when \<^verbatim>\<open>sensor_brand\<close> is truthy. A sub-object that is
  present is never printed empty: its brand is non-null and its \<^verbatim>\<open>brand\<close> line is
  printed. An absent sub-object prints nothing.
\<close>

theorem sub_object_iff_brand:
  assumes "build_entry r = Inr e"
  shows "(camera e \<noteq> None \<longleftrightarrow> truthy (dict_get r ''camera_brand''))
       \<and> (sensor e \<noteq> None \<longleftrightarrow> truthy (dict_get r ''sensor_brand''))
       \<and> (camera e \<noteq> None \<longrightarrow>
            dict_get r ''camera_brand'' \<noteq> PNone
            \<and> YField ''brand'' (dict_get r ''camera_brand'') \<in> set (emit_camera e))
       \<and> (sensor e \<noteq> None \<longrightarrow>
            dict_get r ''sensor_brand'' \<noteq> PNone
            \<and> YField ''brand'' (dict_get r ''sensor_brand'') \<in> set (emit_sensor e))
       \<and> (camera e = None \<longrightarrow> emit_camera e = [])
       \<and> (sensor e = None \<longrightarrow> emit_sensor e = [])"
proof -
  from assms have e:
    "e = \<lparr>entry_fields =
            [(''display_name'', dict_get r ''instr_display''),
             (''instrument_type'', dict_get r ''instrument_type''),
             (''instrument_number'', dict_get r ''instrument_number''),
             (''status'', dict_get r ''status''),
             (''legacy_acronym'', dict_get r ''legacy_acronym''),
             (''instrument_height_m'', dict_get r ''instrument_height_m''),
             (''deployment_date'', dict_get r ''deployment_date''),
             (''installation_notes'', dict_get r ''installation_notes'')],
          camera =
            (if truthy (dict_get r ''camera_brand'')
             then Some [(''brand'', dict_get r ''camera_brand''),
                        (''model'', dict_get r ''camera_model''),
                        (''serial_number'', dict_get r ''camera_serial_number'')]
             else None),
          sensor =
            (if truthy (dict_get r ''sensor_brand'')
             then Some [(''brand'', dict_get r ''sensor_brand''),
                        (''model'', dict_get r ''sensor_model'')]
             else None)\<rparr>"
    by (auto simp: build_entry_def split: option.splits)
  show ?thesis
    by (simp add: e emit_camera_def emit_sensor_def dict_get_def truthy_not_none)
qed

theorem sub_object_iff_brand_witness:
  "camera yaml_entry = None \<and> \<not> truthy (dict_get yaml_row ''camera_brand'')
   \<and> sensor yaml_entry \<noteq> None \<and> truthy (dict_get yaml_row ''sensor_brand'')
   \<and> emit_sensor yaml_entry = [YKey ''sensor'', YField ''brand'' (PStr ''Skye'')]
   \<and> emit_camera yaml_entry = []"
  using sub_object_iff_brand [OF build_yaml_entry]
  by (simp add: yaml_entry_def yaml_row_def dict_get_def emit_sensor_def)

section \<open>What the comparison treats as equal\<close>

text \<open>
  C5, as stated, fails: the empty string is not treated as unset. A local
  \<^verbatim>\<open>description\<close> of \<^verbatim>\<open>''\<close> against a \<^verbatim>\<open>NULL\<close> column is reported as a difference.
\<close>

theorem empty_string_differs_from_null:
  "diff_station ''SVB'' blank_description_doc example_db = Inr blank_description_diff"
  by (simp add: diff_station_def blank_description_doc_def blank_description_diff_def
      example_db_def select_eq_def sql_eq_def dict_get_def diff_station_fields_def
      subscript_def)

lemma unset_dict_get: "unset (map_of d f) \<Longrightarrow> dict_get d f = PNone"
  by (auto simp: unset_def dict_get_def)

lemma field_diffs_field:
  "d \<in> set (field_diffs fs local dbrow) \<Longrightarrow>
     dict_get local (fd_field d) \<noteq> dict_get dbrow (fd_field d)"
  by (induction fs) (auto split: if_splits)

lemma field_updates_field:
  "u \<in> set (field_updates fs local existing) \<Longrightarrow>
     map_of local (fst u) = Some (snd u) \<and> snd u \<noteq> dict_get existing (fst u)"
  by (induction fs) (auto split: option.splits if_splits)

lemma index_by_name_source:
  "index_by_name acc ps = Inr idx \<Longrightarrow> map_of idx m = Some lp \<Longrightarrow>
     map_of acc m = Some lp \<or> (lp \<in> set ps \<and> dict_get lp ''normalized_name'' = m)"
proof (induction ps arbitrary: acc)
  case Nil
  then show ?case by simp
next
  case (Cons p ps)
  from Cons.prems(1) obtain n where n: "subscript p ''normalized_name'' = Inr n"
    and rest: "index_by_name (AList.update n p acc) ps = Inr idx"
    by (auto split: sum.splits)
  from n have pn: "dict_get p ''normalized_name'' = n"
    by (auto simp: subscript_def dict_get_def split: option.splits)
  from Cons.IH [OF rest Cons.prems(2)]
  show ?case
    using pn by (auto simp: update_conv' split: if_splits)
qed

lemma diff_platforms_source:
  "diff_platforms idx rows = Inr ds \<Longrightarrow> (m, d) \<in> set ds \<Longrightarrow>
     \<exists>lp row. map_of idx m = Some lp \<and> row \<in> set rows
        \<and> dict_get row ''normalized_name'' = m
        \<and> d \<in> set (field_diffs diff_platform_fields lp row)"
proof (induction rows arbitrary: ds)
  case Nil
  then show ?case by simp
next
  case (Cons r rows)
  from Cons.prems(1) obtain n ds' where n: "subscript r ''normalized_name'' = Inr n"
    and rest: "diff_platforms idx rows = Inr ds'"
    and ds: "ds = (case map_of idx n of None \<Rightarrow> ds'
                   | Some lp \<Rightarrow> map (Pair n) (field_diffs diff_platform_fields lp r) @ ds')"
    by (auto split: sum.splits option.splits)
  from n have rn: "dict_get r ''normalized_name'' = n"
    by (auto simp: subscript_def dict_get_def split: option.splits)
  show ?case
  proof (cases "(m, d) \<in> set ds'")
    case True
    from Cons.IH [OF rest True] show ?thesis by auto
  next
    case False
    with Cons.prems(2) ds obtain lp where "map_of idx n = Some lp"
      and "(m, d) \<in> set (map (Pair n) (field_diffs diff_platform_fields lp r))"
      by (auto split: option.splits)
    then show ?thesis using rn by auto
  qed
qed

text \<open>
  C5, amended. Absence is normalised by \<^verbatim>\<open>.get\<close> only: a field that is null or missing
  on both sides is never reported. This holds for the comparison loops of
  \<^verbatim>\<open>diff_station\<close> and \<^verbatim>\<open>push_station\<close>, for the station entries of a diff, and for
  the entries of a platform whose local and database rows of that name all leave the
  field unset. The empty string is an ordinary value and differs from null.
\<close>

theorem null_and_missing_diff_equal:
  "(unset (map_of local f) \<and> unset (map_of dbrow f) \<longrightarrow>
      (\<forall>d \<in> set (field_diffs fs local dbrow). fd_field d \<noteq> f)
      \<and> (\<forall>u \<in> set (field_updates fs local dbrow). fst u \<noteq> f))
   \<and> (diff_station acr local_data db = Inr ds
        \<and> query_one (select_eq (db Stations) ''acronym'' (PStr acr)) = Some station
        \<and> unset (map_of (st_fields local_data) f) \<and> unset (map_of station f) \<longrightarrow>
          (\<forall>d \<in> set (station_diffs ds). fd_field d \<noteq> f))
   \<and> (diff_station acr local_data db = Inr ds
        \<and> (\<forall>lp \<in> set (platforms local_data).
              dict_get (plat_fields lp) ''normalized_name'' = n \<longrightarrow>
                unset (map_of (plat_fields lp) f))
        \<and> (\<forall>row \<in> set (db Platforms).
              dict_get row ''normalized_name'' = n \<longrightarrow> unset (map_of row f)) \<longrightarrow>
          (\<forall>nd \<in> set (platform_diffs ds). \<not> (fst nd = n \<and> fd_field (snd nd) = f)))"
proof (intro conjI impI)
  assume a: "unset (map_of local f) \<and> unset (map_of dbrow f)"
  then have eq: "dict_get local f = dict_get dbrow f" by (simp add: unset_dict_get)
  show "\<forall>d \<in> set (field_diffs fs local dbrow). fd_field d \<noteq> f"
    using field_diffs_field eq by blast
  show "\<forall>u \<in> set (field_updates fs local dbrow). fst u \<noteq> f"
  proof
    fix u assume u: "u \<in> set (field_updates fs local dbrow)"
    show "fst u \<noteq> f"
    proof
      assume "fst u = f"
      with field_updates_field [OF u] have "map_of local f = Some (snd u)"
        and "snd u \<noteq> dict_get dbrow f" by auto
      with a show False by (auto simp: unset_def dict_get_def split: option.splits)
    qed
  qed
next
  assume a: "diff_station acr local_data db = Inr ds
        \<and> query_one (select_eq (db Stations) ''acronym'' (PStr acr)) = Some station
        \<and> unset (map_of (st_fields local_data) f) \<and> unset (map_of station f)"
  then have "station_diffs ds = field_diffs diff_station_fields (st_fields local_data) station"
    by (auto simp: diff_station_def split: sum.splits)
  moreover from a have "dict_get (st_fields local_data) f = dict_get station f"
    by (simp add: unset_dict_get)
  ultimately show "\<forall>d \<in> set (station_diffs ds). fd_field d \<noteq> f"
    using field_diffs_field by metis
next
  assume a: "diff_station acr local_data db = Inr ds
        \<and> (\<forall>lp \<in> set (platforms local_data).
              dict_get (plat_fields lp) ''normalized_name'' = n \<longrightarrow>
                unset (map_of (plat_fields lp) f))
        \<and> (\<forall>row \<in> set (db Platforms).
              dict_get row ''normalized_name'' = n \<longrightarrow> unset (map_of row f))"
  then obtain station idx sid where
    idx: "index_by_name [] (map plat_fields (platforms local_data)) = Inr idx"
    and dp: "diff_platforms idx (select_eq (db Platforms) ''station_id'' sid)
               = Inr (platform_diffs ds)"
    by (auto simp: diff_station_def split: option.splits sum.splits)
  show "\<forall>nd \<in> set (platform_diffs ds). \<not> (fst nd = n \<and> fd_field (snd nd) = f)"
  proof (intro ballI notI)
    fix nd assume nd: "nd \<in> set (platform_diffs ds)" and eq: "fst nd = n \<and> fd_field (snd nd) = f"
    then have "(n, snd nd) \<in> set (platform_diffs ds)" by (cases nd) auto
    from diff_platforms_source [OF dp this] obtain lp row where
      lp: "map_of idx n = Some lp" and row: "row \<in> set (select_eq (db Platforms) ''station_id'' sid)"
      and rn: "dict_get row ''normalized_name'' = n"
      and d: "snd nd \<in> set (field_diffs diff_platform_fields lp row)" by blast
    from index_by_name_source [OF idx lp] have "lp \<in> plat_fields ` set (platforms local_data)"
      and "dict_get lp ''normalized_name'' = n" by auto
    with a have ul: "unset (map_of lp f)" by auto
    from row have "row \<in> set (db Platforms)" by (simp add: select_eq_def)
    with a rn have ur: "unset (map_of row f)" by auto
    from field_diffs_field [OF d] eq have "dict_get lp f \<noteq> dict_get row f" by simp
    with ul ur show False by (simp add: unset_dict_get)
  qed
qed

theorem null_and_missing_witness:
  "unset (map_of [(''description'', PNone)] ''description'')
   \<and> unset (map_of [] ''description'')
   \<and> field_diffs diff_station_fields [(''description'', PNone)] [] = []
   \<and> field_updates station_fields [(''description'', PNone)] [] = []"
  using null_and_missing_diff_equal
    [of "[(''description'', PNone)]" "''description''" "[]" diff_station_fields]
  by (simp add: unset_def diff_station_fields_def station_fields_def dict_get_def)

section \<open>Assembling twice\<close>

text \<open>
  C3, as stated, fails: two pulls of an unchanged store at different times give different
  documents, because \<^verbatim>\<open>_sync_meta.pulled_at\<close> holds the time of the call.
\<close>

theorem pull_twice_differs:
  "pull_station ''SVB'' (PStr ''2026-11-04T10:00:00'') example_db
     \<noteq> pull_station ''SVB'' (PStr ''2026-11-04T10:00:01'') example_db"
  by (simp add: pull_station_def example_db_def select_eq_def sql_eq_def dict_get_def
      subscript_def order_by_def)

lemma ordered_order_by: "ordered_by col (order_by col rows)"
  by (simp add: ordered_by_def order_by_def)

lemma pull_instruments_shape:
  "pull_instruments db is = Inr ids \<Longrightarrow>
     map inst_fields ids = is \<and> (\<forall>i \<in> set ids. ordered_by ''roi_name'' (rois i))"
  by (induction "is" arbitrary: ids) (auto split: sum.splits simp: ordered_order_by)

lemma pull_platforms_shape:
  "pull_platforms ord db ps = Inr pds \<Longrightarrow>
     map plat_fields pds = ps
     \<and> (\<forall>p \<in> set pds. ordered_by ord (map inst_fields (instruments p))
           \<and> (\<forall>i \<in> set (instruments p). ordered_by ''roi_name'' (rois i)))"
proof (induction ps arbitrary: pds)
  case Nil
  then show ?case by simp
next
  case (Cons p ps)
  from Cons.prems obtain pid insts rest where
    insts: "pull_instruments db (order_by ord (select_eq (db Instruments) ''platform_id'' pid))
              = Inr insts"
    and rest: "pull_platforms ord db ps = Inr rest"
    and pds: "pds = \<lparr>plat_fields = p, instruments = insts\<rparr> # rest"
    by (auto split: sum.splits)
  from pull_instruments_shape [OF insts] Cons.IH [OF rest] pds
  show ?case by (simp add: ordered_order_by)
qed

lemma pull_station_ordered:
  assumes "pull_station acr t1 db = Inr d"
  shows "ordered_by ''normalized_name'' (map plat_fields (platforms d))
        \<and> (\<forall>p \<in> set (platforms d).
              ordered_by ''normalized_name'' (map inst_fields (instruments p))
              \<and> (\<forall>i \<in> set (instruments p). ordered_by ''roi_name'' (rois i)))"
proof -
  from assms obtain sid where
    "pull_platforms ''normalized_name'' db
       (order_by ''normalized_name'' (select_eq (db Platforms) ''station_id'' sid))
       = Inr (platforms d)"
    by (auto simp: pull_station_def split: option.splits sum.splits)
  from pull_platforms_shape [OF this] show ?thesis
    by (simp add: ordered_order_by)
qed

lemma export_station_ordered:
  assumes "export_station_data acr t1 db = Inr d"
  shows "ordered_by ''display_name'' (map plat_fields (platforms d))
        \<and> (\<forall>p \<in> set (platforms d).
              ordered_by ''display_name'' (map inst_fields (instruments p))
              \<and> (\<forall>i \<in> set (instruments p). ordered_by ''roi_name'' (rois i)))"
proof -
  from assms obtain sid where
    "pull_platforms ''display_name'' db
       (order_by ''display_name'' (select_eq (db Platforms) ''station_id'' sid))
       = Inr (platforms d)"
    by (auto simp: export_station_data_def split: option.splits sum.splits)
  from pull_platforms_shape [OF this] show ?thesis
    by (simp add: ordered_order_by)
qed

lemma pull_station_restamp:
  "pull_station acr t2 db = map_sum id (restamp ''pulled_at'' t2) (pull_station acr t1 db)"
  by (simp add: pull_station_def restamp_def split: option.splits sum.splits)

lemma export_station_restamp:
  "export_station_data acr t2 db
     = map_sum id (restamp ''exported_at'' t2) (export_station_data acr t1 db)"
  by (simp add: export_station_data_def restamp_def split: option.splits sum.splits)

text \<open>
  C3, amended. With no write in between, assembling twice gives the same result except
  for the time in the metadata object: the second result is the first with
  \<^verbatim>\<open>pulled_at\<close> (\<^verbatim>\<open>exported_at\<close> for \<^verbatim>\<open>export_station_data\<close>) replaced. In a document of
  \<^verbatim>\<open>pull_station\<close> the platforms and each platform's instruments are in
  \<^verbatim>\<open>normalized_name\<close> order and each instrument's ROIs in \<^verbatim>\<open>roi_name\<close> order; in a
  document of \<^verbatim>\<open>export_station_data\<close> platforms and instruments are in
  \<^verbatim>\<open>display_name\<close> order instead.
\<close>

theorem assemble_repeatable_up_to_timestamp:
  "pull_station acr t2 db = map_sum id (restamp ''pulled_at'' t2) (pull_station acr t1 db)
   \<and> export_station_data acr t2 db
       = map_sum id (restamp ''exported_at'' t2) (export_station_data acr t1 db)
   \<and> (pull_station acr t1 db = Inr d \<longrightarrow>
        ordered_by ''normalized_name'' (map plat_fields (platforms d))
        \<and> (\<forall>p \<in> set (platforms d).
              ordered_by ''normalized_name'' (map inst_fields (instruments p))
              \<and> (\<forall>i \<in> set (instruments p). ordered_by ''roi_name'' (rois i))))
   \<and> (export_station_data acr t1 db = Inr e \<longrightarrow>
        ordered_by ''display_name'' (map plat_fields (platforms e))
        \<and> (\<forall>p \<in> set (platforms e).
              ordered_by ''display_name'' (map inst_fields (instruments p))
              \<and> (\<forall>i \<in> set (instruments p). ordered_by ''roi_name'' (rois i))))"
  using pull_station_restamp export_station_restamp pull_station_ordered
    export_station_ordered
  by blast

lemma pull_svb: "pull_station ''SVB'' (PStr ''t1'') example_db = Inr svb_pulled"
  by (simp add: pull_station_def example_db_def select_eq_def sql_eq_def dict_get_def
      subscript_def order_by_def svb_pulled_def)

theorem assemble_repeatable_witness:
  "pull_station ''SVB'' (PStr ''t2'') example_db
     = Inr (restamp ''pulled_at'' (PStr ''t2'') svb_pulled)
   \<and> ordered_by ''normalized_name'' (map plat_fields (platforms svb_pulled))
   \<and> map (\<lambda>p. dict_get (plat_fields p) ''normalized_name'') (platforms svb_pulled)
       = [PStr ''SVB_PL01'', PStr ''SVB_PL02'']"
  using assemble_repeatable_up_to_timestamp
    [of "''SVB''" "PStr ''t2''" example_db "PStr ''t1''" svb_pulled] pull_svb
  by (simp add: svb_pulled_def dict_get_def)

section \<open>Push, one candidate entity at a time\<close>

lemma push_instruments_Cons:
  "push_instruments dry now (li # lis) ch w
     = then_push (instrument_step dry now li ch w) (push_instruments dry now lis)"
  by (simp add: instrument_step_def then_push_def split: sum.splits option.splits prod.splits)

lemma push_platforms_Cons:
  "push_platforms dry now (lp # lps) ch w
     = then_push (platform_step dry now lp ch w) (push_platforms dry now lps)"
  by (simp add: platform_step_def then_push_def split: sum.splits option.splits prod.splits)

lemma push_station_alt:
  "push_station acr local_data dry now w =
     (case query_one (select_eq (store w Stations) ''acronym'' (PStr acr)) of
        None \<Rightarrow> (Inl (station_not_found acr), w)
      | Some station \<Rightarrow>
          then_push
            (then_push
               (apply_updates Stations DryRunStation dry now
                  (field_updates station_fields (st_fields local_data) station)
                  station \<lparr>updated = 0, inserted = 0, deleted = 0\<rparr> w)
               (push_platforms dry now (platforms local_data)))
            (\<lambda>ch w. (Inr ch, print (SyncSummary acr (updated ch) (inserted ch) (deleted ch)) w)))"
  by (simp add: push_station_def then_push_def split: sum.splits option.splits prod.splits)

lemma then_push_rel:
  assumes "then_push rw k = (r, w')"
    and "\<And>r1. rw = (r1, w1) \<Longrightarrow> R w w1"
    and "rw = (r1, w1)"
    and "\<And>ch. k ch w1 = (r, w') \<Longrightarrow> R w1 w'"
    and "\<And>a b c. R a b \<Longrightarrow> R b c \<Longrightarrow> R a c"
  shows "R w w'"
  using assms by (cases r1) (auto simp: then_push_def)

lemma dict_get_update:
  "dict_get (AList.update k v r) k' = (if k' = k then v else dict_get r k')"
  by (simp add: dict_get_def update_conv')

lemma dict_get_set_cols:
  "k \<notin> fst ` set data \<Longrightarrow> dict_get (set_cols r data) k = dict_get r k"
  by (induction data arbitrary: r) (auto simp: dict_get_update)

lemma field_updates_keys: "fst ` set (field_updates fs l e) \<subseteq> set fs"
  by (induction fs) (auto split: option.splits)

lemma update_rows_col:
  "k \<notin> fst ` set data \<Longrightarrow>
     map (\<lambda>r. dict_get r k) (update_rows rows data col v) = map (\<lambda>r. dict_get r k) rows"
  by (simp add: update_rows_def dict_get_set_cols)

lemma nn_not_instrument_field: "''normalized_name'' \<notin> set instrument_fields"
  by (simp add: instrument_fields_def)

lemma nn_not_platform_field: "''normalized_name'' \<notin> set platform_fields"
  by (simp add: platform_fields_def)

lemma nn_not_station_field: "''normalized_name'' \<notin> set station_fields"
  by (simp add: station_fields_def)

lemma instrument_step_rel:
  assumes refl: "\<And>w. R w w"
    and au: "\<And>t m fs l e ch w r w'.
       apply_updates t m dry now (field_updates fs l e) e ch w = (r, w') \<Longrightarrow>
       ''normalized_name'' \<notin> set fs \<Longrightarrow> R w w'"
    and st: "instrument_step dry now li ch w = (r, w')"
  shows "R w w'"
  using st refl au [OF _ nn_not_instrument_field]
  by (auto simp: instrument_step_def split: sum.splits option.splits)

lemma push_instruments_rel:
  assumes refl: "\<And>w. R w w"
    and trans: "\<And>a b c. R a b \<Longrightarrow> R b c \<Longrightarrow> R a c"
    and au: "\<And>t m fs l e ch w r w'.
       apply_updates t m dry now (field_updates fs l e) e ch w = (r, w') \<Longrightarrow>
       ''normalized_name'' \<notin> set fs \<Longrightarrow> R w w'"
  shows "push_instruments dry now lis ch w = (r, w') \<Longrightarrow> R w w'"
proof (induction lis arbitrary: ch w)
  case Nil
  then show ?case using refl by simp
next
  case (Cons li lis)
  from Cons.prems have tp:
    "then_push (instrument_step dry now li ch w) (push_instruments dry now lis) = (r, w')"
    by (simp only: push_instruments_Cons)
  obtain r1 w1 where s: "instrument_step dry now li ch w = (r1, w1)"
    by (cases "instrument_step dry now li ch w") auto
  have r1: "R w w1" by (rule instrument_step_rel [OF refl au s])
  show ?case
  proof (cases r1)
    case (Inl e)
    with tp s r1 show ?thesis by (simp add: then_push_def)
  next
    case (Inr ch1)
    with tp s have "push_instruments dry now lis ch1 w1 = (r, w')"
      by (simp add: then_push_def)
    from Cons.IH [OF this] r1 show ?thesis by (rule trans [rotated])
  qed
qed

lemma platform_step_rel:
  assumes refl: "\<And>w. R w w"
    and trans: "\<And>a b c. R a b \<Longrightarrow> R b c \<Longrightarrow> R a c"
    and au: "\<And>t m fs l e ch w r w'.
       apply_updates t m dry now (field_updates fs l e) e ch w = (r, w') \<Longrightarrow>
       ''normalized_name'' \<notin> set fs \<Longrightarrow> R w w'"
    and st: "platform_step dry now lp ch w = (r, w')"
  shows "R w w'"
proof (cases "subscript (plat_fields lp) ''normalized_name''")
  case (Inl e)
  with st refl show ?thesis by (simp add: platform_step_def)
next
  case (Inr name)
  show ?thesis
  proof (cases "query_one (select_eq (store w Platforms) ''normalized_name'' name)")
    case None
    with Inr st refl show ?thesis by (simp add: platform_step_def)
  next
    case (Some ex)
    obtain r1 w1 where a: "apply_updates Platforms (DryRunPlatform name) dry now
        (field_updates platform_fields (plat_fields lp) ex) ex ch w = (r1, w1)"
      by (cases "apply_updates Platforms (DryRunPlatform name) dry now
        (field_updates platform_fields (plat_fields lp) ex) ex ch w") auto
    have r1: "R w w1" by (rule au [OF a nn_not_platform_field])
    show ?thesis
    proof (cases r1)
      case (Inl e)
      with Inr Some a st r1 show ?thesis by (simp add: platform_step_def then_push_def)
    next
      case (Inr ch1)
      with \<open>subscript (plat_fields lp) ''normalized_name'' = Inr name\<close> Some a st
      have "push_instruments dry now (instruments lp) ch1 w1 = (r, w')"
        by (simp add: platform_step_def then_push_def)
      from push_instruments_rel [of R, OF refl trans au this] r1
      show ?thesis by (rule trans [rotated])
    qed
  qed
qed

lemma push_platforms_rel:
  assumes refl: "\<And>w. R w w"
    and trans: "\<And>a b c. R a b \<Longrightarrow> R b c \<Longrightarrow> R a c"
    and au: "\<And>t m fs l e ch w r w'.
       apply_updates t m dry now (field_updates fs l e) e ch w = (r, w') \<Longrightarrow>
       ''normalized_name'' \<notin> set fs \<Longrightarrow> R w w'"
  shows "push_platforms dry now lps ch w = (r, w') \<Longrightarrow> R w w'"
proof (induction lps arbitrary: ch w)
  case Nil
  then show ?case using refl by simp
next
  case (Cons lp lps)
  from Cons.prems have tp:
    "then_push (platform_step dry now lp ch w) (push_platforms dry now lps) = (r, w')"
    by (simp only: push_platforms_Cons)
  obtain r1 w1 where s: "platform_step dry now lp ch w = (r1, w1)"
    by (cases "platform_step dry now lp ch w") auto
  have r1: "R w w1" by (rule platform_step_rel [of R, OF refl trans au s])
  show ?case
  proof (cases r1)
    case (Inl e)
    with tp s r1 show ?thesis by (simp add: then_push_def)
  next
    case (Inr ch1)
    with tp s have "push_platforms dry now lps ch1 w1 = (r, w')"
      by (simp add: then_push_def)
    from Cons.IH [OF this] r1 show ?thesis by (rule trans [rotated])
  qed
qed

lemma push_station_rel:
  assumes refl: "\<And>w. R w w"
    and trans: "\<And>a b c. R a b \<Longrightarrow> R b c \<Longrightarrow> R a c"
    and au: "\<And>t m fs l e ch w r w'.
       apply_updates t m dry now (field_updates fs l e) e ch w = (r, w') \<Longrightarrow>
       ''normalized_name'' \<notin> set fs \<Longrightarrow> R w w'"
    and pr: "\<And>m w. R w (print m w)"
    and ps: "push_station acr local_data dry now w = (r, w')"
  shows "R w w'"
proof (cases "query_one (select_eq (store w Stations) ''acronym'' (PStr acr))")
  case None
  with ps refl show ?thesis by (simp add: push_station_def)
next
  case (Some station)
  obtain r1 w1 where a: "apply_updates Stations DryRunStation dry now
      (field_updates station_fields (st_fields local_data) station)
      station \<lparr>updated = 0, inserted = 0, deleted = 0\<rparr> w = (r1, w1)"
    by (cases "apply_updates Stations DryRunStation dry now
      (field_updates station_fields (st_fields local_data) station)
      station \<lparr>updated = 0, inserted = 0, deleted = 0\<rparr> w") auto
  have r1: "R w w1" by (rule au [OF a nn_not_station_field])
  show ?thesis
  proof (cases r1)
    case (Inl e)
    with Some a ps r1 show ?thesis by (simp add: push_station_def)
  next
    case (Inr ch1)
    obtain r2 w2 where p: "push_platforms dry now (platforms local_data) ch1 w1 = (r2, w2)"
      by (cases "push_platforms dry now (platforms local_data) ch1 w1") auto
    have r2: "R w1 w2" by (rule push_platforms_rel [of R, OF refl trans au p])
    have r12: "R w w2" by (rule trans [OF r1 r2])
    show ?thesis
    proof (cases r2)
      case (Inl e)
      with Some a Inr p ps r12 show ?thesis by (simp add: push_station_def)
    next
      case (Inr ch2)
      with Some a \<open>r1 = Inr ch1\<close> p ps
      have "w' = print (SyncSummary acr (updated ch2) (inserted ch2) (deleted ch2)) w2"
        by (simp add: push_station_def)
      with r12 pr show ?thesis using trans by blast
    qed
  qed
qed

lemma select_empty_names:
  "(select_eq rows ''normalized_name'' n = []) \<longleftrightarrow> (\<forall>x \<in> set (names_of rows). \<not> sql_eq x n)"
  by (auto simp: select_eq_def names_of_def filter_empty_conv)

lemma unmatched_names:
  "\<forall>t. names_of (store w' t) = names_of (store w t) \<Longrightarrow> unmatched w t n \<Longrightarrow>
     unmatched w' t n"
  by (simp add: unmatched_def select_empty_names)

lemma apply_updates_names:
  assumes "apply_updates t m dry now (field_updates fs l e) e ch w = (r, w')"
    and "''normalized_name'' \<notin> set fs"
  shows "\<forall>t'. names_of (store w' t') = names_of (store w t')"
proof -
  have k: "''normalized_name'' \<notin> fst ` set (field_updates fs l e @ [(''updated_at'', now)])"
    using assms(2) field_updates_keys [of fs l e] by auto
  show ?thesis
    using assms(1) update_rows_col [OF k]
    by (auto simp: apply_updates_def Let_def print_def d1_update_def names_of_def
        split: if_splits sum.splits)
qed

lemma apply_updates_executed:
  assumes "apply_updates t m dry now u e ch w = (r, w')"
  shows "\<exists>us. executed w' = executed w @ us \<and> list_all is_update us"
  using assms
  by (auto simp: apply_updates_def Let_def print_def d1_update_def split: if_splits sum.splits)

lemma instrument_step_names:
  "instrument_step dry now li ch w = (r, w') \<Longrightarrow>
     \<forall>t. names_of (store w' t) = names_of (store w t)"
  by (rule instrument_step_rel
      [where R = "\<lambda>w w'. \<forall>t. names_of (store w' t) = names_of (store w t)"])
    (auto dest: apply_updates_names)

lemma platform_step_names:
  "platform_step dry now lp ch w = (r, w') \<Longrightarrow>
     \<forall>t. names_of (store w' t) = names_of (store w t)"
  by (rule platform_step_rel
      [where R = "\<lambda>w w'. \<forall>t. names_of (store w' t) = names_of (store w t)"])
    (auto dest: apply_updates_names)

lemma then_push_cong:
  "(\<And>ch1 w1. rw = (Inr ch1, w1) \<Longrightarrow> k ch1 w1 = k' ch1 w1) \<Longrightarrow>
     then_push rw k = then_push rw k'"
  by (auto simp: then_push_def split: prod.splits sum.splits)

lemma instrument_step_unmatched:
  "subscript (inst_fields li) ''normalized_name'' = Inr m \<Longrightarrow> unmatched w Instruments m \<Longrightarrow>
     instrument_step dry now li ch w = (Inr ch, w)"
  by (simp add: instrument_step_def unmatched_def)

lemma platform_step_unmatched:
  "subscript (plat_fields lp) ''normalized_name'' = Inr n \<Longrightarrow> unmatched w Platforms n \<Longrightarrow>
     platform_step dry now lp ch w = (Inr ch, w)"
  by (simp add: platform_step_def unmatched_def)

lemma push_instruments_skip:
  assumes "subscript (inst_fields li) ''normalized_name'' = Inr m"
  shows "unmatched w Instruments m \<Longrightarrow>
     push_instruments dry now (is1 @ li # is2) ch w
       = push_instruments dry now (is1 @ is2) ch w"
proof (induction is1 arbitrary: ch w)
  case Nil
  then show ?case
    by (simp only: append_Nil push_instruments_Cons instrument_step_unmatched [OF assms])
       (simp add: then_push_def)
next
  case (Cons a is1)
  have "then_push (instrument_step dry now a ch w)
          (push_instruments dry now (is1 @ li # is2))
      = then_push (instrument_step dry now a ch w) (push_instruments dry now (is1 @ is2))"
  proof (rule then_push_cong)
    fix ch1 w1 assume "instrument_step dry now a ch w = (Inr ch1, w1)"
    from instrument_step_names [OF this]
    have "unmatched w1 Instruments m"
      by (rule unmatched_names) (use Cons.prems in simp)
    then show "push_instruments dry now (is1 @ li # is2) ch1 w1
       = push_instruments dry now (is1 @ is2) ch1 w1" by (rule Cons.IH)
  qed
  then show ?case by (simp only: append_Cons push_instruments_Cons)
qed

lemma push_platforms_skip:
  assumes "subscript (plat_fields lp) ''normalized_name'' = Inr n"
  shows "unmatched w Platforms n \<Longrightarrow>
     push_platforms dry now (ps1 @ lp # ps2) ch w
       = push_platforms dry now (ps1 @ ps2) ch w"
proof (induction ps1 arbitrary: ch w)
  case Nil
  then show ?case
    by (simp only: append_Nil push_platforms_Cons platform_step_unmatched [OF assms])
       (simp add: then_push_def)
next
  case (Cons a ps1)
  have "then_push (platform_step dry now a ch w)
          (push_platforms dry now (ps1 @ lp # ps2))
      = then_push (platform_step dry now a ch w) (push_platforms dry now (ps1 @ ps2))"
  proof (rule then_push_cong)
    fix ch1 w1 assume "platform_step dry now a ch w = (Inr ch1, w1)"
    from platform_step_names [OF this]
    have "unmatched w1 Platforms n"
      by (rule unmatched_names) (use Cons.prems in simp)
    then show "push_platforms dry now (ps1 @ lp # ps2) ch1 w1
       = push_platforms dry now (ps1 @ ps2) ch1 w1" by (rule Cons.IH)
  qed
  then show ?case by (simp only: append_Cons push_platforms_Cons)
qed

lemma platform_step_skip_instrument:
  assumes "instruments lp = is1 @ li # is2"
    and "subscript (inst_fields li) ''normalized_name'' = Inr m"
    and "unmatched w Instruments m"
  shows "platform_step dry now lp ch w
       = platform_step dry now (lp\<lparr>instruments := is1 @ is2\<rparr>) ch w"
proof (cases "subscript (plat_fields lp) ''normalized_name''")
  case (Inl e)
  then show ?thesis by (simp add: platform_step_def)
next
  case (Inr name)
  show ?thesis
  proof (cases "query_one (select_eq (store w Platforms) ''normalized_name'' name)")
    case None
    with Inr show ?thesis by (simp add: platform_step_def)
  next
    case (Some ex)
    have "then_push (apply_updates Platforms (DryRunPlatform name) dry now
              (field_updates platform_fields (plat_fields lp) ex) ex ch w)
            (push_instruments dry now (is1 @ li # is2))
        = then_push (apply_updates Platforms (DryRunPlatform name) dry now
              (field_updates platform_fields (plat_fields lp) ex) ex ch w)
            (push_instruments dry now (is1 @ is2))"
    proof (rule then_push_cong)
      fix ch1 w1
      assume "apply_updates Platforms (DryRunPlatform name) dry now
              (field_updates platform_fields (plat_fields lp) ex) ex ch w = (Inr ch1, w1)"
      from apply_updates_names [OF this nn_not_platform_field]
      have "unmatched w1 Instruments m"
        by (rule unmatched_names) (use assms(3) in simp)
      then show "push_instruments dry now (is1 @ li # is2) ch1 w1
         = push_instruments dry now (is1 @ is2) ch1 w1"
        by (rule push_instruments_skip [OF assms(2)])
    qed
    with Inr Some assms(1) show ?thesis by (simp add: platform_step_def)
  qed
qed

lemma push_platforms_skip_instrument:
  assumes "instruments lp = is1 @ li # is2"
    and "subscript (inst_fields li) ''normalized_name'' = Inr m"
  shows "unmatched w Instruments m \<Longrightarrow>
     push_platforms dry now (ps1 @ lp # ps2) ch w
       = push_platforms dry now (ps1 @ lp\<lparr>instruments := is1 @ is2\<rparr> # ps2) ch w"
proof (induction ps1 arbitrary: ch w)
  case Nil
  then show ?case
    by (simp only: append_Nil push_platforms_Cons
        platform_step_skip_instrument [OF assms(1) assms(2)])
next
  case (Cons a ps1)
  have "then_push (platform_step dry now a ch w)
          (push_platforms dry now (ps1 @ lp # ps2))
      = then_push (platform_step dry now a ch w)
          (push_platforms dry now (ps1 @ lp\<lparr>instruments := is1 @ is2\<rparr> # ps2))"
  proof (rule then_push_cong)
    fix ch1 w1 assume "platform_step dry now a ch w = (Inr ch1, w1)"
    from platform_step_names [OF this]
    have "unmatched w1 Instruments m"
      by (rule unmatched_names) (use Cons.prems in simp)
    then show "push_platforms dry now (ps1 @ lp # ps2) ch1 w1
       = push_platforms dry now (ps1 @ lp\<lparr>instruments := is1 @ is2\<rparr> # ps2) ch1 w1"
      by (rule Cons.IH)
  qed
  then show ?case by (simp only: append_Cons push_platforms_Cons)
qed

lemma push_station_platforms_cong:
  assumes "\<And>station ch1 w1.
     apply_updates Stations DryRunStation dry now
        (field_updates station_fields (st_fields local_data) station)
        station \<lparr>updated = 0, inserted = 0, deleted = 0\<rparr> w = (Inr ch1, w1) \<Longrightarrow>
     push_platforms dry now (platforms local_data) ch1 w1 = push_platforms dry now ps' ch1 w1"
  shows "push_station acr local_data dry now w
       = push_station acr (local_data\<lparr>platforms := ps'\<rparr>) dry now w"
proof (cases "query_one (select_eq (store w Stations) ''acronym'' (PStr acr))")
  case None
  then show ?thesis by (simp add: push_station_alt)
next
  case (Some station)
  have "then_push (apply_updates Stations DryRunStation dry now
              (field_updates station_fields (st_fields local_data) station)
              station \<lparr>updated = 0, inserted = 0, deleted = 0\<rparr> w)
          (push_platforms dry now (platforms local_data))
      = then_push (apply_updates Stations DryRunStation dry now
              (field_updates station_fields (st_fields local_data) station)
              station \<lparr>updated = 0, inserted = 0, deleted = 0\<rparr> w)
          (push_platforms dry now ps')"
    by (rule then_push_cong) (rule assms)
  with Some show ?thesis by (simp add: push_station_alt)
qed

lemma push_station_executed:
  "push_station acr local_data dry now w = (r, w') \<Longrightarrow>
     \<exists>us. executed w' = executed w @ us \<and> list_all is_update us"
proof (rule push_station_rel
    [where R = "\<lambda>w w'. \<exists>us. executed w' = executed w @ us \<and> list_all is_update us"])
  show "\<And>w. \<exists>us. executed w = executed w @ us \<and> list_all is_update us" by simp
  show "\<And>a b c. \<exists>us. executed b = executed a @ us \<and> list_all is_update us \<Longrightarrow>
       \<exists>us. executed c = executed b @ us \<and> list_all is_update us \<Longrightarrow>
       \<exists>us. executed c = executed a @ us \<and> list_all is_update us"
    by (metis append.assoc list_all_append)
  show "\<And>t m fs l e ch w r w'.
       apply_updates t m dry now (field_updates fs l e) e ch w = (r, w') \<Longrightarrow>
       ''normalized_name'' \<notin> set fs \<Longrightarrow>
       \<exists>us. executed w' = executed w @ us \<and> list_all is_update us"
    by (rule apply_updates_executed)
  show "\<And>m w. \<exists>us. executed (print m w) = executed w @ us \<and> list_all is_update us"
    by (simp add: print_def)
qed

lemmas push_eval =
  push_station_def apply_updates_def select_eq_def sql_eq_def dict_get_def subscript_def
  example_db_def example_world_def print_def d1_update_def update_rows_def
  station_fields_def platform_fields_def instrument_fields_def Let_def

text \<open>
  C1, as stated, fails: \<^verbatim>\<open>push_station\<close> returns the three counters and nothing else.
  Pushing a document whose only platform (and its instrument) is unknown to the store
  returns and prints exactly what pushing the empty document does; the unmatched
  entities are reported nowhere.
\<close>

theorem unmatched_platform_not_reported:
  "push_station ''SVB'' ghost_doc False (PStr ''t'') example_world
     = (Inr \<lparr>updated = 0, inserted = 0, deleted = 0\<rparr>,
        print (SyncSummary ''SVB'' 0 0 0) example_world)
   \<and> push_station ''SVB'' empty_doc False (PStr ''t'') example_world
     = (Inr \<lparr>updated = 0, inserted = 0, deleted = 0\<rparr>,
        print (SyncSummary ''SVB'' 0 0 0) example_world)"
  by (simp add: push_eval ghost_doc_def ghost_platform_def empty_doc_def)

text \<open>
  C1, amended. A candidate platform or instrument whose \<^verbatim>\<open>normalized_name\<close> matches no
  row of its table is skipped silently: the push (dry run or not) returns the same
  result and leaves the same store, statements and output as the push of the document
  without that entity, so nothing is inserted, deleted or reported for it. Every
  statement a push executes is an \<^verbatim>\<open>UPDATE\<close>.
\<close>

theorem push_skips_unmatched:
  "(platforms local_data = ps1 @ lp # ps2
      \<and> subscript (plat_fields lp) ''normalized_name'' = Inr n
      \<and> unmatched w Platforms n \<longrightarrow>
        push_station acr local_data dry now w
          = push_station acr (local_data\<lparr>platforms := ps1 @ ps2\<rparr>) dry now w)
   \<and> (platforms local_data = ps1 @ lp # ps2
      \<and> instruments lp = is1 @ li # is2
      \<and> subscript (inst_fields li) ''normalized_name'' = Inr m
      \<and> unmatched w Instruments m \<longrightarrow>
        push_station acr local_data dry now w
          = push_station acr
              (local_data\<lparr>platforms := ps1 @ lp\<lparr>instruments := is1 @ is2\<rparr> # ps2\<rparr>) dry now w)
   \<and> (\<exists>us. executed (snd (push_station acr local_data dry now w)) = executed w @ us
          \<and> list_all is_update us)"
proof (intro conjI impI)
  assume a: "platforms local_data = ps1 @ lp # ps2
      \<and> subscript (plat_fields lp) ''normalized_name'' = Inr n \<and> unmatched w Platforms n"
  show "push_station acr local_data dry now w
          = push_station acr (local_data\<lparr>platforms := ps1 @ ps2\<rparr>) dry now w"
  proof (rule push_station_platforms_cong)
    fix station ch1 w1
    assume "apply_updates Stations DryRunStation dry now
        (field_updates station_fields (st_fields local_data) station)
        station \<lparr>updated = 0, inserted = 0, deleted = 0\<rparr> w = (Inr ch1, w1)"
    from apply_updates_names [OF this nn_not_station_field]
    have "unmatched w1 Platforms n"
      by (rule unmatched_names) (use a in simp)
    with a show "push_platforms dry now (platforms local_data) ch1 w1
        = push_platforms dry now (ps1 @ ps2) ch1 w1"
      by (simp add: push_platforms_skip)
  qed
next
  assume a: "platforms local_data = ps1 @ lp # ps2
      \<and> instruments lp = is1 @ li # is2
      \<and> subscript (inst_fields li) ''normalized_name'' = Inr m
      \<and> unmatched w Instruments m"
  show "push_station acr local_data dry now w
          = push_station acr
              (local_data\<lparr>platforms := ps1 @ lp\<lparr>instruments := is1 @ is2\<rparr> # ps2\<rparr>) dry now w"
  proof (rule push_station_platforms_cong)
    fix station ch1 w1
    assume "apply_updates Stations DryRunStation dry now
        (field_updates station_fields (st_fields local_data) station)
        station \<lparr>updated = 0, inserted = 0, deleted = 0\<rparr> w = (Inr ch1, w1)"
    from apply_updates_names [OF this nn_not_station_field]
    have "unmatched w1 Instruments m"
      by (rule unmatched_names) (use a in simp)
    with a show "push_platforms dry now (platforms local_data) ch1 w1
        = push_platforms dry now (ps1 @ lp\<lparr>instruments := is1 @ is2\<rparr> # ps2) ch1 w1"
      by (simp add: push_platforms_skip_instrument)
  qed
next
  show "\<exists>us. executed (snd (push_station acr local_data dry now w)) = executed w @ us
          \<and> list_all is_update us"
    by (rule push_station_executed [of acr local_data dry now w
          "fst (push_station acr local_data dry now w)"]) simp
qed

theorem push_skips_unmatched_witness:
  "unmatched example_world Platforms (PStr ''SVB_PL99'')
   \<and> push_station ''SVB'' ghost_doc False (PStr ''t'') example_world
       = push_station ''SVB'' (ghost_doc\<lparr>platforms := []\<rparr>) False (PStr ''t'') example_world
   \<and> unmatched example_world Instruments (PStr ''SVB_PL01_PHE09'')
   \<and> push_station ''SVB'' ghost_instrument_doc False (PStr ''t'') example_world
       = push_station ''SVB''
           (ghost_instrument_doc\<lparr>platforms := [ghost_instrument_platform\<lparr>instruments := []\<rparr>]\<rparr>)
           False (PStr ''t'') example_world"
proof -
  have u1: "unmatched example_world Platforms (PStr ''SVB_PL99'')"
    by (simp add: unmatched_def push_eval)
  have u2: "unmatched example_world Instruments (PStr ''SVB_PL01_PHE09'')"
    by (simp add: unmatched_def push_eval)
  have a: "push_station ''SVB'' ghost_doc False (PStr ''t'') example_world
       = push_station ''SVB'' (ghost_doc\<lparr>platforms := []\<rparr>) False (PStr ''t'') example_world"
    using push_skips_unmatched
      [of ghost_doc "[]" ghost_platform "[]" "PStr ''SVB_PL99''" example_world "''SVB''" False
        "PStr ''t''"] u1
    by (simp add: ghost_doc_def ghost_platform_def subscript_def)
  have b: "push_station ''SVB'' ghost_instrument_doc False (PStr ''t'') example_world
       = push_station ''SVB''
           (ghost_instrument_doc\<lparr>platforms := [ghost_instrument_platform\<lparr>instruments := []\<rparr>]\<rparr>)
           False (PStr ''t'') example_world"
    using push_skips_unmatched
      [of ghost_instrument_doc "[]" ghost_instrument_platform "[]" "PStr ''SVB_PL01''"
        example_world "''SVB''" False "PStr ''t''" "[]" ghost_instrument "[]"
        "PStr ''SVB_PL01_PHE09''"] u2
    by (simp add: ghost_instrument_doc_def ghost_instrument_platform_def ghost_instrument_def
        subscript_def)
  from u1 u2 a b show ?thesis by simp
qed

section \<open>What one step of a push leaves and adds\<close>

lemma apply_updates_frame:
  "apply_updates t m dry now u e ch w = (r, w') \<Longrightarrow> t' \<noteq> t \<Longrightarrow> store w' t' = store w t'"
  by (auto simp: apply_updates_def Let_def print_def d1_update_def split: if_splits sum.splits)

lemma push_instruments_executed:
  "push_instruments dry now lis ch w = (r, w') \<Longrightarrow>
     \<exists>us. executed w' = executed w @ us \<and> list_all is_update us"
proof (rule push_instruments_rel
    [where R = "\<lambda>w w'. \<exists>us. executed w' = executed w @ us \<and> list_all is_update us"])
  show "\<And>w. \<exists>us. executed w = executed w @ us \<and> list_all is_update us" by simp
  show "\<And>a b c. \<exists>us. executed b = executed a @ us \<and> list_all is_update us \<Longrightarrow>
       \<exists>us. executed c = executed b @ us \<and> list_all is_update us \<Longrightarrow>
       \<exists>us. executed c = executed a @ us \<and> list_all is_update us"
    by (metis append.assoc list_all_append)
  show "\<And>t m fs l e ch w r w'.
       apply_updates t m dry now (field_updates fs l e) e ch w = (r, w') \<Longrightarrow>
       ''normalized_name'' \<notin> set fs \<Longrightarrow>
       \<exists>us. executed w' = executed w @ us \<and> list_all is_update us"
    by (rule apply_updates_executed)
qed

lemma push_platforms_executed:
  "push_platforms dry now lps ch w = (r, w') \<Longrightarrow>
     \<exists>us. executed w' = executed w @ us \<and> list_all is_update us"
proof (rule push_platforms_rel
    [where R = "\<lambda>w w'. \<exists>us. executed w' = executed w @ us \<and> list_all is_update us"])
  show "\<And>w. \<exists>us. executed w = executed w @ us \<and> list_all is_update us" by simp
  show "\<And>a b c. \<exists>us. executed b = executed a @ us \<and> list_all is_update us \<Longrightarrow>
       \<exists>us. executed c = executed b @ us \<and> list_all is_update us \<Longrightarrow>
       \<exists>us. executed c = executed a @ us \<and> list_all is_update us"
    by (metis append.assoc list_all_append)
  show "\<And>t m fs l e ch w r w'.
       apply_updates t m dry now (field_updates fs l e) e ch w = (r, w') \<Longrightarrow>
       ''normalized_name'' \<notin> set fs \<Longrightarrow>
       \<exists>us. executed w' = executed w @ us \<and> list_all is_update us"
    by (rule apply_updates_executed)
qed

lemma then_push_ok:
  "then_push rw k = (Inr ch', w') \<Longrightarrow>
     \<exists>ch1 w1. rw = (Inr ch1, w1) \<and> k ch1 w1 = (Inr ch', w')"
  by (auto simp: then_push_def split: prod.splits sum.splits)

lemma field_updates_columns:
  "map fst (field_updates fs l e)
     = filter (\<lambda>f. has_key l f \<and> dict_get l f \<noteq> dict_get e f) fs"
  by (induction fs) (auto simp: has_key_def dict_get_def split: option.splits)

lemma apply_updates_ok_cases:
  assumes "apply_updates t m False now u e ch w = (Inr ch', w')"
  shows "(u = [] \<and> ch' = ch \<and> w' = w)
       \<or> (u \<noteq> [] \<and> ch' = ch\<lparr>updated := updated ch + 1\<rparr>
           \<and> w' = d1_update t (u @ [(''updated_at'', now)]) ''id'' (dict_get e ''id'') w)"
  using assms
  by (auto simp: apply_updates_def Let_def subscript_def dict_get_def
      split: if_splits sum.splits option.splits)

lemma join_set_clause:
  "map (\<lambda>(k, v). k @ '' = ?'') data = map (\<lambda>f. f @ '' = ?'') (map fst data)"
  by (induction data) auto

section \<open>Bulk import isolates a row whose platform does not resolve\<close>

lemma import_rows_append:
  "import_instrument_rows pm dry now i (rs1 @ rs2) acc
     = import_instrument_rows pm dry now (i + length rs1) rs2
         (import_instrument_rows pm dry now i rs1 acc)"
proof (induction rs1 arbitrary: i acc dry)
  case Nil
  then show ?case by simp
next
  case (Cons r rs1)
  obtain imp errs w where acc: "acc = (imp, errs, w)" by (cases acc) auto
  show ?case
    unfolding acc
    by (simp add: Let_def Cons.IH split: sum.splits prod.splits)
qed

lemma import_row_unresolved:
  "\<not> resolves pm r \<Longrightarrow>
     import_instrument_rows pm dry now i (r # rs) (imp, errs, w)
       = import_instrument_rows pm dry now (Suc i) rs
           (imp, errs @ [PlatformNotFound i (row_platform_name r)], w)"
  by (simp add: resolves_def row_platform_name_def Let_def)

lemma instrument_data_ok:
  "has_key r ''normalized_name'' \<Longrightarrow> has_key r ''instrument_type'' \<Longrightarrow>
     \<exists>d. instrument_data pid now r = Inr d"
  by (auto simp: instrument_data_def subscript_def has_key_def split: option.splits)

lemma import_row_refused:
  assumes "resolves pm r"
    and "instrument_data (case map_of pm (row_platform_name r) of None \<Rightarrow> PNone | Some v \<Rightarrow> v)
           now r = Inr d"
    and "\<not> accepts w Instruments (store w Instruments) d"
  shows "import_instrument_rows pm False now i (r # rs) (imp, errs, w)
       = import_instrument_rows pm False now (Suc i) rs
           (imp, errs @ [RowException i D1Error], w)"
  using assms by (simp add: resolves_def row_platform_name_def Let_def d1_insert_def)

lemma import_row_inserted:
  assumes "resolves pm r"
    and "instrument_data (case map_of pm (row_platform_name r) of None \<Rightarrow> PNone | Some v \<Rightarrow> v)
           now r = Inr d"
    and "d1_insert Instruments d w = (Inr nid, w1)"
  shows "import_instrument_rows pm False now i (r # rs) (imp, errs, w)
       = import_instrument_rows pm False now (Suc i) rs
           (imp @ [AList.update ''id'' nid d], errs,
            print (Inserted (dict_get d ''normalized_name'') nid) w1)"
  using assms by (simp add: resolves_def row_platform_name_def Let_def)

lemma inserts_accepted_cong:
  "store w2 = store w1 \<Longrightarrow> accepts w2 = accepts w1 \<Longrightarrow>
     inserts_accepted t ds w2 = inserts_accepted t ds w1"
proof (induction ds arbitrary: w1 w2)
  case Nil
  then show ?case by simp
next
  case (Cons d ds)
  show ?case
  proof (cases "accepts w1 t (store w1 t) d")
    case False
    with Cons.prems show ?thesis by (simp add: d1_insert_def)
  next
    case True
    let ?n = "PInt (max_id (store w1 t) + 1)"
    let ?f = "\<lambda>w::world. w\<lparr>store := (store w)(t := store w t @ [(''id'', ?n) # d]),
                     executed := executed w @ [Insert t d]\<rparr>"
    have "inserts_accepted t ds (?f w2) = inserts_accepted t ds (?f w1)"
      by (rule Cons.IH) (use Cons.prems in simp_all)
    with True Cons.prems show ?thesis by (simp add: d1_insert_def Let_def)
  qed
qed

lemma import_rows_trace:
  assumes "\<forall>r \<in> set rows. row_ok pm r \<or> \<not> resolves pm r"
    and "inserts_accepted Instruments (batch_data pm now rows) w"
  shows "\<exists>ids. added ids (batch_data pm now rows) (unresolved_errors pm i rows)
           (imp, errs, w) (import_instrument_rows pm False now i rows (imp, errs, w))"
  using assms
proof (induction rows arbitrary: i imp errs w)
  case Nil
  show ?case by (rule exI [of _ "[]"]) (simp add: added_def batch_data_def)
next
  case (Cons r rows)
  from Cons.prems(1) have rest: "\<forall>r \<in> set rows. row_ok pm r \<or> \<not> resolves pm r" by simp
  show ?case
  proof (cases "resolves pm r")
    case False
    then have bd: "batch_data pm now (r # rows) = batch_data pm now rows"
      by (simp add: batch_data_def row_data_def)
    with Cons.prems(2) have acc: "inserts_accepted Instruments (batch_data pm now rows) w"
      by simp
    let ?e = "PlatformNotFound i (row_platform_name r)"
    from Cons.IH [OF rest acc, of "Suc i" imp "errs @ [?e]"] obtain ids where
      "added ids (batch_data pm now rows) (unresolved_errors pm (Suc i) rows)
         (imp, errs @ [?e], w)
         (import_instrument_rows pm False now (Suc i) rows (imp, errs @ [?e], w))" ..
    then have "added ids (batch_data pm now (r # rows)) (unresolved_errors pm i (r # rows))
         (imp, errs, w) (import_instrument_rows pm False now i (r # rows) (imp, errs, w))"
      using False bd
      by (simp only: import_row_unresolved [OF False])
         (auto simp: added_def split: prod.splits)
    then show ?thesis ..
  next
    case True
    let ?pid = "case map_of pm (row_platform_name r) of None \<Rightarrow> PNone | Some v \<Rightarrow> v"
    from True Cons.prems(1) have ok: "row_ok pm r" by simp
    then obtain d where d: "instrument_data ?pid now r = Inr d"
      using instrument_data_ok [of r ?pid now] by (auto simp: row_ok_def)
    from True d have bd: "batch_data pm now (r # rows) = d # batch_data pm now rows"
      by (simp add: batch_data_def row_data_def)
    with Cons.prems(2) obtain nid w1 where
      ins: "d1_insert Instruments d w = (Inr nid, w1)"
      and acc1: "inserts_accepted Instruments (batch_data pm now rows) w1"
      by (auto split: prod.splits sum.splits)
    let ?w1 = "print (Inserted (dict_get d ''normalized_name'') nid) w1"
    have acc: "inserts_accepted Instruments (batch_data pm now rows) ?w1"
      using acc1 inserts_accepted_cong [of ?w1 w1] by (simp add: print_def)
    from ins have w1: "store w1 = (store w)(Instruments := store w Instruments @ [(''id'', nid) # d])"
      "accepts w1 = accepts w"
      "executed w1 = executed w @ [Insert Instruments d]" "printed w1 = printed w"
      by (auto simp: d1_insert_def Let_def split: if_splits)
    from Cons.IH [OF rest acc, of "Suc i" "imp @ [AList.update ''id'' nid d]" errs]
    obtain ids where
      "added ids (batch_data pm now rows) (unresolved_errors pm (Suc i) rows)
         (imp @ [AList.update ''id'' nid d], errs, ?w1)
         (import_instrument_rows pm False now (Suc i) rows
            (imp @ [AList.update ''id'' nid d], errs, ?w1))" ..
    then have "added (nid # ids) (batch_data pm now (r # rows))
         (unresolved_errors pm i (r # rows))
         (imp, errs, w) (import_instrument_rows pm False now i (r # rows) (imp, errs, w))"
      using True bd w1
      by (simp only: import_row_inserted [OF True d ins])
         (auto simp: added_def print_def split: prod.splits)
    then show ?thesis ..
  qed
qed

lemma unresolved_errors_none:
  "\<forall>x \<in> set rs. resolves pm x \<Longrightarrow> unresolved_errors pm i rs = []"
  by (induction rs arbitrary: i) simp_all

lemma unresolved_errors_append:
  "unresolved_errors pm i (xs @ ys)
     = unresolved_errors pm i xs @ unresolved_errors pm (i + length xs) ys"
  by (induction xs arbitrary: i) simp_all

lemma unresolved_errors_one:
  assumes "\<not> resolves pm r" and "\<forall>x \<in> set rs1 \<union> set rs2. resolves pm x"
  shows "unresolved_errors pm 1 (rs1 @ r # rs2)
           = [PlatformNotFound (length rs1 + 1) (row_platform_name r)]"
  using assms by (simp add: unresolved_errors_append unresolved_errors_none)

lemma batch_data_ok:
  "\<forall>x \<in> set rs. row_ok pm x \<Longrightarrow>
     list_all2 (\<lambda>x d. instrument_data
                        (case map_of pm (row_platform_name x) of None \<Rightarrow> PNone | Some v \<Rightarrow> v)
                        now x = Inr d)
       rs (batch_data pm now rs)"
proof (induction rs)
  case Nil
  then show ?case by (simp add: batch_data_def)
next
  case (Cons x rs)
  let ?pid = "case map_of pm (row_platform_name x) of None \<Rightarrow> PNone | Some v \<Rightarrow> v"
  from Cons.prems have ok: "row_ok pm x" by simp
  then obtain d where d: "instrument_data ?pid now x = Inr d"
    using instrument_data_ok [of x ?pid now] by (auto simp: row_ok_def)
  with ok have "batch_data pm now (x # rs) = d # batch_data pm now rs"
    by (simp add: batch_data_def row_data_def row_ok_def)
  with d Cons show ?case by simp
qed

lemma batch_data_skip:
  "\<not> resolves pm r \<Longrightarrow> batch_data pm now (rs1 @ r # rs2) = batch_data pm now (rs1 @ rs2)"
  by (simp add: batch_data_def row_data_def)

lemmas import_eval = import_instruments_def import_instrument_rows.simps instrument_data_def
  platform_map_of.simps add_optional.simps optional_fields_def py_or_def d1_insert_def max_id.simps
  query_one.simps project_def select_eq_def sql_eq_def dict_get_def dict_get_default_def
  subscript_def has_key_def example_db_def example_world_def unique_name_def print_def
  good_row_def bad_row_def Let_def

text \<open>
  C6, as stated, fails: the claim has the unresolved row recorded in the returned error list.
  \<^verbatim>\<open>import_instruments\<close> returns the list of imported entries only; the errors are
  printed. With a batch of one good row and one row whose platform is unknown the value
  returned is the same as for the good row alone.
\<close>

theorem unresolved_row_not_returned:
  "fst (import_instruments [good_row, bad_row] ''SVB'' False (PStr ''t'') example_world)
     = Inr [imported_good]
   \<and> fst (import_instruments [good_row] ''SVB'' False (PStr ''t'') example_world)
     = Inr [imported_good]"
  by (simp add: import_eval imported_good_def)

text \<open>
  C6, amended. For \<^verbatim>\<open>import_instruments\<close> (the one loader that resolves a parent per
  row), not a dry run, on a batch \<open>rs1 @ r # rs2\<close> of \<open>N\<close> rows whose station exists, where
  the platform of \<open>r\<close> does not resolve, every other row resolves and carries
  \<^verbatim>\<open>normalized_name\<close> and \<^verbatim>\<open>instrument_type\<close>, and the database accepts the inserts of
  these other rows one after the other: the call returns normally; what it returns is the
  \<open>N - 1\<close> instrument dicts built from the other rows, in order, each with the id the
  database gave it; these rows, and nothing else, are appended to the instruments table;
  the statements executed are exactly their \<open>N - 1\<close> inserts; and the output is one line
  per insert, then the summary (\<open>N\<close> rows, \<open>N - 1\<close> imported, one error), then the one
  error, which names row \<open>r\<close> by its 1-based index \<open>length rs1 + 1\<close>. The error list is
  printed, not returned. An insert the database refuses would be one more row error
  (\<open>import_row_refused\<close>), hence the hypothesis on the other rows.
\<close>

theorem batch_isolation:
  assumes st: "query_one (map (project [''id''])
                  (select_eq (store w Stations) ''acronym'' (PStr acr))) = Some station"
    and pm: "pm = platform_map_for w (dict_get station ''id'')"
    and rows: "rows = rs1 @ r # rs2"
    and bad: "\<not> resolves pm r"
    and ok: "\<forall>x \<in> set rs1 \<union> set rs2. row_ok pm x"
    and acc: "inserts_accepted Instruments (batch_data pm now rows) w"
  shows "\<exists>ids w'.
      import_instruments rows acr False now w
        = (Inr (map2 (AList.update ''id'') ids (batch_data pm now rows)), w')
      \<and> length ids = length rows - 1
      \<and> list_all2 (\<lambda>x d. instrument_data
                           (case map_of pm (row_platform_name x) of
                              None \<Rightarrow> PNone | Some v \<Rightarrow> v) now x = Inr d)
           (rs1 @ rs2) (batch_data pm now rows)
      \<and> store w' = (store w)(Instruments :=
                       store w Instruments
                         @ map2 (\<lambda>i d. (''id'', i) # d) ids (batch_data pm now rows))
      \<and> executed w' = executed w @ map (Insert Instruments) (batch_data pm now rows)
      \<and> printed w' = printed w
            @ map2 (\<lambda>i d. Inserted (dict_get d ''normalized_name'') i) ids
                (batch_data pm now rows)
            @ [ImportSummary (length rows) (length rows - 1) 1,
               ImportError (PlatformNotFound (length rs1 + 1) (row_platform_name r))]"
proof -
  let ?ds = "batch_data pm now rows"
  let ?e = "PlatformNotFound (length rs1 + 1) (row_platform_name r)"
  from ok bad have each: "\<forall>x \<in> set rows. row_ok pm x \<or> \<not> resolves pm x"
    by (auto simp: rows)
  from ok have res: "\<forall>x \<in> set rs1 \<union> set rs2. resolves pm x" by (simp add: row_ok_def)
  have es: "unresolved_errors pm 1 rows = [?e]"
    unfolding rows by (rule unresolved_errors_one [OF bad res])
  from ok have "\<forall>x \<in> set (rs1 @ rs2). row_ok pm x" by simp
  from batch_data_ok [OF this, of now]
  have data: "list_all2 (\<lambda>x d. instrument_data
                           (case map_of pm (row_platform_name x) of
                              None \<Rightarrow> PNone | Some v \<Rightarrow> v) now x = Inr d)
           (rs1 @ rs2) ?ds"
    by (simp add: rows batch_data_skip [OF bad])
  then have len: "length ?ds = length rows - 1"
    by (auto simp: rows dest: list_all2_lengthD)
  from import_rows_trace [OF each acc, of 1 "[]" "[]"] obtain ids where
    a0: "added ids ?ds (unresolved_errors pm 1 rows) ([], [], w)
           (import_instrument_rows pm False now 1 rows ([], [], w))" ..
  then have a: "added ids ?ds [?e] ([], [], w)
           (import_instrument_rows pm False now 1 rows ([], [], w))"
    by (simp only: es)
  obtain imp errs w1 where r:
    "import_instrument_rows pm False now 1 rows ([], [], w) = (imp, errs, w1)"
    by (cases "import_instrument_rows pm False now 1 rows ([], [], w)") auto
  from a [unfolded r] have b: "length ids = length ?ds"
    "imp = map2 (AList.update ''id'') ids ?ds" "errs = [?e]"
    "store w1 = (store w)(Instruments :=
                   store w Instruments @ map2 (\<lambda>i d. (''id'', i) # d) ids ?ds)"
    "executed w1 = executed w @ map (Insert Instruments) ?ds"
    "printed w1 = printed w @ map2 (\<lambda>i d. Inserted (dict_get d ''normalized_name'') i) ids ?ds"
    by (simp_all add: added_def)
  let ?w' = "w1\<lparr>printed := printed w1
                 @ [ImportSummary (length rows) (length imp) (length errs)]
                 @ map ImportError errs\<rparr>"
  have call: "import_instruments rows acr False now w = (Inr imp, ?w')"
    using st r by (simp add: import_instruments_def pm platform_map_for_def Let_def)
  have li: "length imp = length rows - 1" using b(1,2) len by simp
  show ?thesis
    by (intro exI [of _ ids] exI [of _ ?w'])
       (use call b li len data in simp)
qed

theorem batch_isolation_witness:
  "\<exists>ids w'.
      import_instruments [good_row, bad_row] ''SVB'' False (PStr ''t'') example_world
        = (Inr (map2 (AList.update ''id'') ids [good_data]), w')
      \<and> length ids = 1
      \<and> store w' = (store example_world)(Instruments :=
                       store example_world Instruments
                         @ map2 (\<lambda>i d. (''id'', i) # d) ids [good_data])
      \<and> executed w' = [Insert Instruments good_data]
      \<and> printed w' = map2 (\<lambda>i d. Inserted (dict_get d ''normalized_name'') i) ids [good_data]
            @ [ImportSummary 2 1 1, ImportError (PlatformNotFound 2 (PStr ''SVB_PL77''))]"
proof -
  let ?station = "[(''id'', PInt 1)]"
  let ?pm = "platform_map_for example_world (dict_get ?station ''id'')"
  have st: "query_one (map (project [''id''])
              (select_eq (store example_world Stations) ''acronym'' (PStr ''SVB''))) = Some ?station"
    by (simp add: import_eval)
  have rows: "[good_row, bad_row] = [good_row] @ bad_row # []" by simp
  have pm: "?pm = [(PStr ''SVB_PL01'', PInt 2), (PStr ''SVB_PL02'', PInt 1)]
            \<or> ?pm = [(PStr ''SVB_PL02'', PInt 1), (PStr ''SVB_PL01'', PInt 2)]"
    by (simp add: platform_map_for_def import_eval)
  have bad: "\<not> resolves ?pm bad_row"
    using pm by (auto simp: resolves_def row_platform_name_def import_eval)
  have ok: "\<forall>x \<in> set [good_row] \<union> set []. row_ok ?pm x"
    using pm by (auto simp: row_ok_def resolves_def row_platform_name_def import_eval)
  have ds: "batch_data ?pm (PStr ''t'') [good_row, bad_row] = [good_data]"
    using pm by (auto simp: batch_data_def row_data_def resolves_def row_platform_name_def
        good_data_def import_eval)
  have acc: "inserts_accepted Instruments (batch_data ?pm (PStr ''t'') [good_row, bad_row])
               example_world"
    unfolding ds by (simp add: good_data_def import_eval list_all_iff)
  have n: "row_platform_name bad_row = PStr ''SVB_PL77''"
    by (simp add: row_platform_name_def import_eval)
  have e: "executed example_world = []" "printed example_world = []"
    by (simp_all add: example_world_def)
  from batch_isolation [OF st refl rows bad ok acc] show ?thesis
    by (simp only: ds) (auto simp: n e numeral_2_eq_2)
qed

section \<open>The statements of a push on keyed tables\<close>

text \<open>
  On keyed tables, an update sent for the row found under one name leaves the rows
  found under every other name as they were. So when the candidate lists no name twice,
  every lookup of the push finds the row that was in the store at the start, and the
  statements executed are \<open>expected_updates\<close>.
\<close>

lemma stable_refl: "stable P I w w"
  by (simp add: stable_def)

lemma stable_trans:
  "stable P I a b \<Longrightarrow> stable P' I' b c \<Longrightarrow> stable (P \<union> P') (I \<union> I') a c"
  by (simp add: stable_def)

lemma stable_mono: "stable P I a b \<Longrightarrow> P \<subseteq> P' \<Longrightarrow> I \<subseteq> I' \<Longrightarrow> stable P' I' a b"
  by (auto simp: stable_def)

lemma map_of_update_other: "k' \<noteq> k \<Longrightarrow> map_of (AList.update k v r) k' = map_of r k'"
  by (simp add: update_conv')

lemma map_of_set_cols:
  "k \<notin> fst ` set data \<Longrightarrow> map_of (set_cols r data) k = map_of r k"
  by (induction data arbitrary: r) (auto simp: map_of_update_other)

lemma id_cells_update_rows:
  "''id'' \<notin> fst ` set data \<Longrightarrow> id_cells (update_rows rows data col v) = id_cells rows"
  by (simp add: id_cells_def update_rows_def map_of_set_cols)


lemma keyed_same_id:
  assumes "keyed rows" and "e \<in> set rows" and "r \<in> set rows"
    and "dict_get r ''id'' = dict_get e ''id''"
  shows "r = e"
proof -
  from assms(1) have inj: "inj_on (\<lambda>r. map_of r ''id'') (set rows)"
    by (simp add: keyed_def id_cells_def distinct_map)
  from assms(1,2,3) have "map_of e ''id'' \<noteq> None" "map_of r ''id'' \<noteq> None"
    by (force simp: keyed_def id_cells_def)+
  with assms(4) have "map_of r ''id'' = map_of e ''id''"
    by (auto simp: dict_get_def)
  with inj assms(2,3) show ?thesis by (auto dest: inj_onD)
qed

lemma select_update_other:
  assumes k: "keyed rows" and e: "e \<in> set rows"
    and n: "sql_eq (dict_get e ''normalized_name'') n" and m: "m \<noteq> n"
    and d: "''normalized_name'' \<notin> fst ` set data"
  shows "select_eq (update_rows rows data ''id'' (dict_get e ''id'')) ''normalized_name'' m
           = select_eq rows ''normalized_name'' m"
proof -
  let ?g = "\<lambda>r. if sql_eq (dict_get r ''id'') (dict_get e ''id'') then set_cols r data else r"
  let ?P = "\<lambda>r. sql_eq (dict_get r ''normalized_name'') m"
  have p: "?P (?g r) = ?P r" for r
    using d by (simp add: dict_get_set_cols)
  have g: "?g r = r" if "r \<in> set rows" and "?P r" for r
  proof (cases "sql_eq (dict_get r ''id'') (dict_get e ''id'')")
    case True
    then have "dict_get r ''id'' = dict_get e ''id''" by (simp add: sql_eq_def)
    from keyed_same_id [OF k e that(1) this] have "r = e" .
    with that(2) n m show ?thesis by (simp add: sql_eq_def)
  next
    case False
    then show ?thesis by simp
  qed
  have "filter ?P (map ?g rows) = map ?g (filter (?P \<circ> ?g) rows)"
    by (simp add: filter_map)
  also have "(?P \<circ> ?g) = ?P" using p by (simp add: fun_eq_iff)
  also have "map ?g (filter ?P rows) = filter ?P rows"
    using g by (intro map_idI) simp
  finally show ?thesis by (simp add: select_eq_def update_rows_def)
qed

lemma query_one_select:
  "query_one (select_eq rows col v) = Some e \<Longrightarrow> e \<in> set rows \<and> sql_eq (dict_get e col) v"
proof -
  assume a: "query_one (select_eq rows col v) = Some e"
  then have "e \<in> set (select_eq rows col v)" by (cases "select_eq rows col v") auto
  then show ?thesis by (simp add: select_eq_def)
qed

lemma updates_keys:
  "k \<notin> set fs \<Longrightarrow> k \<noteq> ''updated_at'' \<Longrightarrow>
     k \<notin> fst ` set (field_updates fs l e @ [(''updated_at'', now)])"
  using field_updates_keys [of fs l e] by auto

lemma id_not_field:
  "''id'' \<notin> set instrument_fields" "''id'' \<notin> set platform_fields" "''id'' \<notin> set station_fields"
  by (simp_all add: instrument_fields_def platform_fields_def station_fields_def)

lemma d1_update_stable_instruments:
  assumes k: "keyed (store w Instruments)" and e: "e \<in> set (store w Instruments)"
    and n: "sql_eq (dict_get e ''normalized_name'') n"
    and i: "''id'' \<notin> fst ` set data" and d: "''normalized_name'' \<notin> fst ` set data"
  shows "stable {} {n} w (d1_update Instruments data ''id'' (dict_get e ''id'') w)"
  using select_update_other [OF k e n _ d] id_cells_update_rows [OF i] update_rows_col [OF d]
  by (simp add: stable_def d1_update_def names_of_def)

lemma d1_update_stable_platforms:
  assumes k: "keyed (store w Platforms)" and e: "e \<in> set (store w Platforms)"
    and n: "sql_eq (dict_get e ''normalized_name'') n"
    and i: "''id'' \<notin> fst ` set data" and d: "''normalized_name'' \<notin> fst ` set data"
  shows "stable {n} {} w (d1_update Platforms data ''id'' (dict_get e ''id'') w)"
  using select_update_other [OF k e n _ d] id_cells_update_rows [OF i] update_rows_col [OF d]
  by (simp add: stable_def d1_update_def names_of_def)

lemma stable_keyed:
  "stable P I w w' \<Longrightarrow> keyed (store w Platforms) \<Longrightarrow> keyed (store w' Platforms)"
  "stable P I w w' \<Longrightarrow> keyed (store w Instruments) \<Longrightarrow> keyed (store w' Instruments)"
  by (simp_all add: stable_def keyed_def)

lemma traced_refl: "traced [] x x"
  by (simp add: traced_def)

lemma traced_trans: "traced us a b \<Longrightarrow> traced vs b c \<Longrightarrow> traced (us @ vs) a c"
  by (simp add: traced_def)

lemma apply_updates_traced:
  assumes "apply_updates t m False now (field_updates (fields_of t) l e) e ch w = (Inr ch', w')"
  shows "traced (updates_for t l e now) (ch, w) (ch', w')"
  using apply_updates_ok_cases [OF assms]
  by (auto simp: traced_def updates_for_def entity_update_def d1_update_def)

lemma subscript_dict_get: "subscript d k = Inr v \<Longrightarrow> dict_get d k = v"
  by (auto simp: subscript_def dict_get_def split: option.splits)

lemma instrument_step_trace:
  assumes k: "keyed (store w Instruments)"
    and s: "instrument_step False now li ch w = (Inr ch', w')"
  shows "traced (instrument_expected now (store w) li) (ch, w) (ch', w')
       \<and> stable {} {dict_get (inst_fields li) ''normalized_name''} w w'"
proof (cases "subscript (inst_fields li) ''normalized_name''")
  case (Inl e)
  with s show ?thesis by (simp add: instrument_step_def)
next
  case (Inr n)
  note n = this
  show ?thesis
  proof (cases "query_one (select_eq (store w Instruments) ''normalized_name'' n)")
    case None
    with n s show ?thesis
      by (simp add: instrument_step_def instrument_expected_def traced_refl stable_refl)
  next
    case (Some e)
    from query_one_select [OF Some] have e: "e \<in> set (store w Instruments)"
      and en: "sql_eq (dict_get e ''normalized_name'') n" by simp_all
    from n Some s have a: "apply_updates Instruments (\<lambda>u. DryRunInstrument n) False now
        (field_updates (fields_of Instruments) (inst_fields li) e) e ch w = (Inr ch', w')"
      by (simp add: instrument_step_def fields_of_def)
    have t: "traced (instrument_expected now (store w) li) (ch, w) (ch', w')"
      using apply_updates_traced [OF a] n Some by (simp add: instrument_expected_def)
    let ?data = "field_updates instrument_fields (inst_fields li) e @ [(''updated_at'', now)]"
    have "stable {} {n} w w'"
    proof (cases "field_updates instrument_fields (inst_fields li) e = []")
      case True
      with a show ?thesis by (simp add: apply_updates_def fields_of_def stable_refl)
    next
      case False
      with apply_updates_ok_cases [OF a]
      have "w' = d1_update Instruments ?data ''id'' (dict_get e ''id'') w"
        by (simp add: fields_of_def)
      moreover have i: "''id'' \<notin> fst ` set ?data"
        by (rule updates_keys) (simp_all add: id_not_field)
      moreover have d: "''normalized_name'' \<notin> fst ` set ?data"
        by (rule updates_keys) (simp_all add: nn_not_instrument_field)
      moreover have "stable {} {n} w (d1_update Instruments ?data ''id'' (dict_get e ''id'') w)"
        by (rule d1_update_stable_instruments [OF k e en i d])
      ultimately show ?thesis by simp
    qed
    with t subscript_dict_get [OF n] show ?thesis by simp
  qed
qed

lemma instrument_expected_cong:
  assumes "select_eq (db' Instruments) ''normalized_name''
             (dict_get (inst_fields li) ''normalized_name'')
           = select_eq (db Instruments) ''normalized_name''
               (dict_get (inst_fields li) ''normalized_name'')"
  shows "instrument_expected now db' li = instrument_expected now db li"
  using assms
  by (auto simp: instrument_expected_def dest: subscript_dict_get split: sum.splits)

lemma instruments_expected_cong:
  assumes "\<forall>n \<in> set (inst_names lis).
             select_eq (db' Instruments) ''normalized_name'' n
             = select_eq (db Instruments) ''normalized_name'' n"
  shows "map (instrument_expected now db') lis = map (instrument_expected now db) lis"
  using assms by (auto simp: inst_names_def intro: instrument_expected_cong)

lemma push_instruments_trace:
  assumes "keyed (store w Instruments)" and "distinct (inst_names lis)"
    and "push_instruments False now lis ch w = (Inr ch', w')"
  shows "traced (concat (map (instrument_expected now (store w)) lis)) (ch, w) (ch', w')
       \<and> stable {} (set (inst_names lis)) w w'"
  using assms
proof (induction lis arbitrary: ch w)
  case Nil
  then show ?case by (simp add: traced_refl stable_refl)
next
  case (Cons li lis)
  let ?n = "dict_get (inst_fields li) ''normalized_name''"
  from Cons.prems(3) have
    "then_push (instrument_step False now li ch w) (push_instruments False now lis) = (Inr ch', w')"
    by (simp only: push_instruments_Cons)
  from then_push_ok [OF this] obtain ch1 and w1 :: world where
    s: "instrument_step False now li ch w = (Inr ch1, w1)"
    and r: "push_instruments False now lis ch1 w1 = (Inr ch', w')" by blast
  from instrument_step_trace [OF Cons.prems(1) s]
  have t1: "traced (instrument_expected now (store w) li) (ch, w) (ch1, w1)"
    and s1: "stable {} {?n} w w1" by simp_all
  from Cons.prems(2) have d: "distinct (inst_names lis)" and nin: "?n \<notin> set (inst_names lis)"
    by (simp_all add: inst_names_def)
  from stable_keyed(2) [OF s1 Cons.prems(1)] have k1: "keyed (store w1 Instruments)" .
  from Cons.IH [OF k1 d r]
  have t2: "traced (concat (map (instrument_expected now (store w1)) lis)) (ch1, w1) (ch', w')"
    and s2: "stable {} (set (inst_names lis)) w1 w'" by simp_all
  have "\<forall>n \<in> set (inst_names lis).
          select_eq (store w1 Instruments) ''normalized_name'' n
          = select_eq (store w Instruments) ''normalized_name'' n"
  proof
    fix n assume "n \<in> set (inst_names lis)"
    with nin have "n \<noteq> ?n" by auto
    with s1 show "select_eq (store w1 Instruments) ''normalized_name'' n
          = select_eq (store w Instruments) ''normalized_name'' n"
      by (simp add: stable_def)
  qed
  then have "map (instrument_expected now (store w1)) lis
      = map (instrument_expected now (store w)) lis"
    by (rule instruments_expected_cong)
  with t2 have t2': "traced (concat (map (instrument_expected now (store w)) lis)) (ch1, w1) (ch', w')"
    by simp
  from traced_trans [OF t1 t2'] stable_trans [OF s1 s2]
  show ?case by (simp add: inst_names_def)
qed

lemma platform_expected_cong:
  assumes p: "select_eq (db' Platforms) ''normalized_name''
             (dict_get (plat_fields lp) ''normalized_name'')
           = select_eq (db Platforms) ''normalized_name''
               (dict_get (plat_fields lp) ''normalized_name'')"
    and i: "\<forall>n \<in> set (inst_names (instruments lp)).
             select_eq (db' Instruments) ''normalized_name'' n
             = select_eq (db Instruments) ''normalized_name'' n"
  shows "platform_expected now db' lp = platform_expected now db lp"
proof (cases "subscript (plat_fields lp) ''normalized_name''")
  case (Inl e)
  then show ?thesis by (simp add: platform_expected_def)
next
  case (Inr n)
  from subscript_dict_get [OF Inr] p
  have q: "select_eq (db' Platforms) ''normalized_name'' n
         = select_eq (db Platforms) ''normalized_name'' n" by simp
  have m: "map (instrument_expected now db') (instruments lp)
         = map (instrument_expected now db) (instruments lp)"
    by (rule instruments_expected_cong) (rule i)
  show ?thesis
    by (cases "query_one (select_eq (db Platforms) ''normalized_name'' n)")
       (simp_all only: platform_expected_def Inr q m sum.case option.case)
qed

lemma platform_step_trace:
  assumes kp: "keyed (store w Platforms)" and ki: "keyed (store w Instruments)"
    and di: "distinct (inst_names (instruments lp))"
    and s: "platform_step False now lp ch w = (Inr ch', w')"
  shows "traced (platform_expected now (store w) lp) (ch, w) (ch', w')
       \<and> stable {dict_get (plat_fields lp) ''normalized_name''}
            (set (inst_names (instruments lp))) w w'"
proof (cases "subscript (plat_fields lp) ''normalized_name''")
  case (Inl e)
  with s show ?thesis by (simp add: platform_step_def)
next
  case (Inr n)
  note n = this
  show ?thesis
  proof (cases "query_one (select_eq (store w Platforms) ''normalized_name'' n)")
    case None
    with n s show ?thesis
      by (simp add: platform_step_def platform_expected_def traced_refl stable_refl)
  next
    case (Some e)
    from query_one_select [OF Some] have e: "e \<in> set (store w Platforms)"
      and en: "sql_eq (dict_get e ''normalized_name'') n" by simp_all
    from n Some s have "then_push
        (apply_updates Platforms (DryRunPlatform n) False now
           (field_updates (fields_of Platforms) (plat_fields lp) e) e ch w)
        (push_instruments False now (instruments lp)) = (Inr ch', w')"
      by (simp add: platform_step_def fields_of_def)
    from then_push_ok [OF this] obtain ch1 and w1 :: world where
      a: "apply_updates Platforms (DryRunPlatform n) False now
           (field_updates (fields_of Platforms) (plat_fields lp) e) e ch w = (Inr ch1, w1)"
      and r: "push_instruments False now (instruments lp) ch1 w1 = (Inr ch', w')" by blast
    have t1: "traced (updates_for Platforms (plat_fields lp) e now) (ch, w) (ch1, w1)"
      by (rule apply_updates_traced [OF a])
    let ?data = "field_updates platform_fields (plat_fields lp) e @ [(''updated_at'', now)]"
    have s1: "stable {n} {} w w1"
    proof (cases "field_updates platform_fields (plat_fields lp) e = []")
      case True
      with a show ?thesis by (simp add: apply_updates_def fields_of_def stable_refl)
    next
      case False
      with apply_updates_ok_cases [OF a]
      have "w1 = d1_update Platforms ?data ''id'' (dict_get e ''id'') w"
        by (simp add: fields_of_def)
      moreover have i: "''id'' \<notin> fst ` set ?data"
        by (rule updates_keys) (simp_all add: id_not_field)
      moreover have d: "''normalized_name'' \<notin> fst ` set ?data"
        by (rule updates_keys) (simp_all add: nn_not_platform_field)
      moreover have "stable {n} {} w (d1_update Platforms ?data ''id'' (dict_get e ''id'') w)"
        by (rule d1_update_stable_platforms [OF kp e en i d])
      ultimately show ?thesis by simp
    qed
    from stable_keyed(2) [OF s1 ki] have k1: "keyed (store w1 Instruments)" .
    from push_instruments_trace [OF k1 di r]
    have t2: "traced (concat (map (instrument_expected now (store w1)) (instruments lp)))
                (ch1, w1) (ch', w')"
      and s2: "stable {} (set (inst_names (instruments lp))) w1 w'" by simp_all
    have "map (instrument_expected now (store w1)) (instruments lp)
        = map (instrument_expected now (store w)) (instruments lp)"
      by (rule instruments_expected_cong) (use s1 in \<open>simp add: stable_def\<close>)
    with t2 have t2': "traced (concat (map (instrument_expected now (store w)) (instruments lp)))
                (ch1, w1) (ch', w')" by simp
    have "platform_expected now (store w) lp
        = updates_for Platforms (plat_fields lp) e now
          @ concat (map (instrument_expected now (store w)) (instruments lp))"
      using n Some by (simp add: platform_expected_def)
    with traced_trans [OF t1 t2'] stable_trans [OF s1 s2] subscript_dict_get [OF n]
    show ?thesis by simp
  qed
qed

lemma push_platforms_trace:
  assumes "keyed (store w Platforms)" and "keyed (store w Instruments)"
    and "distinct (plat_names lps)" and "distinct (all_inst_names lps)"
    and "push_platforms False now lps ch w = (Inr ch', w')"
  shows "traced (concat (map (platform_expected now (store w)) lps)) (ch, w) (ch', w')
       \<and> stable (set (plat_names lps)) (set (all_inst_names lps)) w w'"
  using assms
proof (induction lps arbitrary: ch w)
  case Nil
  then show ?case by (simp add: traced_refl stable_refl)
next
  case (Cons lp lps)
  let ?n = "dict_get (plat_fields lp) ''normalized_name''"
  let ?I = "set (inst_names (instruments lp))"
  from Cons.prems(5) have
    "then_push (platform_step False now lp ch w) (push_platforms False now lps) = (Inr ch', w')"
    by (simp only: push_platforms_Cons)
  from then_push_ok [OF this] obtain ch1 and w1 :: world where
    s: "platform_step False now lp ch w = (Inr ch1, w1)"
    and r: "push_platforms False now lps ch1 w1 = (Inr ch', w')" by blast
  from Cons.prems(3) have dp: "distinct (plat_names lps)" and nin: "?n \<notin> set (plat_names lps)"
    by (simp_all add: plat_names_def)
  from Cons.prems(4) have di: "distinct (inst_names (instruments lp))"
    and dis: "distinct (all_inst_names lps)"
    and disj: "?I \<inter> set (all_inst_names lps) = {}"
    by (simp_all add: all_inst_names_def)
  from platform_step_trace [OF Cons.prems(1,2) di s]
  have t1: "traced (platform_expected now (store w) lp) (ch, w) (ch1, w1)"
    and s1: "stable {?n} ?I w w1" by simp_all
  from stable_keyed [OF s1] Cons.prems(1,2)
  have k1: "keyed (store w1 Platforms)" "keyed (store w1 Instruments)" by simp_all
  from Cons.IH [OF k1 dp dis r]
  have t2: "traced (concat (map (platform_expected now (store w1)) lps)) (ch1, w1) (ch', w')"
    and s2: "stable (set (plat_names lps)) (set (all_inst_names lps)) w1 w'" by simp_all
  have "map (platform_expected now (store w1)) lps = map (platform_expected now (store w)) lps"
  proof (rule map_cong [OF refl])
    fix lp' assume m: "lp' \<in> set lps"
    then have "dict_get (plat_fields lp') ''normalized_name'' \<in> set (plat_names lps)"
      by (simp add: plat_names_def)
    with nin have a: "dict_get (plat_fields lp') ''normalized_name'' \<notin> {?n}" by auto
    from m have "set (inst_names (instruments lp')) \<subseteq> set (all_inst_names lps)"
      by (auto simp: all_inst_names_def)
    with disj have b: "\<forall>n \<in> set (inst_names (instruments lp')). n \<notin> ?I" by auto
    show "platform_expected now (store w1) lp' = platform_expected now (store w) lp'"
      by (rule platform_expected_cong) (use s1 a b in \<open>simp_all add: stable_def\<close>)
  qed
  with t2 have t2': "traced (concat (map (platform_expected now (store w)) lps)) (ch1, w1) (ch', w')"
    by simp
  from traced_trans [OF t1 t2'] stable_trans [OF s1 s2]
  show ?case by (simp add: plat_names_def all_inst_names_def)
qed

lemma push_station_trace:
  assumes kp: "keyed (store w Platforms)" and ki: "keyed (store w Instruments)"
    and dp: "distinct (plat_names (platforms local_data))"
    and di: "distinct (all_inst_names (platforms local_data))"
    and ps: "push_station acr local_data False now w = (Inr ch, w')"
  shows "executed w' = executed w @ expected_updates acr now (store w) local_data
       \<and> ch = \<lparr>updated = length (expected_updates acr now (store w) local_data),
                inserted = 0, deleted = 0\<rparr>
       \<and> printed w' = printed w
           @ [SyncSummary acr (length (expected_updates acr now (store w) local_data)) 0 0]"
proof (cases "query_one (select_eq (store w Stations) ''acronym'' (PStr acr))")
  case None
  with ps show ?thesis by (simp add: push_station_def)
next
  case (Some station)
  let ?z = "\<lparr>updated = 0, inserted = 0, deleted = 0\<rparr>"
  from Some ps have "then_push
      (then_push
         (apply_updates Stations DryRunStation False now
            (field_updates (fields_of Stations) (st_fields local_data) station) station ?z w)
         (push_platforms False now (platforms local_data)))
      (\<lambda>ch w. (Inr ch, print (SyncSummary acr (updated ch) (inserted ch) (deleted ch)) w))
    = (Inr ch, w')"
    by (simp add: push_station_alt fields_of_def)
  from then_push_ok [OF this] obtain ch2 and w2 :: world where
    tp: "then_push
         (apply_updates Stations DryRunStation False now
            (field_updates (fields_of Stations) (st_fields local_data) station) station ?z w)
         (push_platforms False now (platforms local_data)) = (Inr ch2, w2)"
    and fin: "(Inr ch2, print (SyncSummary acr (updated ch2) (inserted ch2) (deleted ch2)) w2)
        = (Inr ch, w')" by blast
  from then_push_ok [OF tp] obtain ch1 and w1 :: world where
    a: "apply_updates Stations DryRunStation False now
            (field_updates (fields_of Stations) (st_fields local_data) station) station ?z w
          = (Inr ch1, w1)"
    and p: "push_platforms False now (platforms local_data) ch1 w1 = (Inr ch2, w2)" by blast
  have t1: "traced (updates_for Stations (st_fields local_data) station now) (?z, w) (ch1, w1)"
    by (rule apply_updates_traced [OF a])
  from apply_updates_frame [OF a] have f: "store w1 Platforms = store w Platforms"
    "store w1 Instruments = store w Instruments" by simp_all
  from kp ki f have k1: "keyed (store w1 Platforms)" "keyed (store w1 Instruments)" by simp_all
  from push_platforms_trace [OF k1 dp di p]
  have t2: "traced (concat (map (platform_expected now (store w1)) (platforms local_data)))
              (ch1, w1) (ch2, w2)" by simp
  have "map (platform_expected now (store w1)) (platforms local_data)
      = map (platform_expected now (store w)) (platforms local_data)"
    by (rule map_cong [OF refl], rule platform_expected_cong) (simp_all add: f)
  with t2 have t2': "traced (concat (map (platform_expected now (store w)) (platforms local_data)))
              (ch1, w1) (ch2, w2)" by simp
  have e: "expected_updates acr now (store w) local_data
      = updates_for Stations (st_fields local_data) station now
        @ concat (map (platform_expected now (store w)) (platforms local_data))"
    using Some by (simp add: expected_updates_def)
  from traced_trans [OF t1 t2'] have t: "traced (expected_updates acr now (store w) local_data)
      (?z, w) (ch2, w2)" by (simp only: e)
  from fin have "ch = ch2" "w' = print (SyncSummary acr (updated ch2) (inserted ch2) (deleted ch2)) w2"
    by auto
  with t show ?thesis by (simp add: traced_def print_def)
qed

section \<open>Push matches by name only, wherever the candidate stands\<close>






lemma example_keyed:
  "keyed (store example_world Platforms)" "keyed (store example_world Instruments)"
  by (simp_all add: keyed_def id_cells_def example_world_def example_db_def)


section \<open>One update per entity reached\<close>

lemma found_ids_differ:
  assumes k: "keyed rows"
    and q: "query_one (select_eq rows ''normalized_name'' m) = Some e"
    and q': "query_one (select_eq rows ''normalized_name'' m') = Some e'"
    and ne: "m \<noteq> m'"
  shows "dict_get e ''id'' \<noteq> dict_get e' ''id''"
proof
  assume eq: "dict_get e ''id'' = dict_get e' ''id''"
  from query_one_select [OF q] have e: "e \<in> set rows"
    and en: "sql_eq (dict_get e ''normalized_name'') m" by simp_all
  from query_one_select [OF q'] have e': "e' \<in> set rows"
    and en': "sql_eq (dict_get e' ''normalized_name'') m'" by simp_all
  from keyed_same_id [OF k e' e eq] have "e = e'" .
  with en en' ne show False by (simp add: sql_eq_def)
qed

lemma updates_for_targets:
  "x \<in> target ` set (updates_for t l e now) \<Longrightarrow> x = (t, dict_get e ''id'')"
  by (auto simp: updates_for_def entity_update_def split: if_splits)

lemma updates_for_distinct: "distinct (map target (updates_for t l e now))"
  by (simp add: updates_for_def)

lemma instrument_targets:
  assumes "x \<in> target ` set (instrument_expected now db li)"
  shows "\<exists>e. query_one (select_eq (db Instruments) ''normalized_name''
                 (dict_get (inst_fields li) ''normalized_name'')) = Some e
           \<and> x = (Instruments, dict_get e ''id'')"
proof (cases "subscript (inst_fields li) ''normalized_name''")
  case (Inl err)
  with assms show ?thesis by (simp add: instrument_expected_def)
next
  case (Inr m)
  show ?thesis
  proof (cases "query_one (select_eq (db Instruments) ''normalized_name'' m)")
    case None
    with Inr assms show ?thesis by (simp add: instrument_expected_def)
  next
    case (Some e)
    with Inr assms have "x \<in> target ` set (updates_for Instruments (inst_fields li) e now)"
      by (simp add: instrument_expected_def)
    from updates_for_targets [OF this] Some subscript_dict_get [OF Inr]
    show ?thesis by simp
  qed
qed

lemma instrument_expected_distinct: "distinct (map target (instrument_expected now db li))"
  by (simp add: instrument_expected_def updates_for_distinct split: sum.splits option.splits)

lemma instruments_targets:
  assumes "x \<in> target ` set (concat (map (instrument_expected now db) lis))"
  shows "\<exists>e m. m \<in> set (inst_names lis)
           \<and> query_one (select_eq (db Instruments) ''normalized_name'' m) = Some e
           \<and> x = (Instruments, dict_get e ''id'')"
proof -
  from assms obtain li where li: "li \<in> set lis"
    and x: "x \<in> target ` set (instrument_expected now db li)" by auto
  from instrument_targets [OF x] li show ?thesis
    by (auto simp: inst_names_def)
qed

lemma instruments_targets_distinct:
  assumes k: "keyed (db Instruments)"
  shows "distinct (inst_names lis) \<Longrightarrow>
     distinct (map target (concat (map (instrument_expected now db) lis)))"
proof (induction lis)
  case Nil
  then show ?case by simp
next
  case (Cons li lis)
  let ?m = "dict_get (inst_fields li) ''normalized_name''"
  from Cons.prems have d: "distinct (inst_names lis)" and nin: "?m \<notin> set (inst_names lis)"
    by (simp_all add: inst_names_def)
  have disj: "target ` set (instrument_expected now db li)
      \<inter> target ` set (concat (map (instrument_expected now db) lis)) = {}"
  proof (rule ccontr)
    assume "\<not> ?thesis"
    then obtain x where x1: "x \<in> target ` set (instrument_expected now db li)"
      and x2: "x \<in> target ` set (concat (map (instrument_expected now db) lis))" by blast
    from instrument_targets [OF x1] obtain e where
      q: "query_one (select_eq (db Instruments) ''normalized_name'' ?m) = Some e"
      and xe: "x = (Instruments, dict_get e ''id'')" by blast
    from instruments_targets [OF x2] obtain e' m' where m': "m' \<in> set (inst_names lis)"
      and q': "query_one (select_eq (db Instruments) ''normalized_name'' m') = Some e'"
      and xe': "x = (Instruments, dict_get e' ''id'')" by blast
    from m' nin have "?m \<noteq> m'" by auto
    from found_ids_differ [where rows = "db Instruments", OF k q q' this] xe xe'
    show False by simp
  qed
  from Cons.IH [OF d] instrument_expected_distinct [of now db li] disj
  show ?case by simp
qed

lemma platform_targets:
  assumes "x \<in> target ` set (platform_expected now db lp)"
  shows "(\<exists>e. query_one (select_eq (db Platforms) ''normalized_name''
                  (dict_get (plat_fields lp) ''normalized_name'')) = Some e
            \<and> x = (Platforms, dict_get e ''id''))
       \<or> (\<exists>e m. m \<in> set (inst_names (instruments lp))
            \<and> query_one (select_eq (db Instruments) ''normalized_name'' m) = Some e
            \<and> x = (Instruments, dict_get e ''id''))"
proof (cases "subscript (plat_fields lp) ''normalized_name''")
  case (Inl err)
  with assms show ?thesis by (simp add: platform_expected_def)
next
  case (Inr n)
  note n = this
  show ?thesis
  proof (cases "query_one (select_eq (db Platforms) ''normalized_name'' n)")
    case None
    with n assms show ?thesis by (simp add: platform_expected_def)
  next
    case (Some e)
    with n assms have "x \<in> target ` set (updates_for Platforms (plat_fields lp) e now)
        \<or> x \<in> target ` set (concat (map (instrument_expected now db) (instruments lp)))"
      by (auto simp: platform_expected_def)
    then show ?thesis
    proof
      assume "x \<in> target ` set (updates_for Platforms (plat_fields lp) e now)"
      from updates_for_targets [OF this] Some subscript_dict_get [OF n]
      show ?thesis by simp
    next
      assume "x \<in> target ` set (concat (map (instrument_expected now db) (instruments lp)))"
      from instruments_targets [OF this] show ?thesis by blast
    qed
  qed
qed

lemma platform_expected_distinct:
  assumes k: "keyed (db Instruments)" and d: "distinct (inst_names (instruments lp))"
  shows "distinct (map target (platform_expected now db lp))"
proof (cases "subscript (plat_fields lp) ''normalized_name''")
  case (Inl err)
  then show ?thesis by (simp add: platform_expected_def)
next
  case (Inr n)
  show ?thesis
  proof (cases "query_one (select_eq (db Platforms) ''normalized_name'' n)")
    case None
    with Inr show ?thesis by (simp add: platform_expected_def)
  next
    case (Some e)
    have "target ` set (updates_for Platforms (plat_fields lp) e now)
        \<inter> target ` set (concat (map (instrument_expected now db) (instruments lp))) = {}"
    proof (rule ccontr)
      assume "\<not> ?thesis"
      then obtain x where x1: "x \<in> target ` set (updates_for Platforms (plat_fields lp) e now)"
        and x2: "x \<in> target ` set (concat (map (instrument_expected now db) (instruments lp)))"
        by blast
      from updates_for_targets [OF x1] instruments_targets [OF x2] show False by auto
    qed
    with Inr Some updates_for_distinct [of Platforms "plat_fields lp" e now]
      instruments_targets_distinct [where db = db, OF k d, of now]
    show ?thesis by (simp add: platform_expected_def)
  qed
qed

lemma platforms_targets_distinct:
  assumes kp: "keyed (db Platforms)" and ki: "keyed (db Instruments)"
  shows "distinct (plat_names lps) \<Longrightarrow> distinct (all_inst_names lps) \<Longrightarrow>
     distinct (map target (concat (map (platform_expected now db) lps)))"
proof (induction lps)
  case Nil
  then show ?case by simp
next
  case (Cons lp lps)
  let ?n = "dict_get (plat_fields lp) ''normalized_name''"
  from Cons.prems(1) have dp: "distinct (plat_names lps)" and nin: "?n \<notin> set (plat_names lps)"
    by (simp_all add: plat_names_def)
  from Cons.prems(2) have di: "distinct (inst_names (instruments lp))"
    and dis: "distinct (all_inst_names lps)"
    and disj: "set (inst_names (instruments lp)) \<inter> set (all_inst_names lps) = {}"
    by (simp_all add: all_inst_names_def)
  have "target ` set (platform_expected now db lp)
      \<inter> target ` set (concat (map (platform_expected now db) lps)) = {}"
  proof (rule ccontr)
    assume "\<not> ?thesis"
    then obtain x lp' where x1: "x \<in> target ` set (platform_expected now db lp)"
      and lp': "lp' \<in> set lps"
      and x2: "x \<in> target ` set (platform_expected now db lp')" by auto
    let ?n' = "dict_get (plat_fields lp') ''normalized_name''"
    from lp' nin have nn: "?n \<noteq> ?n'" by (auto simp: plat_names_def)
    from lp' have sub: "set (inst_names (instruments lp')) \<subseteq> set (all_inst_names lps)"
      by (auto simp: all_inst_names_def)
    from platform_targets [OF x1] show False
    proof (elim disjE exE conjE)
      fix e assume q: "query_one (select_eq (db Platforms) ''normalized_name'' ?n) = Some e"
        and xe: "x = (Platforms, dict_get e ''id'')"
      from platform_targets [OF x2] xe obtain e' where
        "query_one (select_eq (db Platforms) ''normalized_name'' ?n') = Some e'"
        "x = (Platforms, dict_get e' ''id'')" by auto
      with found_ids_differ [where rows = "db Platforms", OF kp q _ nn] xe show False by auto
    next
      fix e m assume m: "m \<in> set (inst_names (instruments lp))"
        and q: "query_one (select_eq (db Instruments) ''normalized_name'' m) = Some e"
        and xe: "x = (Instruments, dict_get e ''id'')"
      from platform_targets [OF x2] xe obtain e' m' where
        m': "m' \<in> set (inst_names (instruments lp'))"
        and q': "query_one (select_eq (db Instruments) ''normalized_name'' m') = Some e'"
        and xe': "x = (Instruments, dict_get e' ''id'')" by auto
      from m m' sub disj have "m \<noteq> m'" by auto
      from found_ids_differ [where rows = "db Instruments", OF ki q q' this] xe xe'
      show False by simp
    qed
  qed
  with Cons.IH [OF dp dis] platform_expected_distinct [where db = db, OF ki di, of now]
  show ?case by simp
qed

lemma platforms_targets_table:
  "x \<in> target ` set (concat (map (platform_expected now db) lps)) \<Longrightarrow> fst x \<noteq> Stations"
proof -
  assume "x \<in> target ` set (concat (map (platform_expected now db) lps))"
  then obtain lp where "x \<in> target ` set (platform_expected now db lp)" by auto
  from platform_targets [OF this] show ?thesis by auto
qed

lemma expected_updates_distinct:
  assumes kp: "keyed (db Platforms)" and ki: "keyed (db Instruments)"
    and dp: "distinct (plat_names (platforms local_data))"
    and di: "distinct (all_inst_names (platforms local_data))"
  shows "distinct (map target (expected_updates acr now db local_data))"
proof (cases "query_one (select_eq (db Stations) ''acronym'' (PStr acr))")
  case None
  then show ?thesis by (simp add: expected_updates_def)
next
  case (Some station)
  have "target ` set (updates_for Stations (st_fields local_data) station now)
      \<inter> target ` set (concat (map (platform_expected now db) (platforms local_data))) = {}"
  proof (rule ccontr)
    assume "\<not> ?thesis"
    then obtain x where
      x1: "x \<in> target ` set (updates_for Stations (st_fields local_data) station now)"
      and x2: "x \<in> target ` set (concat (map (platform_expected now db) (platforms local_data)))"
      by blast
    from updates_for_targets [OF x1] platforms_targets_table [OF x2] show False by simp
  qed
  with Some updates_for_distinct [of Stations "st_fields local_data" station now]
    platforms_targets_distinct [where db = db, OF kp ki dp di, of now]
  show ?thesis by (simp add: expected_updates_def)
qed

lemmas diff_eval = diff_station_def index_by_name.simps diff_platforms.simps field_diffs.simps
  diff_station_fields_def diff_platform_fields_def select_eq_def sql_eq_def dict_get_def
  subscript_def example_db_def update_conv'

text \<open>
  C8, as stated, fails. A platform found by its name, for which \<^verbatim>\<open>diff_station\<close> reports
  two differing fields, gets no statement when the local document does not carry those
  fields: push compares a field only when it is \<^verbatim>\<open>in\<close> the local entity, the diff reads
  it with \<^verbatim>\<open>.get\<close>. And an instrument found by its name, with a differing status, gets
  no statement when it is listed under a platform the store does not know: the loop over
  instruments runs only inside \<^verbatim>\<open>if existing\<close>.
\<close>

theorem matched_divergent_without_update:
  "diff_station ''SVB'' bare_platform_doc example_db = Inr bare_platform_diff
   \<and> executed (snd (push_station ''SVB'' bare_platform_doc False (PStr ''t'') example_world)) = []
   \<and> query_one (select_eq (example_db Instruments) ''normalized_name'' (PStr ''SVB_PL01_PHE01''))
       = Some (hd (example_db Instruments))
   \<and> field_updates instrument_fields (inst_fields misplaced_instrument)
        (hd (example_db Instruments)) = [(''status'', PStr ''Inactive'')]
   \<and> executed (snd (push_station ''SVB'' orphan_instrument_doc False (PStr ''t'') example_world))
       = []"
proof -
  have a: "diff_station ''SVB'' bare_platform_doc example_db = Inr bare_platform_diff"
    by (simp add: diff_eval bare_platform_doc_def bare_platform_diff_def)
  have b: "executed (snd (push_station ''SVB'' bare_platform_doc False (PStr ''t'')
             example_world)) = []"
    by (simp add: push_eval bare_platform_doc_def)
  have c: "query_one (select_eq (example_db Instruments) ''normalized_name''
             (PStr ''SVB_PL01_PHE01'')) = Some (hd (example_db Instruments))"
    by (simp add: select_eq_def sql_eq_def dict_get_def example_db_def)
  have d: "field_updates instrument_fields (inst_fields misplaced_instrument)
        (hd (example_db Instruments)) = [(''status'', PStr ''Inactive'')]"
    by (simp add: instrument_fields_def misplaced_instrument_def example_db_def dict_get_def)
  have e: "executed (snd (push_station ''SVB'' orphan_instrument_doc False (PStr ''t'')
             example_world)) = []"
    by (simp add: push_eval orphan_instrument_doc_def misplaced_instrument_def)
  from a b c d e show ?thesis by simp
qed

text \<open>
  C8, amended. Take a non-dry-run push that returns normally, on keyed platform and
  instrument tables, of a document that lists no platform name and no instrument name
  twice. The statements it executes are exactly \<open>expected_updates\<close>, in that order: for
  the station, for each candidate platform found by its name, and for each instrument
  found by its name under such a platform, one \<^verbatim>\<open>UPDATE\<close> when at least one compared field
  that the local entity carries differs from the row, and none otherwise; an instrument
  under a platform that is not found gets none. The counter \<^verbatim>\<open>updated\<close> is their number,
  and no two of them address the same row. The \<^verbatim>\<open>SET\<close> clause of each lists exactly the
  compared fields that the local entity carries and whose value differs from the row's,
  each with the local value, followed by \<^verbatim>\<open>updated_at\<close>; the SQL text \<^verbatim>\<open>update\<close> builds has
  one \<^verbatim>\<open>col = ?\<close> for each of them.
\<close>

theorem one_update_per_entity:
  assumes kp: "keyed (store w Platforms)" and ki: "keyed (store w Instruments)"
    and dp: "distinct (plat_names (platforms local_data))"
    and di: "distinct (all_inst_names (platforms local_data))"
    and ps: "push_station acr local_data False now w = (Inr ch, w')"
  shows "executed w' = executed w @ expected_updates acr now (store w) local_data
       \<and> updated ch = length (expected_updates acr now (store w) local_data)
       \<and> distinct (map target (expected_updates acr now (store w) local_data))
       \<and> map fst (field_updates fs l e)
            = filter (\<lambda>f. has_key l f \<and> dict_get l f \<noteq> dict_get e f) fs
       \<and> (\<forall>kv \<in> set (field_updates fs l e). map_of l (fst kv) = Some (snd kv))
       \<and> update_sql tbl (field_updates fs l e @ [(''updated_at'', now)]) ''id = ?''
            = ''UPDATE '' @ tbl @ '' SET ''
                @ join '', '' (map (\<lambda>f. f @ '' = ?'')
                    (filter (\<lambda>f. has_key l f \<and> dict_get l f \<noteq> dict_get e f) fs
                       @ [''updated_at'']))
                @ '' WHERE id = ?''"
proof (intro conjI)
  from push_station_trace [OF kp ki dp di ps]
  show "executed w' = executed w @ expected_updates acr now (store w) local_data"
    and "updated ch = length (expected_updates acr now (store w) local_data)"
    by simp_all
next
  show "distinct (map target (expected_updates acr now (store w) local_data))"
    by (rule expected_updates_distinct [OF kp ki dp di])
next
  show "map fst (field_updates fs l e)
        = filter (\<lambda>f. has_key l f \<and> dict_get l f \<noteq> dict_get e f) fs"
    by (rule field_updates_columns)
next
  show "\<forall>kv \<in> set (field_updates fs l e). map_of l (fst kv) = Some (snd kv)"
    using field_updates_field by blast
next
  show "update_sql tbl (field_updates fs l e @ [(''updated_at'', now)]) ''id = ?''
        = ''UPDATE '' @ tbl @ '' SET ''
            @ join '', '' (map (\<lambda>f. f @ '' = ?'')
                (filter (\<lambda>f. has_key l f \<and> dict_get l f \<noteq> dict_get e f) fs
                   @ [''updated_at'']))
            @ '' WHERE id = ?''"
    by (simp only: update_sql_def join_set_clause map_append field_updates_columns) simp
qed

lemmas expected_eval = expected_updates_def platform_expected_def instrument_expected_def
  updates_for_def entity_update_def fields_of_def

theorem one_update_per_entity_witness:
  "fst (push_station ''SVB'' several_doc False (PStr ''t'') example_world)
     = Inr \<lparr>updated = 4, inserted = 0, deleted = 0\<rparr>
   \<and> executed (snd (push_station ''SVB'' several_doc False (PStr ''t'') example_world))
     = several_updates
   \<and> expected_updates ''SVB'' (PStr ''t'') example_db several_doc = several_updates
   \<and> update_sql ''platforms''
        [(''display_name'', PStr ''Mast''), (''status'', PStr ''Inactive''),
         (''updated_at'', PStr ''t'')] ''id = ?''
     = ''UPDATE platforms SET display_name = ?, status = ?, updated_at = ? WHERE id = ?''"
proof -
  let ?w' = "snd (push_station ''SVB'' several_doc False (PStr ''t'') example_world)"
  let ?ch = "\<lparr>updated = 4, inserted = 0, deleted = 0\<rparr>"
  have dp: "distinct (plat_names (platforms several_doc))"
    and di: "distinct (all_inst_names (platforms several_doc))"
    by (simp_all add: plat_names_def all_inst_names_def inst_names_def several_doc_def
        dict_get_def)
  have ps: "push_station ''SVB'' several_doc False (PStr ''t'') example_world = (Inr ?ch, ?w')"
    by (simp add: push_eval several_doc_def)
  have ex: "expected_updates ''SVB'' (PStr ''t'') (store example_world) several_doc
      = several_updates"
    by (simp add: expected_eval several_doc_def several_updates_def select_eq_def sql_eq_def
        dict_get_def subscript_def example_db_def example_world_def
        station_fields_def platform_fields_def instrument_fields_def)
  have st: "store example_world = example_db" by (simp add: example_world_def)
  have e0: "executed example_world = []" by (simp add: example_world_def)
  have f: "fst (push_station ''SVB'' several_doc False (PStr ''t'') example_world) = Inr ?ch"
    by (simp add: push_eval several_doc_def)
  from one_update_per_entity [OF example_keyed dp di ps, THEN conjunct1] f ex
  show ?thesis by (simp add: e0 st [symmetric] update_sql_def)
qed

section \<open>A dry run and the push it stands for\<close>

lemma dry_traced_refl: "dry_traced [] x x"
  by (simp add: dry_traced_def)

lemma dry_traced_trans: "dry_traced ms a b \<Longrightarrow> dry_traced ns b c \<Longrightarrow> dry_traced (ms @ ns) a c"
  by (simp add: dry_traced_def)

lemma apply_updates_dry:
  "apply_updates t m True now (field_updates fs l e) e ch w = (r, w') \<Longrightarrow>
     r = Inr ch \<and> dry_traced (lines_for m fs l e now) (ch, w) (ch, w')"
  by (auto simp: apply_updates_def Let_def lines_for_def dry_traced_def print_def
      split: if_splits)

lemma instrument_step_dry:
  assumes "instrument_step True now li ch w = (Inr ch', w')"
  shows "dry_traced (instrument_lines now (store w) li) (ch, w) (ch', w')"
proof (cases "subscript (inst_fields li) ''normalized_name''")
  case (Inl e)
  with assms show ?thesis by (simp add: instrument_step_def)
next
  case (Inr n)
  show ?thesis
  proof (cases "query_one (select_eq (store w Instruments) ''normalized_name'' n)")
    case None
    with Inr assms show ?thesis
      by (simp add: instrument_step_def instrument_lines_def dry_traced_refl)
  next
    case (Some e)
    with Inr assms have "apply_updates Instruments (\<lambda>u. DryRunInstrument n) True now
        (field_updates instrument_fields (inst_fields li) e) e ch w = (Inr ch', w')"
      by (simp add: instrument_step_def)
    from apply_updates_dry [OF this] Inr Some show ?thesis
      by (simp add: instrument_lines_def)
  qed
qed

lemma push_instruments_dry:
  "push_instruments True now lis ch w = (Inr ch', w') \<Longrightarrow>
     dry_traced (concat (map (instrument_lines now (store w)) lis)) (ch, w) (ch', w')"
proof (induction lis arbitrary: ch w)
  case Nil
  then show ?case by (simp add: dry_traced_refl)
next
  case (Cons li lis)
  from Cons.prems have
    "then_push (instrument_step True now li ch w) (push_instruments True now lis) = (Inr ch', w')"
    by (simp only: push_instruments_Cons)
  from then_push_ok [OF this] obtain ch1 and w1 :: world where
    s: "instrument_step True now li ch w = (Inr ch1, w1)"
    and r: "push_instruments True now lis ch1 w1 = (Inr ch', w')" by blast
  from instrument_step_dry [OF s]
  have t1: "dry_traced (instrument_lines now (store w) li) (ch, w) (ch1, w1)" .
  then have st: "store w1 = store w" by (simp add: dry_traced_def)
  from Cons.IH [OF r] st
  have t2: "dry_traced (concat (map (instrument_lines now (store w)) lis)) (ch1, w1) (ch', w')"
    by simp
  from dry_traced_trans [OF t1 t2] show ?case by simp
qed

lemma platform_step_dry:
  assumes "platform_step True now lp ch w = (Inr ch', w')"
  shows "dry_traced (platform_lines now (store w) lp) (ch, w) (ch', w')"
proof (cases "subscript (plat_fields lp) ''normalized_name''")
  case (Inl e)
  with assms show ?thesis by (simp add: platform_step_def)
next
  case (Inr n)
  show ?thesis
  proof (cases "query_one (select_eq (store w Platforms) ''normalized_name'' n)")
    case None
    with Inr assms show ?thesis
      by (simp add: platform_step_def platform_lines_def dry_traced_refl)
  next
    case (Some e)
    with Inr assms have "then_push
        (apply_updates Platforms (DryRunPlatform n) True now
           (field_updates platform_fields (plat_fields lp) e) e ch w)
        (push_instruments True now (instruments lp)) = (Inr ch', w')"
      by (simp add: platform_step_def)
    from then_push_ok [OF this] obtain ch1 and w1 :: world where
      a: "apply_updates Platforms (DryRunPlatform n) True now
           (field_updates platform_fields (plat_fields lp) e) e ch w = (Inr ch1, w1)"
      and r: "push_instruments True now (instruments lp) ch1 w1 = (Inr ch', w')" by blast
    from apply_updates_dry [OF a]
    have c1: "ch1 = ch"
      and t1: "dry_traced (lines_for (DryRunPlatform n) platform_fields (plat_fields lp) e now)
                 (ch, w) (ch, w1)" by simp_all
    then have st: "store w1 = store w" by (simp add: dry_traced_def)
    from push_instruments_dry [OF r] st c1
    have t2: "dry_traced (concat (map (instrument_lines now (store w)) (instruments lp)))
                (ch, w1) (ch', w')" by simp
    from dry_traced_trans [OF t1 t2] Inr Some show ?thesis
      by (simp add: platform_lines_def)
  qed
qed

lemma push_platforms_dry:
  "push_platforms True now lps ch w = (Inr ch', w') \<Longrightarrow>
     dry_traced (concat (map (platform_lines now (store w)) lps)) (ch, w) (ch', w')"
proof (induction lps arbitrary: ch w)
  case Nil
  then show ?case by (simp add: dry_traced_refl)
next
  case (Cons lp lps)
  from Cons.prems have
    "then_push (platform_step True now lp ch w) (push_platforms True now lps) = (Inr ch', w')"
    by (simp only: push_platforms_Cons)
  from then_push_ok [OF this] obtain ch1 and w1 :: world where
    s: "platform_step True now lp ch w = (Inr ch1, w1)"
    and r: "push_platforms True now lps ch1 w1 = (Inr ch', w')" by blast
  from platform_step_dry [OF s]
  have t1: "dry_traced (platform_lines now (store w) lp) (ch, w) (ch1, w1)" .
  then have st: "store w1 = store w" by (simp add: dry_traced_def)
  from Cons.IH [OF r] st
  have t2: "dry_traced (concat (map (platform_lines now (store w)) lps)) (ch1, w1) (ch', w')"
    by simp
  from dry_traced_trans [OF t1 t2] show ?case by simp
qed

lemma push_station_dry:
  assumes ps: "push_station acr local_data True now w = (Inr ch, w')"
  shows "printed w' = printed w @ expected_lines acr now (store w) local_data
                        @ [SyncSummary acr 0 0 0]
       \<and> ch = \<lparr>updated = 0, inserted = 0, deleted = 0\<rparr>"
proof (cases "query_one (select_eq (store w Stations) ''acronym'' (PStr acr))")
  case None
  with ps show ?thesis by (simp add: push_station_def)
next
  case (Some station)
  let ?z = "\<lparr>updated = 0, inserted = 0, deleted = 0\<rparr>"
  from Some ps have "then_push
      (then_push
         (apply_updates Stations DryRunStation True now
            (field_updates station_fields (st_fields local_data) station) station ?z w)
         (push_platforms True now (platforms local_data)))
      (\<lambda>ch w. (Inr ch, print (SyncSummary acr (updated ch) (inserted ch) (deleted ch)) w))
    = (Inr ch, w')"
    by (simp add: push_station_alt)
  from then_push_ok [OF this] obtain ch2 and w2 :: world where
    tp: "then_push
         (apply_updates Stations DryRunStation True now
            (field_updates station_fields (st_fields local_data) station) station ?z w)
         (push_platforms True now (platforms local_data)) = (Inr ch2, w2)"
    and fin: "(Inr ch2, print (SyncSummary acr (updated ch2) (inserted ch2) (deleted ch2)) w2)
        = (Inr ch, w')" by blast
  from then_push_ok [OF tp] obtain ch1 and w1 :: world where
    a: "apply_updates Stations DryRunStation True now
            (field_updates station_fields (st_fields local_data) station) station ?z w
          = (Inr ch1, w1)"
    and p: "push_platforms True now (platforms local_data) ch1 w1 = (Inr ch2, w2)" by blast
  from apply_updates_dry [OF a]
  have c1: "ch1 = ?z"
    and t1: "dry_traced (lines_for DryRunStation station_fields (st_fields local_data) station now)
               (?z, w) (?z, w1)" by simp_all
  then have st: "store w1 = store w" by (simp add: dry_traced_def)
  from push_platforms_dry [OF p] st c1
  have t2: "dry_traced (concat (map (platform_lines now (store w)) (platforms local_data)))
              (?z, w1) (ch2, w2)" by simp
  from dry_traced_trans [OF t1 t2] Some
  have t: "dry_traced (expected_lines acr now (store w) local_data) (?z, w) (ch2, w2)"
    by (simp add: expected_lines_def)
  from fin have "ch = ch2" "w' = print (SyncSummary acr (updated ch2) (inserted ch2) (deleted ch2)) w2"
    by auto
  with t show ?thesis by (simp add: dry_traced_def print_def)
qed

lemma apply_updates_dry_frame:
  "apply_updates t m True now u e ch w = (r, w') \<Longrightarrow>
     store w' = store w \<and> executed w' = executed w"
  by (auto simp: apply_updates_def Let_def print_def split: if_splits)

lemma push_station_dry_frame:
  assumes "push_station acr local_data True now w = (r, w')"
  shows "store w' = store w \<and> executed w' = executed w"
proof (rule push_station_rel
    [where R = "\<lambda>w w'. store w' = store w \<and> executed w' = executed w", OF _ _ _ _ assms])
  show "\<And>w. store w = store w \<and> executed w = executed w" by simp
  show "\<And>a b c. store b = store a \<and> executed b = executed a \<Longrightarrow>
       store c = store b \<and> executed c = executed b \<Longrightarrow>
       store c = store a \<and> executed c = executed a" by simp
  show "\<And>t m fs l e ch w r w'.
       apply_updates t m True now (field_updates fs l e) e ch w = (r, w') \<Longrightarrow>
       ''normalized_name'' \<notin> set fs \<Longrightarrow> store w' = store w \<and> executed w' = executed w"
    by (rule apply_updates_dry_frame)
  show "\<And>m w. store (print m w) = store w \<and> executed (print m w) = executed w"
    by (simp add: print_def)
qed

lemma list_all2_concat_map:
  "(\<And>x. x \<in> set xs \<Longrightarrow> list_all2 P (f x) (g x)) \<Longrightarrow>
     list_all2 P (concat (map f xs)) (concat (map g xs))"
  by (induction xs) (auto intro: list_all2_appendI)

lemma same_but_time_stamp:
  "same_but_time now_d now_r (u @ [(''updated_at'', now_d)]) (u @ [(''updated_at'', now_r)])"
  by (simp add: same_but_time_def)

lemma instrument_announced:
  "list_all2 (announces now_d now_r acr db)
     (instrument_lines now_d db li) (instrument_expected now_r db li)"
proof (cases "subscript (inst_fields li) ''normalized_name''")
  case (Inl e)
  then show ?thesis by (simp add: instrument_lines_def instrument_expected_def)
next
  case (Inr n)
  show ?thesis
  proof (cases "query_one (select_eq (db Instruments) ''normalized_name'' n)")
    case None
    with Inr show ?thesis by (simp add: instrument_lines_def instrument_expected_def)
  next
    case (Some e)
    with Inr show ?thesis
      by (simp add: instrument_lines_def instrument_expected_def lines_for_def updates_for_def
          entity_update_def fields_of_def found_id_def)
  qed
qed

lemma platform_announced:
  "list_all2 (announces now_d now_r acr db)
     (platform_lines now_d db lp) (platform_expected now_r db lp)"
proof (cases "subscript (plat_fields lp) ''normalized_name''")
  case (Inl e)
  then show ?thesis by (simp add: platform_lines_def platform_expected_def)
next
  case (Inr n)
  show ?thesis
  proof (cases "query_one (select_eq (db Platforms) ''normalized_name'' n)")
    case None
    with Inr show ?thesis by (simp add: platform_lines_def platform_expected_def)
  next
    case (Some e)
    have a: "list_all2 (announces now_d now_r acr db)
        (lines_for (DryRunPlatform n) platform_fields (plat_fields lp) e now_d)
        (updates_for Platforms (plat_fields lp) e now_r)"
      using Some
      by (simp add: lines_for_def updates_for_def entity_update_def fields_of_def found_id_def
          same_but_time_stamp)
    have b: "list_all2 (announces now_d now_r acr db)
        (concat (map (instrument_lines now_d db) (instruments lp)))
        (concat (map (instrument_expected now_r db) (instruments lp)))"
      by (rule list_all2_concat_map) (rule instrument_announced)
    from list_all2_appendI [OF a b] Inr Some show ?thesis
      by (simp add: platform_lines_def platform_expected_def)
  qed
qed

lemma expected_announced:
  "list_all2 (announces now_d now_r acr db)
     (expected_lines acr now_d db local_data) (expected_updates acr now_r db local_data)"
proof (cases "query_one (select_eq (db Stations) ''acronym'' (PStr acr))")
  case None
  then show ?thesis by (simp add: expected_lines_def expected_updates_def)
next
  case (Some station)
  have a: "list_all2 (announces now_d now_r acr db)
      (lines_for DryRunStation station_fields (st_fields local_data) station now_d)
      (updates_for Stations (st_fields local_data) station now_r)"
    using Some
    by (simp add: lines_for_def updates_for_def entity_update_def fields_of_def found_id_def
        same_but_time_stamp)
  have b: "list_all2 (announces now_d now_r acr db)
      (concat (map (platform_lines now_d db) (platforms local_data)))
      (concat (map (platform_expected now_r db) (platforms local_data)))"
    by (rule list_all2_concat_map) (rule platform_announced)
  from list_all2_appendI [OF a b] Some show ?thesis
    by (simp add: expected_lines_def expected_updates_def)
qed

text \<open>
  C4, as stated, fails in its second half. For a document that lists the platform
  \<^verbatim>\<open>SVB_PL01\<close> twice, first retired and then active (as it is in the store), the dry run
  compares both entries with the stored row and reports one update; the real push
  applies that update, then finds the second entry differing from the row it has just
  changed, and applies a second one.
\<close>

theorem dry_run_duplicate_differs:
  "printed (snd (push_station ''SVB'' twice_doc True (PStr ''t'') example_world))
     = [DryRunPlatform (PStr ''SVB_PL01'')
          [(''status'', PStr ''Inactive''), (''updated_at'', PStr ''t'')],
        SyncSummary ''SVB'' 0 0 0]
   \<and> executed (snd (push_station ''SVB'' twice_doc False (PStr ''t'') example_world))
     = [Update Platforms [(''status'', PStr ''Inactive''), (''updated_at'', PStr ''t'')]
          ''id'' (PInt 2),
        Update Platforms [(''status'', PStr ''Active''), (''updated_at'', PStr ''t'')]
          ''id'' (PInt 2)]"
  by (simp add: push_eval twice_doc_def)

text \<open>
  C4, amended. A dry run, whatever the document and whether or not it returns normally,
  leaves the store as it was and executes no statement. When the platform and instrument
  tables are keyed, the document lists no platform name and no instrument name twice, and
  both the dry run and a real push of the same document on the same store return
  normally, then the dry run prints some lines \<open>ms\<close> followed by a summary with all
  counters zero, the real push executes some statements \<open>us\<close>, counts them in \<^verbatim>\<open>updated\<close>
  and prints only its summary, and the lines and the statements correspond one to one,
  in order, by \<open>announces\<close>: each statement updates the row whose name the line shows, with
  the \<^verbatim>\<open>SET\<close> dict the line shows up to the value of \<^verbatim>\<open>updated_at\<close>; an instrument line
  shows the name only. The two runs may read the clock at different times.
\<close>

theorem dry_run_reports_push:
  "store (snd (push_station acr local_data True now_d w)) = store w
   \<and> executed (snd (push_station acr local_data True now_d w)) = executed w
   \<and> (keyed (store w Platforms) \<and> keyed (store w Instruments)
       \<and> distinct (plat_names (platforms local_data))
       \<and> distinct (all_inst_names (platforms local_data))
       \<and> push_station acr local_data True now_d w = (Inr ch_d, w_d)
       \<and> push_station acr local_data False now_r w = (Inr ch_r, w_r) \<longrightarrow>
         (\<exists>ms us. printed w_d = printed w @ ms @ [SyncSummary acr 0 0 0]
            \<and> ch_d = \<lparr>updated = 0, inserted = 0, deleted = 0\<rparr>
            \<and> executed w_r = executed w @ us
            \<and> ch_r = \<lparr>updated = length us, inserted = 0, deleted = 0\<rparr>
            \<and> printed w_r = printed w @ [SyncSummary acr (length us) 0 0]
            \<and> list_all2 (announces now_d now_r acr (store w)) ms us))"
proof (intro conjI impI)
  obtain r w' where p: "push_station acr local_data True now_d w = (r, w')"
    by (cases "push_station acr local_data True now_d w") auto
  from push_station_dry_frame [OF p] p
  show "store (snd (push_station acr local_data True now_d w)) = store w"
    and "executed (snd (push_station acr local_data True now_d w)) = executed w"
    by simp_all
next
  assume a: "keyed (store w Platforms) \<and> keyed (store w Instruments)
       \<and> distinct (plat_names (platforms local_data))
       \<and> distinct (all_inst_names (platforms local_data))
       \<and> push_station acr local_data True now_d w = (Inr ch_d, w_d)
       \<and> push_station acr local_data False now_r w = (Inr ch_r, w_r)"
  then have kp: "keyed (store w Platforms)" and ki: "keyed (store w Instruments)"
    and dp: "distinct (plat_names (platforms local_data))"
    and di: "distinct (all_inst_names (platforms local_data))"
    and pd: "push_station acr local_data True now_d w = (Inr ch_d, w_d)"
    and pr: "push_station acr local_data False now_r w = (Inr ch_r, w_r)" by simp_all
  let ?ms = "expected_lines acr now_d (store w) local_data"
  let ?us = "expected_updates acr now_r (store w) local_data"
  from push_station_dry [OF pd] push_station_trace [OF kp ki dp di pr]
    expected_announced [of now_d now_r acr "store w" local_data]
  show "\<exists>ms us. printed w_d = printed w @ ms @ [SyncSummary acr 0 0 0]
            \<and> ch_d = \<lparr>updated = 0, inserted = 0, deleted = 0\<rparr>
            \<and> executed w_r = executed w @ us
            \<and> ch_r = \<lparr>updated = length us, inserted = 0, deleted = 0\<rparr>
            \<and> printed w_r = printed w @ [SyncSummary acr (length us) 0 0]
            \<and> list_all2 (announces now_d now_r acr (store w)) ms us"
    by (intro exI [of _ ?ms] exI [of _ ?us]) simp
qed

theorem dry_run_reports_push_witness:
  "executed (snd (push_station ''SVB'' several_doc True (PStr ''d'') example_world)) = []
   \<and> printed (snd (push_station ''SVB'' several_doc True (PStr ''d'') example_world))
       = several_lines @ [SyncSummary ''SVB'' 0 0 0]
   \<and> executed (snd (push_station ''SVB'' several_doc False (PStr ''t'') example_world))
       = several_updates
   \<and> list_all2 (announces (PStr ''d'') (PStr ''t'') ''SVB'' example_db)
        several_lines several_updates"
proof -
  let ?wd = "snd (push_station ''SVB'' several_doc True (PStr ''d'') example_world)"
  let ?wr = "snd (push_station ''SVB'' several_doc False (PStr ''t'') example_world)"
  let ?z = "\<lparr>updated = 0, inserted = 0, deleted = 0\<rparr>"
  let ?four = "\<lparr>updated = 4, inserted = 0, deleted = 0\<rparr>"
  have dp: "distinct (plat_names (platforms several_doc))"
    and di: "distinct (all_inst_names (platforms several_doc))"
    by (simp_all add: plat_names_def all_inst_names_def inst_names_def several_doc_def
        dict_get_def)
  have pd: "push_station ''SVB'' several_doc True (PStr ''d'') example_world = (Inr ?z, ?wd)"
    by (simp add: push_eval several_doc_def)
  have pr: "push_station ''SVB'' several_doc False (PStr ''t'') example_world = (Inr ?four, ?wr)"
    by (simp add: push_eval several_doc_def)
  have prd: "printed ?wd = several_lines @ [SyncSummary ''SVB'' 0 0 0]"
    by (simp add: push_eval several_doc_def several_lines_def)
  have exr: "executed ?wr = several_updates"
    by (simp add: push_eval several_doc_def several_updates_def)
  have e0: "executed example_world = []" "printed example_world = []"
    "store example_world = example_db"
    by (simp_all add: example_world_def)
  from dry_run_reports_push
    [where acr = "''SVB''" and local_data = several_doc and now_d = "PStr ''d''"
      and now_r = "PStr ''t''" and w = example_world and ch_d = ?z and w_d = ?wd
      and ch_r = ?four and w_r = ?wr]
    example_keyed dp di pd pr
  have "executed ?wd = []"
    and "\<exists>ms us. printed ?wd = ms @ [SyncSummary ''SVB'' 0 0 0] \<and> executed ?wr = us
           \<and> list_all2 (announces (PStr ''d'') (PStr ''t'') ''SVB'' example_db) ms us"
    by (auto simp: e0)
  with prd exr show ?thesis by auto
qed

section \<open>Push, then assemble\<close>





























end
